(* ===== verification/BB_Prelude.thy ===== *)
theory BB_Prelude
  imports Main "HOL-Library.Sublist"
begin

text \<open>
  Shared vocabulary of the BookBuddy development.

  \<^item> \<open>py_error\<close>: the Python exceptions that the modelled code can raise, and
    \<open>'a result\<close> = \<open>py_error + 'a\<close> (\<open>Inl\<close> is the raised exception).
  \<^item> \<open>rbind\<close>, \<open>rmap\<close>: sequencing of computations that may raise; the first
    exception wins, as in Python's left-to-right evaluation.
  \<^item> \<open>('a, 's) prog\<close>: a computation over a state \<open>'s\<close> that returns or raises
    and hands back the state it reached in both cases (\<open>ret\<close>, \<open>raise\<close>,
    \<open>gets\<close>, \<open>bnd\<close>; \<open>run_list\<close> for a \<open>for\<close> loop and \<open>map_prog\<close> for
    one that collects a list).
  \<^item> \<open>keeps I p\<close>: the computation \<open>p\<close> keeps the invariant \<open>I\<close>, however
    it ends; the rules of the collection \<open>keeps_intros\<close> build such facts
    along the structure of a computation.
  \<^item> \<open>max_loop\<close>, \<open>py_max\<close>, \<open>max_by_key\<close>: the loop of Python's
    \<open>max(xs, key=f)\<close>, which keeps the first element whose key is maximal.
\<close>

section \<open>Collections\<close>

named_theorems keeps_intros "rules that show that a computation keeps an invariant"

section \<open>Exceptions as values\<close>

datatype py_error =
    AttributeError | TypeError | ValueError | IndexError | KeyError | OverflowError
  | IntegrityError | TransportError

type_synonym 'a result = "py_error + 'a"

definition rbind :: "'a result \<Rightarrow> ('a \<Rightarrow> 'b result) \<Rightarrow> 'b result" where
  "rbind m f = (case m of Inl e \<Rightarrow> Inl e | Inr x \<Rightarrow> f x)"

fun rmap :: "('a \<Rightarrow> 'b result) \<Rightarrow> 'a list \<Rightarrow> 'b list result" where
  "rmap f [] = Inr []"
| "rmap f (x # xs) = rbind (f x) (\<lambda>y. rbind (rmap f xs) (\<lambda>ys. Inr (y # ys)))"

definition is_ok :: "'a result \<Rightarrow> bool" where
  "is_ok r = (case r of Inl _ \<Rightarrow> False | Inr _ \<Rightarrow> True)"

section \<open>Computations over a state that may raise\<close>

type_synonym ('a, 's) prog = "'s \<Rightarrow> 'a result \<times> 's"

definition ret :: "'a \<Rightarrow> ('a, 's) prog" where
  "ret x s = (Inr x, s)"

definition raise :: "py_error \<Rightarrow> ('a, 's) prog" where
  "raise e s = (Inl e, s)"

definition bnd :: "('a, 's) prog \<Rightarrow> ('a \<Rightarrow> ('b, 's) prog) \<Rightarrow> ('b, 's) prog" where
  "bnd m f s = (case m s of (Inl e, s') \<Rightarrow> (Inl e, s') | (Inr x, s') \<Rightarrow> f x s')"

definition gets :: "('s \<Rightarrow> 'a) \<Rightarrow> ('a, 's) prog" where
  "gets f s = (Inr (f s), s)"

text \<open>A \<open>for\<close> loop whose body may raise: the exception leaves the loop at once.\<close>

fun run_list :: "('a \<Rightarrow> (unit, 's) prog) \<Rightarrow> 'a list \<Rightarrow> (unit, 's) prog" where
  "run_list body [] s = (Inr (), s)"
| "run_list body (x # xs) s =
     (case body x s of (Inl e, s') \<Rightarrow> (Inl e, s') | (Inr _, s') \<Rightarrow> run_list body xs s')"

text \<open>A \<open>for\<close> loop that appends one result per item to a list.\<close>

fun map_prog :: "('a \<Rightarrow> ('b, 's) prog) \<Rightarrow> 'a list \<Rightarrow> ('b list, 's) prog" where
  "map_prog f [] s = (Inr [], s)"
| "map_prog f (x # xs) s =
     (case f x s of
        (Inl e, s') \<Rightarrow> (Inl e, s')
      | (Inr y, s') \<Rightarrow>
          (case map_prog f xs s' of
             (Inl e, s'') \<Rightarrow> (Inl e, s'')
           | (Inr ys, s'') \<Rightarrow> (Inr (y # ys), s'')))"

text \<open>The computation keeps the invariant, whether it returns or raises.\<close>

definition keeps :: "('s \<Rightarrow> bool) \<Rightarrow> ('a, 's) prog \<Rightarrow> bool" where
  "keeps I p \<longleftrightarrow> (\<forall>s r s'. I s \<longrightarrow> p s = (r, s') \<longrightarrow> I s')"

section \<open>Python's max with a key\<close>

text \<open>
  CPython's \<open>max\<close> walks the items once, holding the best item and its key, and
  replaces them only when the next key is strictly greater. The items arrive
  here paired with their (already computed) keys.
\<close>

fun max_loop :: "'a \<times> int \<Rightarrow> ('a \<times> int) list \<Rightarrow> 'a \<times> int" where
  "max_loop best [] = best"
| "max_loop best (x # xs) = max_loop (if snd x > snd best then x else best) xs"

definition py_max :: "('a \<times> int) list \<Rightarrow> 'a result" where
  "py_max kxs = (case kxs of [] \<Rightarrow> Inl ValueError | x # xs \<Rightarrow> Inr (fst (max_loop x xs)))"

text \<open>
  \<open>max(xs, key=f)\<close> where the key function may raise: the keys are computed in
  order, once each, and the first exception ends the call.
\<close>

definition keyed :: "('a \<Rightarrow> int result) \<Rightarrow> 'a \<Rightarrow> ('a \<times> int) result" where
  "keyed f x = rbind (f x) (\<lambda>k. Inr (x, k))"

definition max_by_key :: "('a \<Rightarrow> int result) \<Rightarrow> 'a list \<Rightarrow> 'a result" where
  "max_by_key f xs = rbind (rmap (keyed f) xs) py_max"

section \<open>Lemmas: results\<close>

lemma rbind_Inl [simp]: "rbind (Inl e) f = Inl e"
  by (simp add: rbind_def)

lemma rbind_Inr [simp]: "rbind (Inr x) f = f x"
  by (simp add: rbind_def)

lemma rbind_eq_Inr_iff: "rbind m f = Inr y \<longleftrightarrow> (\<exists>x. m = Inr x \<and> f x = Inr y)"
  by (cases m) auto

lemma rbind_eq_Inl_iff:
  "rbind m f = Inl e \<longleftrightarrow> m = Inl e \<or> (\<exists>x. m = Inr x \<and> f x = Inl e)"
  by (cases m) auto

lemma rbind_split:
  "P (rbind m f) \<longleftrightarrow> (\<forall>e. m = Inl e \<longrightarrow> P (Inl e)) \<and> (\<forall>x. m = Inr x \<longrightarrow> P (f x))"
  by (cases m) auto

lemma rbind_split_asm:
  "P (rbind m f) \<longleftrightarrow> \<not> ((\<exists>e. m = Inl e \<and> \<not> P (Inl e)) \<or> (\<exists>x. m = Inr x \<and> \<not> P (f x)))"
  by (cases m) auto

lemmas rbind_splits = rbind_split rbind_split_asm

lemma rbind_assoc: "rbind (rbind m f) g = rbind m (\<lambda>x. rbind (f x) g)"
  by (cases m) auto

lemma rbind_Inr_right [simp]: "rbind m Inr = m"
  by (cases m) auto

lemma is_ok_simps [simp]: "is_ok (Inr x)" "\<not> is_ok (Inl e)"
  by (simp_all add: is_ok_def)

lemma is_ok_iff: "is_ok r \<longleftrightarrow> (\<exists>x. r = Inr x)"
  by (cases r) auto

lemma rmap_eq_Inr_iff: "rmap f xs = Inr ys \<longleftrightarrow> list_all2 (\<lambda>x y. f x = Inr y) xs ys"
proof (induction xs arbitrary: ys)
  case Nil
  show ?case by auto
next
  case (Cons x xs)
  show ?case
    by (cases ys) (auto simp: rbind_eq_Inr_iff Cons.IH)
qed

lemma rmap_length: "rmap f xs = Inr ys \<Longrightarrow> length ys = length xs"
  by (simp add: rmap_eq_Inr_iff list_all2_lengthD)

lemma rmap_nth: "rmap f xs = Inr ys \<Longrightarrow> i < length xs \<Longrightarrow> f (xs ! i) = Inr (ys ! i)"
  by (auto simp: rmap_eq_Inr_iff dest: list_all2_nthD)

lemma rmap_all_ok: "(\<forall>x \<in> set xs. is_ok (f x)) \<longleftrightarrow> is_ok (rmap f xs)"
  by (induction xs) (auto simp: is_ok_iff rbind_eq_Inr_iff)

lemma rmap_Cons_Inl:
  "rmap f (x # xs) = Inl e \<longleftrightarrow> f x = Inl e \<or> (is_ok (f x) \<and> rmap f xs = Inl e)"
  by (cases "f x"; cases "rmap f xs") auto

lemma rmap_first_error:
  "rmap f xs = Inl e \<longleftrightarrow>
     (\<exists>ps x ss. xs = ps @ x # ss \<and> (\<forall>p \<in> set ps. is_ok (f p)) \<and> f x = Inl e)"
    (is "?L xs \<longleftrightarrow> ?R xs")
proof (induction xs)
  case Nil
  show ?case by simp
next
  case (Cons a xs)
  show ?case
  proof
    assume "?L (a # xs)"
    then consider "f a = Inl e" | "is_ok (f a)" "rmap f xs = Inl e"
      using rmap_Cons_Inl[of f a xs e] by blast
    then show "?R (a # xs)"
    proof cases
      case 1
      then have "a # xs = [] @ a # xs \<and> (\<forall>p \<in> set []. is_ok (f p)) \<and> f a = Inl e" by simp
      then show ?thesis by blast
    next
      case 2
      with Cons.IH obtain ps x ss where
        "xs = ps @ x # ss" "\<forall>p \<in> set ps. is_ok (f p)" "f x = Inl e" by blast
      with 2 have "a # xs = (a # ps) @ x # ss \<and> (\<forall>p \<in> set (a # ps). is_ok (f p)) \<and> f x = Inl e"
        by simp
      then show ?thesis by blast
    qed
  next
    assume "?R (a # xs)"
    then obtain ps x ss where
      *: "a # xs = ps @ x # ss" "\<forall>p \<in> set ps. is_ok (f p)" "f x = Inl e" by blast
    show "?L (a # xs)"
    proof (cases ps)
      case Nil
      with * show ?thesis by (simp add: rmap_Cons_Inl del: rmap.simps)
    next
      case (Cons p ps')
      with * have "xs = ps' @ x # ss" "\<forall>p \<in> set ps'. is_ok (f p)" "is_ok (f a)" by auto
      with *(3) Cons.IH have "rmap f xs = Inl e" by blast
      with \<open>is_ok (f a)\<close> show ?thesis by (simp add: rmap_Cons_Inl del: rmap.simps)
    qed
  qed
qed
section \<open>Lemmas: stateful computations\<close>

lemma bnd_ret [simp]: "bnd (ret x) f = f x"
  by (rule ext) (simp add: bnd_def ret_def)

lemma bnd_raise [simp]: "bnd (raise e) f = raise e"
  by (rule ext) (simp add: bnd_def raise_def)

lemma bnd_ret_right [simp]: "bnd m ret = m"
  by (rule ext) (auto simp: bnd_def ret_def split: prod.splits sum.splits)

lemma bnd_assoc: "bnd (bnd m f) g = bnd m (\<lambda>x. bnd (f x) g)"
  by (rule ext) (auto simp: bnd_def split: prod.splits sum.splits)

lemma bnd_eq_Inr_iff:
  "bnd m f s = (Inr y, t) \<longleftrightarrow> (\<exists>x s'. m s = (Inr x, s') \<and> f x s' = (Inr y, t))"
  by (auto simp: bnd_def split: prod.splits sum.splits)

lemma bnd_eq_Inl_iff:
  "bnd m f s = (Inl e, t) \<longleftrightarrow>
     m s = (Inl e, t) \<or> (\<exists>x s'. m s = (Inr x, s') \<and> f x s' = (Inl e, t))"
  by (auto simp: bnd_def split: prod.splits sum.splits)

lemma run_list_append:
  "run_list body (xs @ ys) s =
     (case run_list body xs s of (Inl e, s') \<Rightarrow> (Inl e, s') | (Inr _, s') \<Rightarrow> run_list body ys s')"
  by (induction xs arbitrary: s) (auto split: prod.splits sum.splits)

text \<open>An invariant of the loop body is an invariant of the loop, however it ends.\<close>

lemma run_list_invariant:
  assumes "\<And>x s r s'. x \<in> set xs \<Longrightarrow> I s \<Longrightarrow> body x s = (r, s') \<Longrightarrow> I s'"
    and "I s" and "run_list body xs s = (r, s')"
  shows "I s'"
  using assms
proof (induction xs arbitrary: s)
  case Nil
  then show ?case by simp
next
  case (Cons x xs)
  obtain r1 s1 where b: "body x s = (r1, s1)" by (cases "body x s")
  have I1: "I s1" using Cons.prems(1)[OF _ Cons.prems(2) b] by simp
  show ?case
  proof (cases r1)
    case (Inl e)
    with b Cons.prems(3) I1 show ?thesis by simp
  next
    case (Inr u)
    with b Cons.prems(3) have "run_list body xs s1 = (r, s')" by simp
    with Cons.IH[OF _ I1] Cons.prems(1) show ?thesis by auto
  qed
qed

section \<open>Lemmas: the collecting loop\<close>

lemma map_prog_Inr_iff:
  "map_prog f (x # xs) s = (Inr zs, s') \<longleftrightarrow>
     (\<exists>y ys s1. f x s = (Inr y, s1) \<and> map_prog f xs s1 = (Inr ys, s') \<and> zs = y # ys)"
  by (auto split: prod.splits sum.splits)

lemma map_prog_Inl_iff:
  "map_prog f (x # xs) s = (Inl e, s') \<longleftrightarrow>
     f x s = (Inl e, s') \<or> (\<exists>y s1. f x s = (Inr y, s1) \<and> map_prog f xs s1 = (Inl e, s'))"
  by (auto split: prod.splits sum.splits)

lemma map_prog_length: "map_prog f xs s = (Inr ys, s') \<Longrightarrow> length ys = length xs"
proof (induction xs arbitrary: s ys)
  case Nil
  then show ?case by simp
next
  case (Cons x xs)
  from Cons.prems obtain y ys' s1 where "map_prog f xs s1 = (Inr ys', s')" "ys = y # ys'"
    unfolding map_prog_Inr_iff by blast
  with Cons.IH[of s1 ys'] show ?case by simp
qed

lemma map_prog_invariant:
  assumes "\<And>x s r s'. x \<in> set xs \<Longrightarrow> I s \<Longrightarrow> f x s = (r, s') \<Longrightarrow> I s'"
    and "I s" and "map_prog f xs s = (r, s')"
  shows "I s'"
  using assms
proof (induction xs arbitrary: s r s')
  case Nil
  then show ?case by simp
next
  case (Cons x xs)
  obtain r1 s1 where fx: "f x s = (r1, s1)" by fastforce
  with Cons.prems(1)[of x s r1 s1] Cons.prems(2) have I1: "I s1" by simp
  show ?case
  proof (cases r1)
    case (Inl e)
    with fx Cons.prems(3) I1 show ?thesis by simp
  next
    case (Inr y)
    obtain r2 s2 where rest: "map_prog f xs s1 = (r2, s2)" by fastforce
    have "I s2"
    proof (rule Cons.IH[OF _ I1 rest])
      show "I t'" if "z \<in> set xs" "I t" "f z t = (q, t')" for z t q t'
        using Cons.prems(1)[of z t q t'] that by simp
    qed
    with fx Inr rest Cons.prems(3) show ?thesis by (auto split: sum.splits)
  qed
qed

lemma map_prog_all:
  assumes "map_prog f xs s = (Inr ys, s')"
    and "\<And>x s y s'. x \<in> set xs \<Longrightarrow> f x s = (Inr y, s') \<Longrightarrow> P x y"
  shows "list_all2 P xs ys"
  using assms
proof (induction xs arbitrary: s ys)
  case Nil
  then show ?case by simp
next
  case (Cons x xs)
  from Cons.prems(1) obtain y ys' s1 where *: "f x s = (Inr y, s1)"
    "map_prog f xs s1 = (Inr ys', s')" "ys = y # ys'"
    unfolding map_prog_Inr_iff by blast
  have "list_all2 P xs ys'"
  proof (rule Cons.IH[OF *(2)])
    show "P z y'" if "z \<in> set xs" "f z t = (Inr y', t')" for z t y' t'
      using Cons.prems(2)[of z t y' t'] that by simp
  qed
  moreover from Cons.prems(2)[of x s y s1] * have "P x y" by simp
  ultimately show ?case using * by simp
qed

lemma map_prog_pure:
  "(\<And>x. x \<in> set xs \<Longrightarrow> f x s = (Inr (g x), s)) \<Longrightarrow> map_prog f xs s = (Inr (map g xs), s)"
  by (induction xs) simp_all

lemma bnd_ret_eq:
  "bnd m (\<lambda>x. ret (f x)) s =
     (case m s of (Inl e, s') \<Rightarrow> (Inl e, s') | (Inr x, s') \<Rightarrow> (Inr (f x), s'))"
  by (simp add: bnd_def ret_def split: prod.splits sum.splits)

section \<open>Lemmas: invariants\<close>

lemma keepsI: "(\<And>s r s'. I s \<Longrightarrow> p s = (r, s') \<Longrightarrow> I s') \<Longrightarrow> keeps I p"
  by (auto simp: keeps_def)

lemma keepsD: "keeps I p \<Longrightarrow> I s \<Longrightarrow> p s = (r, s') \<Longrightarrow> I s'"
  by (auto simp: keeps_def)

lemma keeps_ret [keeps_intros]: "keeps I (ret x)"
  by (simp add: keeps_def ret_def)

lemma keeps_raise [keeps_intros]: "keeps I (raise e)"
  by (simp add: keeps_def raise_def)

lemma keeps_gets [keeps_intros]: "keeps I (gets f)"
  by (simp add: keeps_def gets_def)

lemma keeps_const: "keeps I (\<lambda>s. (r, s))"
  by (simp add: keeps_def)

lemma keeps_bnd [keeps_intros]:
  assumes "keeps I m" and "\<And>x. keeps I (f x)"
  shows "keeps I (bnd m f)"
proof (rule keepsI)
  fix s r s'
  assume I: "I s" and run: "bnd m f s = (r, s')"
  obtain r1 s1 where m: "m s = (r1, s1)" by fastforce
  have I1: "I s1" using keepsD[OF assms(1) I m] .
  show "I s'"
  proof (cases r1)
    case (Inl e)
    with m run I1 show ?thesis by (simp add: bnd_def)
  next
    case (Inr x)
    with m run have "f x s1 = (r, s')" by (simp add: bnd_def)
    then show ?thesis using keepsD[OF assms(2)[of x] I1] by simp
  qed
qed

lemma keeps_run_list [keeps_intros]:
  assumes "\<And>x. x \<in> set xs \<Longrightarrow> keeps I (body x)"
  shows "keeps I (run_list body xs)"
proof (rule keepsI)
  fix s r s'
  assume I: "I s" and run: "run_list body xs s = (r, s')"
  show "I s'"
  proof (rule run_list_invariant[where I = I, OF _ I run])
    fix x t q t'
    assume "x \<in> set xs" "I t" "body x t = (q, t')"
    then show "I t'" using keepsD[OF assms] by blast
  qed
qed

lemma keeps_map_prog [keeps_intros]:
  assumes "\<And>x. x \<in> set xs \<Longrightarrow> keeps I (f x)"
  shows "keeps I (map_prog f xs)"
proof (rule keepsI)
  fix s r s'
  assume I: "I s" and run: "map_prog f xs s = (r, s')"
  show "I s'"
  proof (rule map_prog_invariant[where I = I, OF _ I run])
    fix x t q t'
    assume "x \<in> set xs" "I t" "f x t = (q, t')"
    then show "I t'" using keepsD[OF assms] by blast
  qed
qed

text \<open>What the first part establishes, however it ends, and the second keeps.\<close>

lemma bnd_post:
  assumes "bnd m f s = (r, s')" and "\<And>x s1. m s = (x, s1) \<Longrightarrow> Q s1"
    and "\<And>x. keeps Q (f x)"
  shows "Q s'"
proof -
  obtain r1 s1 where m: "m s = (r1, s1)" by fastforce
  from assms(2)[OF m] have Q1: "Q s1" .
  show ?thesis
  proof (cases r1)
    case (Inl e)
    with m assms(1) Q1 show ?thesis by (simp add: bnd_def)
  next
    case (Inr x)
    with m assms(1) have "f x s1 = (r, s')" by (simp add: bnd_def)
    from keepsD[OF assms(3) Q1 this] show ?thesis .
  qed
qed

lemma bnd_gets [simp]: "bnd (gets g) f s = f (g s) s"
  by (simp add: bnd_def gets_def)

lemma keeps_conj:
  "keeps I p \<Longrightarrow> keeps J p \<Longrightarrow> keeps (\<lambda>s. I s \<and> J s) p"
  by (auto simp: keeps_def)

section \<open>Lemmas: the max loop\<close>

lemma max_loop_in: "max_loop b xs \<in> set (b # xs)"
  by (induction xs arbitrary: b) auto

lemma max_loop_ge_init: "snd b \<le> snd (max_loop b xs)"
proof (induction xs arbitrary: b)
  case Nil
  show ?case by simp
next
  case (Cons x xs)
  have "snd b \<le> snd (if snd x > snd b then x else b)" by simp
  also have "\<dots> \<le> snd (max_loop (if snd x > snd b then x else b) xs)" by (rule Cons.IH)
  finally show ?case by simp
qed

lemma max_loop_ge: "x \<in> set (b # xs) \<Longrightarrow> snd x \<le> snd (max_loop b xs)"
proof (induction xs arbitrary: b)
  case Nil
  then show ?case by simp
next
  case (Cons y ys)
  let ?b' = "if snd y > snd b then y else b"
  from Cons.prems consider "x = b" | "x = y" | "x \<in> set ys" by auto
  then show ?case
  proof cases
    case 1
    have "snd b \<le> snd ?b'" by simp
    also have "\<dots> \<le> snd (max_loop ?b' ys)" by (rule max_loop_ge_init)
    finally show ?thesis using 1 by simp
  next
    case 2
    have "snd y \<le> snd ?b'" by simp
    also have "\<dots> \<le> snd (max_loop ?b' ys)" by (rule max_loop_ge_init)
    finally show ?thesis using 2 by simp
  next
    case 3
    then have "x \<in> set (?b' # ys)" by simp
    then have "snd x \<le> snd (max_loop ?b' ys)" by (rule Cons.IH)
    then show ?thesis by simp
  qed
qed

text \<open>
  Where the winner sits: everything before it has a strictly smaller key
  (so among equal keys the first one wins), everything after it a key that is
  not greater.
\<close>

lemma max_loop_first:
  "\<exists>ps ss. b # xs = ps @ max_loop b xs # ss
     \<and> (\<forall>p \<in> set ps. snd p < snd (max_loop b xs))
     \<and> (\<forall>q \<in> set ss. snd q \<le> snd (max_loop b xs))"
proof (induction xs arbitrary: b)
  case Nil
  show ?case by (intro exI[of _ "[]"]) simp
next
  case (Cons y ys)
  show ?case
  proof (cases "snd y > snd b")
    case True
    then have eq: "max_loop b (y # ys) = max_loop y ys" by simp
    from Cons.IH[of y] obtain ps ss where
      split: "y # ys = ps @ max_loop y ys # ss"
      and before: "\<forall>p \<in> set ps. snd p < snd (max_loop y ys)"
      and after: "\<forall>q \<in> set ss. snd q \<le> snd (max_loop y ys)" by blast
    have "snd b < snd (max_loop y ys)" using True max_loop_ge_init[of y ys] by simp
    with before have "\<forall>p \<in> set (b # ps). snd p < snd (max_loop y ys)" by simp
    moreover from split have "b # y # ys = (b # ps) @ max_loop y ys # ss" by simp
    ultimately show ?thesis unfolding eq using after by blast
  next
    case False
    then have eq: "max_loop b (y # ys) = max_loop b ys" by simp
    from Cons.IH[of b] obtain ps ss where
      split: "b # ys = ps @ max_loop b ys # ss"
      and before: "\<forall>p \<in> set ps. snd p < snd (max_loop b ys)"
      and after: "\<forall>q \<in> set ss. snd q \<le> snd (max_loop b ys)" by blast
    show ?thesis
    proof (cases ps)
      case Nil
      with split have b: "max_loop b ys = b" and ss: "ss = ys" by auto
      from False b ss after have "\<forall>q \<in> set (y # ys). snd q \<le> snd (max_loop b ys)" by auto
      moreover from b have "b # y # ys = [] @ max_loop b ys # (y # ys)" by simp
      moreover have "\<forall>p \<in> set []. snd p < snd (max_loop b ys)" by simp
      ultimately show ?thesis unfolding eq by blast
    next
      case (Cons p ps')
      with split have pb: "p = b" and ys: "ys = ps' @ max_loop b ys # ss" by auto
      from before Cons pb have "snd b < snd (max_loop b ys)" by simp
      with False have "snd y < snd (max_loop b ys)" by simp
      with before Cons have "\<forall>p \<in> set (b # y # ps'). snd p < snd (max_loop b ys)"
        using pb by simp
      moreover from ys have "b # y # ys = (b # y # ps') @ max_loop b ys # ss" by simp
      ultimately show ?thesis unfolding eq using after by blast
    qed
  qed
qed

lemma py_max_Nil [simp]: "py_max [] = Inl ValueError"
  by (simp add: py_max_def)

lemma py_max_eq_Inr_iff: "py_max kxs = Inr x \<longleftrightarrow> (\<exists>b xs. kxs = b # xs \<and> x = fst (max_loop b xs))"
  by (auto simp: py_max_def split: list.splits)

section \<open>Lemmas: max with a key that may raise\<close>

lemma keyed_Inr_iff: "keyed f x = Inr p \<longleftrightarrow> (\<exists>k. f x = Inr k \<and> p = (x, k))"
  by (auto simp: keyed_def rbind_eq_Inr_iff)

lemma keyed_Inl_iff [simp]: "keyed f x = Inl e \<longleftrightarrow> f x = Inl e"
  by (auto simp: keyed_def rbind_eq_Inl_iff)

lemma is_ok_keyed [simp]: "is_ok (keyed f x) \<longleftrightarrow> is_ok (f x)"
  by (auto simp: is_ok_iff keyed_Inr_iff)

lemma rmap_keyed:
  "rmap (keyed f) xs = Inr kxs \<Longrightarrow> map fst kxs = xs \<and> (\<forall>p \<in> set kxs. f (fst p) = Inr (snd p))"
  unfolding rmap_eq_Inr_iff
  by (induction rule: list_all2_induct) (auto simp: keyed_Inr_iff)

lemma max_by_key_first:
  assumes "max_by_key f xs = Inr b"
  shows "\<exists>ps ss kb. xs = ps @ b # ss \<and> f b = Inr kb
           \<and> (\<forall>p \<in> set ps. \<exists>k. f p = Inr k \<and> k < kb)
           \<and> (\<forall>q \<in> set ss. \<exists>k. f q = Inr k \<and> k \<le> kb)"
proof -
  from assms obtain kxs where kxs: "rmap (keyed f) xs = Inr kxs" and "py_max kxs = Inr b"
    by (auto simp: max_by_key_def rbind_eq_Inr_iff)
  then obtain x rest where cons: "kxs = x # rest" and b: "b = fst (max_loop x rest)"
    by (auto simp: py_max_eq_Inr_iff)
  define m where "m = max_loop x rest"
  from max_loop_first[of x rest] obtain ps ss where
    split: "kxs = ps @ m # ss"
    and before: "\<forall>p \<in> set ps. snd p < snd m"
    and after: "\<forall>q \<in> set ss. snd q \<le> snd m"
    unfolding m_def cons by blast
  from rmap_keyed[OF kxs] have xs: "map fst kxs = xs"
    and keys: "\<And>p. p \<in> set kxs \<Longrightarrow> f (fst p) = Inr (snd p)" by auto
  have "xs = map fst ps @ b # map fst ss"
    using xs split b m_def by auto
  moreover have "f b = Inr (snd m)"
    using keys[of m] split b m_def by simp
  moreover have "\<forall>p \<in> set (map fst ps). \<exists>k. f p = Inr k \<and> k < snd m"
    using keys before split by fastforce
  moreover have "\<forall>q \<in> set (map fst ss). \<exists>k. f q = Inr k \<and> k \<le> snd m"
    using keys after split by fastforce
  ultimately show ?thesis by blast
qed

lemma max_by_key_in: "max_by_key f xs = Inr b \<Longrightarrow> b \<in> set xs"
  by (drule max_by_key_first) auto

lemma max_by_key_ge:
  "max_by_key f xs = Inr b \<Longrightarrow> x \<in> set xs \<Longrightarrow> \<exists>k kb. f x = Inr k \<and> f b = Inr kb \<and> k \<le> kb"
  by (drule max_by_key_first) fastforce

lemma max_by_key_Nil [simp]: "max_by_key f [] = Inl ValueError"
  by (simp add: max_by_key_def)

lemma max_by_key_ok: "xs \<noteq> [] \<Longrightarrow> \<forall>x \<in> set xs. is_ok (f x) \<Longrightarrow> is_ok (max_by_key f xs)"
proof -
  assume ne: "xs \<noteq> []" and "\<forall>x \<in> set xs. is_ok (f x)"
  then have "is_ok (rmap (keyed f) xs)" by (simp add: rmap_all_ok[symmetric])
  then obtain kxs where kxs: "rmap (keyed f) xs = Inr kxs" by (auto simp: is_ok_iff)
  with ne have "kxs \<noteq> []" by (auto dest: rmap_length)
  with kxs show ?thesis by (auto simp: max_by_key_def py_max_def split: list.splits)
qed

lemma max_by_key_Inl:
  "max_by_key f xs = Inl e \<Longrightarrow> xs \<noteq> [] \<Longrightarrow> \<exists>x \<in> set xs. f x = Inl e"
proof -
  assume e: "max_by_key f xs = Inl e" and ne: "xs \<noteq> []"
  show ?thesis
  proof (cases "rmap (keyed f) xs")
    case (Inl e')
    with e have "e' = e" by (simp add: max_by_key_def)
    with Inl show ?thesis by (auto simp: rmap_first_error)
  next
    case (Inr kxs)
    with ne have "kxs \<noteq> []" by (auto dest: rmap_length)
    with Inr e show ?thesis by (auto simp: max_by_key_def py_max_def split: list.splits)
  qed
qed

section \<open>Lemmas: lists\<close>

lemma find_append_Some: "find P xs = Some x \<Longrightarrow> find P (xs @ ys) = Some x"
  by (induction xs) (auto split: if_splits)

lemma find_append_None: "find P xs = None \<Longrightarrow> find P (xs @ ys) = find P ys"
  by (induction xs) (auto split: if_splits)

end
