(* ===== verification/Catalog.thy ===== *)
theory Catalog
  imports BB_Prelude
begin

text \<open>
  The database of \<open>src/main.py\<close>: the five tables declared with
  Flask-SQLAlchemy (\<open>User\<close>, \<open>Review\<close>, \<open>Book\<close>, \<open>Favourite\<close>, \<open>History\<close>), the
  session through which the code reads and writes them, and the operations on
  the \<open>Book\<close> table.

  \<^item> Each model class is a record of its columns (\<open>user\<close>, \<open>review\<close>, \<open>book\<close>,
    \<open>favourite\<close>, \<open>history\<close>); \<open>tables\<close> holds the rows of each table in
    insertion order. Time stamps are natural numbers. The \<open>book_id\<close> of a
    favourite or of a history row is any integer: SQLite does not enforce the
    foreign keys unless asked to, and the code does not ask.
  \<^item> A \<open>session\<close> has two copies of the tables: \<open>live\<close>, what queries of the
    running transaction see (the session flushes pending rows before every
    query), and \<open>durable\<close>, what is committed. \<open>commit\<close> makes the live tables
    durable, \<open>rollback\<close> restores the durable ones.
  \<^item> \<open>book_count\<close>, \<open>find_book\<close>, \<open>insert_book\<close> are \<open>Book.query.count()\<close>,
    \<open>Book.query.filter_by(title=, author=).first()\<close> and \<open>db.session.add\<close>
    of a \<open>Book\<close>. The row gets its id as SQLite assigns row ids (one more than
    the largest id of the table) and the unique constraint on (title, author)
    raises \<open>IntegrityError\<close>. The model raises at \<open>add\<close>; the source raises at
    the flush that follows, before anything else can observe the difference.
  \<^item> \<open>with_app_context\<close> is the teardown of an application context: an
    exception that leaves the block ends the transaction with a rollback.

  \<open>books_ok\<close> is the invariant of the \<open>Book\<close> table (unique (title, author),
  unique positive ids) and \<open>db_ok\<close> states it of both copies.
\<close>

section \<open>Tables\<close>

record user =
  u_id :: nat
  u_email :: string
  u_password_hash :: string
  u_name :: string
  u_handle :: string
  u_bio :: string

record review =
  r_id :: nat
  r_user_id :: nat
  r_book_title :: string
  r_book_author :: string
  r_book_cover :: string
  r_rating :: int
  r_text :: string
  r_created :: nat

record book =
  b_id :: nat
  b_title :: string
  b_author :: string
  b_genre :: string
  b_year :: string
  b_cover :: string
  b_olid :: string
  b_cover_i :: string
  b_isbn :: string

record favourite =
  f_id :: nat
  f_user_id :: nat
  f_book_id :: int
  f_created_at :: nat

record history =
  h_id :: nat
  h_user_id :: nat
  h_book_id :: int
  h_viewed_at :: nat

record tables =
  users :: "user list"
  reviews :: "review list"
  books :: "book list"
  favourites :: "favourite list"
  histories :: "history list"

definition empty_tables :: tables where
  "empty_tables = \<lparr>users = [], reviews = [], books = [], favourites = [], histories = []\<rparr>"

section \<open>Session\<close>

record session =
  live :: tables
  durable :: tables

definition new_session :: "tables \<Rightarrow> session" where
  "new_session t = \<lparr>live = t, durable = t\<rparr>"

definition commit :: "session \<Rightarrow> session" where
  "commit s = s\<lparr>durable := live s\<rparr>"

definition rollback :: "session \<Rightarrow> session" where
  "rollback s = s\<lparr>live := durable s\<rparr>"

definition next_id :: "nat list \<Rightarrow> nat" where
  "next_id ids = Suc (fold max ids 0)"

section \<open>The Book table\<close>

definition book_key :: "book \<Rightarrow> string \<times> string" where
  "book_key b = (b_title b, b_author b)"

definition book_count :: "session \<Rightarrow> nat" where
  "book_count s = length (books (live s))"

definition find_book :: "string \<Rightarrow> string \<Rightarrow> session \<Rightarrow> book option" where
  "find_book t a s = find (\<lambda>b. b_title b = t \<and> b_author b = a) (books (live s))"

definition insert_book :: "book \<Rightarrow> (book, session) prog" where
  "insert_book b s =
     (if find_book (b_title b) (b_author b) s \<noteq> None then (Inl IntegrityError, s)
      else let b' = b\<lparr>b_id := next_id (map b_id (books (live s)))\<rparr>
           in (Inr b', s\<lparr>live := (live s)\<lparr>books := books (live s) @ [b']\<rparr>\<rparr>))"

text \<open>Leaving an application context: whatever is not committed is rolled back.\<close>

definition with_app_context :: "('a, session \<times> 'w) prog \<Rightarrow> ('a, session \<times> 'w) prog" where
  "with_app_context p st = (case p st of (r, (s, w)) \<Rightarrow> (r, (rollback s, w)))"

section \<open>Invariant\<close>

definition books_ok :: "book list \<Rightarrow> bool" where
  "books_ok bs \<longleftrightarrow>
     distinct (map book_key bs) \<and> distinct (map b_id bs) \<and> list_all (\<lambda>b. 0 < b_id b) bs"

definition db_ok :: "session \<Rightarrow> bool" where
  "db_ok s \<longleftrightarrow> books_ok (books (live s)) \<and> books_ok (books (durable s))"

text \<open>A row on which the properties below are instantiated.\<close>

definition demo_book :: book where
  "demo_book = \<lparr>b_id = 1, b_title = ''1984'', b_author = ''George Orwell'', b_genre = ''Classics'',
     b_year = ''1949'', b_cover = ''https://covers.openlibrary.org/b/id/123-L.jpg'',
     b_olid = ''OL1M'', b_cover_i = ''123'', b_isbn = ''9780141182636''\<rparr>"

section \<open>Lemmas: session\<close>

lemma live_commit [simp]: "live (commit s) = live s"
  by (simp add: commit_def)

lemma durable_commit [simp]: "durable (commit s) = live s"
  by (simp add: commit_def)

lemma live_rollback [simp]: "live (rollback s) = durable s"
  by (simp add: rollback_def)

lemma durable_rollback [simp]: "durable (rollback s) = durable s"
  by (simp add: rollback_def)

lemma commit_idem [simp]: "commit (commit s) = commit s"
  by (simp add: commit_def)

lemma rollback_commit [simp]: "rollback (commit s) = commit s"
  by (simp add: commit_def rollback_def)

lemma commit_clean: "live s = durable s \<Longrightarrow> commit s = s"
  by (simp add: commit_def)

lemma new_session_simps [simp]: "live (new_session t) = t" "durable (new_session t) = t"
  by (simp_all add: new_session_def)

section \<open>Lemmas: ids\<close>

lemma fold_max_ge: "(m :: nat) \<le> fold max ids m"
  by (induction ids arbitrary: m) (auto intro: order_trans[OF max.cobounded2])

lemma fold_max_ge_elem: "(i :: nat) \<in> set ids \<Longrightarrow> i \<le> fold max ids m"
proof (induction ids arbitrary: m)
  case Nil
  then show ?case by simp
next
  case (Cons a ids)
  show ?case
  proof (cases "i = a")
    case True
    have "a \<le> max a m" by simp
    also have "\<dots> \<le> fold max ids (max a m)" by (rule fold_max_ge)
    finally show ?thesis using True by simp
  next
    case False
    with Cons show ?thesis by simp
  qed
qed

lemma next_id_fresh: "next_id ids \<notin> set ids"
  using fold_max_ge_elem[of "next_id ids" ids 0] by (auto simp: next_id_def)

lemma next_id_pos [simp]: "0 < next_id ids"
  by (simp add: next_id_def)

lemma next_id_greater: "i \<in> set ids \<Longrightarrow> i < next_id ids"
  using fold_max_ge_elem[of i ids 0] by (simp add: next_id_def)

section \<open>Lemmas: the Book table\<close>

lemma book_count_commit [simp]: "book_count (commit s) = book_count s"
  by (simp add: book_count_def)

lemma find_book_commit [simp]: "find_book t a (commit s) = find_book t a s"
  by (simp add: find_book_def)

lemma find_book_None_iff:
  "find_book t a s = None \<longleftrightarrow> (t, a) \<notin> book_key ` set (books (live s))"
  by (auto simp: find_book_def find_None_iff book_key_def image_iff)

lemma find_book_Some: "find_book t a s = Some b \<Longrightarrow>
    b \<in> set (books (live s)) \<and> b_title b = t \<and> b_author b = a"
  by (auto simp: find_book_def find_Some_iff)

lemma find_book_unique:
  assumes "books_ok (books (live s))" and "b \<in> set (books (live s))"
  shows "find_book (b_title b) (b_author b) s = Some b"
proof -
  from assms(2) have "find_book (b_title b) (b_author b) s \<noteq> None"
    by (auto simp: find_book_None_iff book_key_def image_iff)
  then obtain b' where b': "find_book (b_title b) (b_author b) s = Some b'" by blast
  then have "b' \<in> set (books (live s))" "book_key b' = book_key b"
    by (auto dest: find_book_Some simp: book_key_def)
  with assms have "b' = b"
    by (auto simp: books_ok_def dest: inj_on_eq_iff[OF iffD1[OF distinct_map, THEN conjunct2]])
  with b' show ?thesis by simp
qed

lemma insert_book_Inl_iff:
  "insert_book b s = (Inl e, s') \<longleftrightarrow>
     e = IntegrityError \<and> s' = s \<and> find_book (b_title b) (b_author b) s \<noteq> None"
  by (auto simp: insert_book_def Let_def)

lemma insert_book_Inr_iff:
  "insert_book b s = (Inr b', s') \<longleftrightarrow>
     find_book (b_title b) (b_author b) s = None
     \<and> b' = b\<lparr>b_id := next_id (map b_id (books (live s)))\<rparr>
     \<and> s' = s\<lparr>live := (live s)\<lparr>books := books (live s) @ [b']\<rparr>\<rparr>"
  by (auto simp: insert_book_def Let_def)

lemma insert_book_fresh:
  "find_book (b_title b) (b_author b) s = None \<Longrightarrow>
     insert_book b s =
       (Inr (b\<lparr>b_id := next_id (map b_id (books (live s)))\<rparr>),
        s\<lparr>live := (live s)\<lparr>books := books (live s) @ [b\<lparr>b_id := next_id (map b_id (books (live s)))\<rparr>]\<rparr>\<rparr>)"
  by (simp add: insert_book_def Let_def)

lemma books_ok_Nil [simp]: "books_ok []"
  by (simp add: books_ok_def)

lemma books_ok_snoc:
  "books_ok bs \<Longrightarrow> book_key b \<notin> book_key ` set bs \<Longrightarrow> b_id b = next_id (map b_id bs) \<Longrightarrow>
     books_ok (bs @ [b])"
  using next_id_fresh[of "map b_id bs"] by (auto simp: books_ok_def)

lemma insert_book_books_ok:
  assumes "insert_book b s = (r, s')" and "books_ok (books (live s))"
  shows "books_ok (books (live s'))"
proof (cases r)
  case (Inl e)
  with assms show ?thesis by (simp add: insert_book_Inl_iff)
next
  case (Inr b')
  with assms(1) have none: "find_book (b_title b) (b_author b) s = None"
    and b': "b' = b\<lparr>b_id := next_id (map b_id (books (live s)))\<rparr>"
    and s': "books (live s') = books (live s) @ [b']"
    by (auto simp: insert_book_Inr_iff)
  from none b' have "book_key b' \<notin> book_key ` set (books (live s))"
    by (simp add: find_book_None_iff book_key_def)
  with assms(2) b' show ?thesis unfolding s' by (intro books_ok_snoc) simp_all
qed

lemma insert_book_durable:
  "insert_book b s = (r, s') \<Longrightarrow> durable s' = durable s"
  by (auto simp: insert_book_def Let_def split: if_splits)

lemma insert_book_db_ok: "insert_book b s = (r, s') \<Longrightarrow> db_ok s \<Longrightarrow> db_ok s'"
  by (auto simp: db_ok_def dest: insert_book_books_ok insert_book_durable)

lemma commit_db_ok: "db_ok s \<Longrightarrow> db_ok (commit s)"
  by (simp add: db_ok_def)

lemma rollback_db_ok: "db_ok s \<Longrightarrow> db_ok (rollback s)"
  by (simp add: db_ok_def)

lemma db_ok_new_session: "books_ok (books t) \<Longrightarrow> db_ok (new_session t)"
  by (simp add: db_ok_def)

lemmas catalog_eval = empty_tables_def new_session_def commit_def rollback_def next_id_def
  book_key_def book_count_def find_book_def insert_book_def with_app_context_def Let_def

section \<open>Properties\<close>

text \<open>
  The unique constraint: adding a Book raises \<open>IntegrityError\<close>
  exactly when a row with the same title and author exists, and then the
  session is unchanged.
\<close>

theorem insert_book_integrity_error:
  "insert_book b s = (Inl e, s') \<longleftrightarrow>
     e = IntegrityError \<and> s' = s
     \<and> list_ex (\<lambda>r. b_title r = b_title b \<and> b_author r = b_author b) (books (live s))"
proof -
  have "find_book (b_title b) (b_author b) s \<noteq> None \<longleftrightarrow>
      list_ex (\<lambda>r. b_title r = b_title b \<and> b_author r = b_author b) (books (live s))"
    unfolding find_book_def by (auto simp: find_None_iff list_ex_iff)
  then show ?thesis by (simp add: insert_book_Inl_iff)
qed

text \<open>
  A row that was added is the row a lookup by its title and
  author returns, and its id is new and positive.
\<close>

theorem insert_book_then_find:
  assumes "insert_book b s = (Inr b', s')"
  shows "find_book (b_title b) (b_author b) s' = Some b'
         \<and> b_id b' \<notin> set (map b_id (books (live s))) \<and> 0 < b_id b'"
proof -
  from assms have none: "find_book (b_title b) (b_author b) s = None"
    and b': "b' = b\<lparr>b_id := next_id (map b_id (books (live s)))\<rparr>"
    and s': "s' = s\<lparr>live := (live s)\<lparr>books := books (live s) @ [b']\<rparr>\<rparr>"
    by (auto simp: insert_book_Inr_iff)
  from none have "find (\<lambda>r. b_title r = b_title b \<and> b_author r = b_author b) (books (live s)) = None"
    by (simp add: find_book_def)
  then have "find_book (b_title b) (b_author b) s' = Some b'"
    unfolding s' find_book_def using b' by (simp add: find_append_None)
  with b' next_id_fresh[of "map b_id (books (live s))"] show ?thesis by simp
qed

theorem insert_book_then_find_witness:
  "insert_book (demo_book\<lparr>b_id := 0\<rparr>) (new_session empty_tables)
     = (Inr demo_book, new_session empty_tables\<lparr>live := empty_tables\<lparr>books := [demo_book]\<rparr>\<rparr>)
   \<and> find_book ''1984'' ''George Orwell''
       (new_session empty_tables\<lparr>live := empty_tables\<lparr>books := [demo_book]\<rparr>\<rparr>) = Some demo_book"
proof -
  have h: "insert_book (demo_book\<lparr>b_id := 0\<rparr>) (new_session empty_tables)
     = (Inr demo_book, new_session empty_tables\<lparr>live := empty_tables\<lparr>books := [demo_book]\<rparr>\<rparr>)"
    by (simp add: catalog_eval demo_book_def)
  from insert_book_then_find[OF h] h show ?thesis by (simp add: demo_book_def)
qed

end
