(* ===== verification/PyStr.thy ===== *)
theory PyStr
  imports BB_Prelude
begin

text \<open>
  The methods of Python's \<open>str\<close> that \<open>src/main.py\<close> calls, over \<open>string\<close>
  (a list of \<open>char\<close>). A \<open>char\<close> stands for the code point of the same number,
  so the model covers strings over the code points 0 to 255 (ASCII and Latin-1,
  which holds every title and author of the curated shelves); on that range
  \<open>py_isspace\<close> is \<open>str.isspace\<close> and \<open>lower_char\<close> is \<open>str.lower\<close> of one
  character, which maps every such character to one character.

  \<^item> \<open>lstrip\<close>, \<open>rstrip\<close>, \<open>strip\<close>: \<open>s.strip()\<close> with no argument.
  \<^item> \<open>lower\<close>: \<open>s.lower()\<close>.
  \<^item> \<open>py_in\<close>: the substring test \<open>a in b\<close>, proved equal to \<open>sublist\<close>.
  \<^item> \<open>startswith\<close>: \<open>s.startswith(p)\<close>.
  \<^item> \<open>digits_of\<close>, \<open>str_of_int\<close>: \<open>str(n)\<close> of an integer; \<open>nat_of_digits\<close>
    and \<open>int_of_str\<close> read such a text back.
\<close>

section \<open>Definitions\<close>

definition py_isspace :: "char \<Rightarrow> bool" where
  "py_isspace c =
     (let n = (of_char c :: nat)
      in (9 \<le> n \<and> n \<le> 13) \<or> (28 \<le> n \<and> n \<le> 32) \<or> n = 133 \<or> n = 160)"

definition lstrip :: "string \<Rightarrow> string" where
  "lstrip s = dropWhile py_isspace s"

definition rstrip :: "string \<Rightarrow> string" where
  "rstrip s = rev (dropWhile py_isspace (rev s))"

definition strip :: "string \<Rightarrow> string" where
  "strip s = rstrip (lstrip s)"

definition is_upper_code :: "nat \<Rightarrow> bool" where
  "is_upper_code n \<longleftrightarrow> (65 \<le> n \<and> n \<le> 90) \<or> (192 \<le> n \<and> n \<le> 214) \<or> (216 \<le> n \<and> n \<le> 222)"

definition lower_char :: "char \<Rightarrow> char" where
  "lower_char c =
     (let n = (of_char c :: nat) in if is_upper_code n then char_of (n + 32) else c)"

definition lower :: "string \<Rightarrow> string" where
  "lower s = map lower_char s"

fun py_in :: "string \<Rightarrow> string \<Rightarrow> bool" where
  "py_in xs [] = (xs = [])"
| "py_in xs (y # ys) = (prefix xs (y # ys) \<or> py_in xs ys)"

definition startswith :: "string \<Rightarrow> string \<Rightarrow> bool" where
  "startswith s p = prefix p s"

definition digit_char :: "nat \<Rightarrow> char" where
  "digit_char d = char_of (48 + d)"

fun digits_of :: "nat \<Rightarrow> string" where
  "digits_of n = (if n < 10 then [digit_char n] else digits_of (n div 10) @ [digit_char (n mod 10)])"

definition str_of_int :: "int \<Rightarrow> string" where
  "str_of_int i = (if i < 0 then CHR ''-'' # digits_of (nat (- i)) else digits_of (nat i))"

definition digit_val :: "char \<Rightarrow> nat" where
  "digit_val c = of_char c - 48"

definition nat_of_digits :: "string \<Rightarrow> nat" where
  "nat_of_digits s = foldl (\<lambda>acc c. 10 * acc + digit_val c) 0 s"

definition int_of_str :: "string \<Rightarrow> int" where
  "int_of_str s = (case s of [] \<Rightarrow> 0
     | c # cs \<Rightarrow> if c = CHR ''-'' then - int (nat_of_digits cs) else int (nat_of_digits s))"

declare digits_of.simps [simp del]

text \<open>Unfolding these evaluates the string functions on literals.\<close>

lemmas pystr_eval = strip_def lstrip_def rstrip_def py_isspace_def lower_def lower_char_def
  is_upper_code_def startswith_def str_of_int_def digits_of.simps digit_char_def char_of_def
  bit_Suc_0_iff Let_def

section \<open>Whitespace and strip\<close>

lemma lstrip_Nil [simp]: "lstrip [] = []"
  by (simp add: lstrip_def)

lemma rstrip_Nil [simp]: "rstrip [] = []"
  by (simp add: rstrip_def)

lemma strip_Nil [simp]: "strip [] = []"
  by (simp add: strip_def)

lemma lstrip_eq_Nil_iff: "lstrip s = [] \<longleftrightarrow> (\<forall>c \<in> set s. py_isspace c)"
  by (simp add: lstrip_def dropWhile_eq_Nil_conv)

lemma rstrip_eq_Nil_iff: "rstrip s = [] \<longleftrightarrow> (\<forall>c \<in> set s. py_isspace c)"
  by (simp add: rstrip_def dropWhile_eq_Nil_conv)

lemma lstrip_id: "s \<noteq> [] \<Longrightarrow> \<not> py_isspace (hd s) \<Longrightarrow> lstrip s = s"
  by (cases s) (simp_all add: lstrip_def)

lemma rstrip_id: "s \<noteq> [] \<Longrightarrow> \<not> py_isspace (last s) \<Longrightarrow> rstrip s = s"
  by (cases s rule: rev_cases) (simp_all add: rstrip_def)

lemma hd_lstrip: "lstrip s \<noteq> [] \<Longrightarrow> \<not> py_isspace (hd (lstrip s))"
  unfolding lstrip_def by (rule hd_dropWhile)

lemma last_rstrip: "rstrip s \<noteq> [] \<Longrightarrow> \<not> py_isspace (last (rstrip s))"
  unfolding rstrip_def using hd_dropWhile[of py_isspace "rev s"]
  by (simp add: last_rev)

lemma rstrip_prefix: "prefix (rstrip s) s"
proof -
  have "suffix (dropWhile py_isspace (rev s)) (rev s)" by (rule suffix_dropWhile)
  then have "prefix (rev (dropWhile py_isspace (rev s))) (rev (rev s))"
    by (simp only: suffix_to_prefix)
  then show ?thesis by (simp add: rstrip_def)
qed

lemma hd_rstrip: "rstrip s \<noteq> [] \<Longrightarrow> hd (rstrip s) = hd s"
  using rstrip_prefix[of s] by (metis hd_append2 prefixE)

lemma lstrip_idem [simp]: "lstrip (lstrip s) = lstrip s"
  by (simp add: lstrip_def)

lemma rstrip_idem [simp]: "rstrip (rstrip s) = rstrip s"
  by (simp add: rstrip_def)

lemma strip_eq_Nil_iff: "strip s = [] \<longleftrightarrow> (\<forall>c \<in> set s. py_isspace c)"
proof
  assume "strip s = []"
  then have all: "\<forall>c \<in> set (lstrip s). py_isspace c"
    by (simp add: strip_def rstrip_eq_Nil_iff)
  have "lstrip s = []"
  proof (rule ccontr)
    assume ne: "lstrip s \<noteq> []"
    then have "hd (lstrip s) \<in> set (lstrip s)" by simp
    with all hd_lstrip[OF ne] show False by blast
  qed
  then show "\<forall>c \<in> set s. py_isspace c" by (simp add: lstrip_eq_Nil_iff)
next
  assume "\<forall>c \<in> set s. py_isspace c"
  then have "lstrip s = []" by (simp add: lstrip_eq_Nil_iff)
  then show "strip s = []" by (simp add: strip_def)
qed

lemma hd_strip: "strip s \<noteq> [] \<Longrightarrow> \<not> py_isspace (hd (strip s))"
proof -
  assume ne: "strip s \<noteq> []"
  then have l: "lstrip s \<noteq> []" by (auto simp: strip_def)
  from ne have "hd (strip s) = hd (lstrip s)" by (simp add: strip_def hd_rstrip)
  with hd_lstrip[OF l] show ?thesis by simp
qed

lemma last_strip: "strip s \<noteq> [] \<Longrightarrow> \<not> py_isspace (last (strip s))"
  unfolding strip_def by (rule last_rstrip)

lemma strip_id: "s \<noteq> [] \<Longrightarrow> \<not> py_isspace (hd s) \<Longrightarrow> \<not> py_isspace (last s) \<Longrightarrow> strip s = s"
  by (simp add: strip_def lstrip_id rstrip_id)

lemma strip_idem [simp]: "strip (strip s) = strip s"
proof (cases "strip s = []")
  case True
  then show ?thesis by simp
next
  case False
  then show ?thesis by (intro strip_id hd_strip last_strip)
qed

lemma strip_sublist: "sublist (strip s) s"
proof -
  have "prefix (strip s) (lstrip s)" unfolding strip_def by (rule rstrip_prefix)
  moreover have "suffix (lstrip s) s" unfolding lstrip_def by (rule suffix_dropWhile)
  ultimately show ?thesis by (auto simp: sublist_altdef')
qed

lemma length_strip_le: "length (strip s) \<le> length s"
  by (rule sublist_length_le[OF strip_sublist])

section \<open>Lower case\<close>

lemma of_char_bound: "(of_char c :: nat) < 256"
proof -
  have "(of_char c :: nat) = of_char c mod 256" by (simp only: of_char_mod_256)
  also have "\<dots> < 256" by simp
  finally show ?thesis .
qed

lemma of_char_lower_char:
  "(of_char (lower_char c) :: nat) =
     (if is_upper_code (of_char c) then of_char c + 32 else of_char c)"
proof (cases "is_upper_code (of_char c)")
  case True
  then have "(of_char c :: nat) + 32 < 256" by (auto simp: is_upper_code_def)
  then have "(of_char c + 32 :: nat) mod 256 = of_char c + 32" by (rule mod_less)
  with True show ?thesis by (simp add: lower_char_def Let_def)
next
  case False
  then show ?thesis by (simp add: lower_char_def Let_def)
qed

lemma lower_char_idem [simp]: "lower_char (lower_char c) = lower_char c"
proof -
  have "\<not> is_upper_code (of_char (lower_char c))"
    unfolding of_char_lower_char by (auto simp: is_upper_code_def)
  then have "(of_char (lower_char (lower_char c)) :: nat) = of_char (lower_char c)"
    by (subst of_char_lower_char) simp
  then show ?thesis by (simp only: of_char_eq_iff)
qed

lemma lower_idem [simp]: "lower (lower s) = lower s"
  by (simp add: lower_def)

lemma length_lower [simp]: "length (lower s) = length s"
  by (simp add: lower_def)

lemma lower_eq_Nil_iff [simp]: "lower s = [] \<longleftrightarrow> s = []"
  by (simp add: lower_def)

lemma lower_append: "lower (xs @ ys) = lower xs @ lower ys"
  by (simp add: lower_def)

lemma lower_isspace [simp]: "py_isspace (lower_char c) = py_isspace c"
  unfolding py_isspace_def Let_def of_char_lower_char
  by (auto simp: is_upper_code_def)

lemma lower_lstrip: "lower (lstrip s) = lstrip (lower s)"
  by (induction s) (simp_all add: lower_def lstrip_def)

lemma map_lower_dropWhile:
  "map lower_char (dropWhile py_isspace xs) = dropWhile py_isspace (map lower_char xs)"
  by (induction xs) simp_all

lemma lower_rstrip: "lower (rstrip s) = rstrip (lower s)"
proof -
  have "map lower_char (rev (dropWhile py_isspace (rev s)))
      = rev (map lower_char (dropWhile py_isspace (rev s)))" by (simp only: rev_map)
  also have "\<dots> = rev (dropWhile py_isspace (map lower_char (rev s)))"
    by (simp only: map_lower_dropWhile)
  also have "\<dots> = rev (dropWhile py_isspace (rev (map lower_char s)))"
    by (simp only: rev_map)
  finally show ?thesis by (simp only: lower_def rstrip_def)
qed

lemma lower_strip: "lower (strip s) = strip (lower s)"
  by (simp add: strip_def lower_lstrip lower_rstrip)

section \<open>Substring test\<close>

lemma py_in_iff_sublist: "py_in xs ys \<longleftrightarrow> sublist xs ys"
  by (induction ys) (auto simp: sublist_Cons_right)

lemma py_in_Nil_left [simp]: "py_in [] ys"
  by (simp add: py_in_iff_sublist)

lemma py_in_refl [simp]: "py_in xs xs"
  by (simp add: py_in_iff_sublist)

lemma py_in_length: "py_in xs ys \<Longrightarrow> length xs \<le> length ys"
  by (simp add: py_in_iff_sublist sublist_length_le)

lemma py_in_antisym: "py_in xs ys \<Longrightarrow> py_in ys xs \<Longrightarrow> xs = ys"
  unfolding py_in_iff_sublist by (rule sublist_order.order.antisym)

lemma py_in_lower: "py_in xs ys \<Longrightarrow> py_in (lower xs) (lower ys)"
  unfolding py_in_iff_sublist lower_def by (rule map_mono_sublist)

section \<open>Integers as decimal strings\<close>

lemma digits_of_nonempty [simp]: "digits_of n \<noteq> []"
  by (subst digits_of.simps) simp

lemma digit_val_digit_char: "d < 10 \<Longrightarrow> digit_val (digit_char d) = d"
  by (simp add: digit_val_def digit_char_def)

lemma nat_of_digits_snoc: "nat_of_digits (s @ [c]) = 10 * nat_of_digits s + digit_val c"
  by (simp add: nat_of_digits_def)

lemma nat_of_digits_digits_of: "nat_of_digits (digits_of n) = n"
proof (induction n rule: digits_of.induct)
  case (1 n)
  show ?case
  proof (cases "n < 10")
    case True
    then show ?thesis
      by (subst digits_of.simps) (simp add: nat_of_digits_def digit_val_digit_char)
  next
    case False
    with "1.IH" have "nat_of_digits (digits_of (n div 10)) = n div 10" by simp
    with False show ?thesis
      by (subst digits_of.simps) (simp add: nat_of_digits_snoc digit_val_digit_char)
  qed
qed

lemma digits_of_inj: "digits_of m = digits_of n \<Longrightarrow> m = n"
  by (metis nat_of_digits_digits_of)

lemma digits_of_no_space: "c \<in> set (digits_of n) \<Longrightarrow> \<not> py_isspace c"
proof (induction n rule: digits_of.induct)
  case (1 n)
  have dc: "\<not> py_isspace (digit_char d)" if "d < 10" for d
    using that by (simp add: py_isspace_def digit_char_def)
  show ?case
  proof (cases "n < 10")
    case True
    with "1.prems" dc show ?thesis
      by (subst (asm) digits_of.simps) auto
  next
    case False
    with "1.prems" have "c \<in> set (digits_of (n div 10)) \<or> c = digit_char (n mod 10)"
      by (subst (asm) digits_of.simps) auto
    with "1.IH" False dc[of "n mod 10"] show ?thesis by auto
  qed
qed

lemma str_of_int_nonempty [simp]: "str_of_int i \<noteq> []"
  by (simp add: str_of_int_def)

lemma str_of_int_no_space: "c \<in> set (str_of_int i) \<Longrightarrow> \<not> py_isspace c"
  by (auto simp: str_of_int_def py_isspace_def dest: digits_of_no_space split: if_splits)

lemma strip_str_of_int [simp]: "strip (str_of_int i) = str_of_int i"
proof (rule strip_id)
  show "str_of_int i \<noteq> []" by simp
  then show "\<not> py_isspace (hd (str_of_int i))" "\<not> py_isspace (last (str_of_int i))"
    using str_of_int_no_space[of _ i] by (blast intro: hd_in_set last_in_set)+
qed

section \<open>Properties\<close>

lemma rstrip_decomp: "\<exists>post. s = rstrip s @ post \<and> list_all py_isspace post"
proof -
  have "rev s = takeWhile py_isspace (rev s) @ dropWhile py_isspace (rev s)" by simp
  then have "s = rev (dropWhile py_isspace (rev s)) @ rev (takeWhile py_isspace (rev s))"
    by (metis rev_append rev_rev_ident)
  moreover have "list_all py_isspace (rev (takeWhile py_isspace (rev s)))"
    by (auto simp: list_all_iff dest: set_takeWhileD)
  ultimately show ?thesis unfolding rstrip_def by blast
qed

lemma lstrip_decomp: "\<exists>pre. s = pre @ lstrip s \<and> list_all py_isspace pre"
proof -
  have "s = takeWhile py_isspace s @ dropWhile py_isspace s" by simp
  moreover have "list_all py_isspace (takeWhile py_isspace s)"
    by (auto simp: list_all_iff dest: set_takeWhileD)
  ultimately show ?thesis unfolding lstrip_def by blast
qed

text \<open>
  \<open>strip\<close> removes exactly the white space at the two ends:
  the string is a run of white space, then \<open>strip s\<close>, then a run of white
  space, and \<open>strip s\<close>, when it is not empty, neither begins nor ends with a
  white-space character.
\<close>

theorem strip_removes_outer_whitespace:
  "\<exists>pre post. s = pre @ strip s @ post \<and> list_all py_isspace pre \<and> list_all py_isspace post
     \<and> (strip s \<noteq> [] \<longrightarrow> \<not> py_isspace (hd (strip s)) \<and> \<not> py_isspace (last (strip s)))"
proof -
  from lstrip_decomp[of s] obtain pre where pre: "s = pre @ lstrip s" "list_all py_isspace pre"
    by blast
  from rstrip_decomp[of "lstrip s"] obtain post where
    post: "lstrip s = strip s @ post" "list_all py_isspace post"
    unfolding strip_def by blast
  from pre(1) post(1) have "s = pre @ strip s @ post" by simp
  with pre(2) post(2) hd_strip[of s] last_strip[of s] show ?thesis by blast
qed

theorem strip_removes_outer_whitespace_witness:
  "strip ''  The Road  '' = ''The Road''
   \<and> (\<exists>pre post. ''  The Road  '' = pre @ strip ''  The Road  '' @ post
         \<and> list_all py_isspace pre \<and> list_all py_isspace post
         \<and> (strip ''  The Road  '' \<noteq> [] \<longrightarrow> \<not> py_isspace (hd (strip ''  The Road  ''))
              \<and> \<not> py_isspace (last (strip ''  The Road  ''))))"
proof -
  have "strip ''  The Road  '' = ''The Road''" by (simp add: pystr_eval)
  with strip_removes_outer_whitespace[of "''  The Road  ''"] show ?thesis by blast
qed

text \<open>
  The executable substring test agrees with its specification: \<open>a in b\<close>
  holds exactly when \<open>b\<close> is some text, then \<open>a\<close>, then some text.
\<close>

theorem py_in_is_substring: "py_in xs ys \<longleftrightarrow> (\<exists>ps ss. ys = ps @ xs @ ss)"
  by (simp add: py_in_iff_sublist sublist_def)

text \<open>
  Printing an integer and reading the text back gives the integer:
  \<open>int(str(i)) == i\<close>.
\<close>

lemma of_char_digit_char: "d < 10 \<Longrightarrow> (of_char (digit_char d) :: nat) = 48 + d"
  by (simp add: digit_char_def)

lemma digit_char_not_minus: "d < 10 \<Longrightarrow> digit_char d \<noteq> CHR ''-''"
  using of_char_digit_char[of d] by auto

lemma digits_of_hd_not_minus: "hd (digits_of n) \<noteq> CHR ''-''"
proof (induction n rule: digits_of.induct)
  case (1 n)
  show ?case
  proof (cases "n < 10")
    case True
    then show ?thesis by (subst digits_of.simps) (simp add: digit_char_not_minus)
  next
    case False
    with "1.IH" show ?thesis by (subst digits_of.simps) (simp add: hd_append)
  qed
qed

theorem int_of_str_str_of_int: "int_of_str (str_of_int i) = i"
proof (cases "i < 0")
  case True
  then show ?thesis by (simp add: int_of_str_def str_of_int_def nat_of_digits_digits_of)
next
  case False
  obtain c cs where d: "digits_of (nat i) = c # cs" by (cases "digits_of (nat i)") simp_all
  with digits_of_hd_not_minus[of "nat i"] have "c \<noteq> CHR ''-''" by simp
  with False d show ?thesis
    using nat_of_digits_digits_of[of "nat i"] by (simp add: int_of_str_def str_of_int_def)
qed

end
