(* ===== verification/Json.thy ===== *)
theory Json
  imports PyStr
begin

text \<open>
  The values that \<open>json.loads\<close> returns, and the dynamically typed operations
  that \<open>src/main.py\<close> applies to them.

  \<^item> \<open>json\<close>: \<open>None\<close>, \<open>bool\<close>, \<open>int\<close>, \<open>float\<close>, \<open>str\<close>, \<open>list\<close> and \<open>dict\<close>.
    A dict is the list of its items in insertion order. A float is carried by
    its \<open>repr\<close>: the code only tests floats for truth and prints them, and a
    float is false exactly when it prints as \<open>0.0\<close> or \<open>-0.0\<close>.
    \<open>wf_json\<close> holds of the values a decoder can return.
  \<^item> \<open>truthy\<close>, \<open>py_or\<close>: truth value testing and \<open>a or b\<close>.
  \<^item> \<open>dict_get\<close>, \<open>str_strip\<close>, \<open>index0\<close>, \<open>py_iter\<close>: \<open>d.get(k)\<close>,
    \<open>v.strip()\<close>, \<open>v[0]\<close> and iteration, each with the exception Python raises
    when the value has the wrong type.
  \<^item> \<open>isinstance_list\<close>, \<open>isinstance_int\<close>, \<open>isinstance_str\<close>,
    \<open>isinstance_dict\<close>: the \<open>isinstance\<close> tests; a \<open>bool\<close> is an \<open>int\<close>.
  \<^item> \<open>py_str\<close>, \<open>py_repr\<close>, \<open>repr_str\<close>: \<open>str(v)\<close> and \<open>repr(v)\<close>.
\<close>

section \<open>Values\<close>

datatype json =
    JNull
  | JBool bool
  | JInt int
  | JFloat string
  | JStr string
  | JArr "json list"
  | JObj "(string \<times> json) list"

fun truthy :: "json \<Rightarrow> bool" where
  "truthy JNull = False"
| "truthy (JBool b) = b"
| "truthy (JInt i) = (i \<noteq> 0)"
| "truthy (JFloat r) = (r \<noteq> ''0.0'' \<and> r \<noteq> ''-0.0'')"
| "truthy (JStr s) = (s \<noteq> [])"
| "truthy (JArr xs) = (xs \<noteq> [])"
| "truthy (JObj kvs) = (kvs \<noteq> [])"

text \<open>
  What \<open>json.loads\<close> can return: a float prints as a non-empty text without
  white space, and the keys of a dict are distinct.
\<close>

fun wf_json :: "json \<Rightarrow> bool" where
  "wf_json (JFloat r) = (r \<noteq> [] \<and> list_all (\<lambda>c. \<not> py_isspace c) r)"
| "wf_json (JArr xs) = list_all wf_json xs"
| "wf_json (JObj kvs) = (distinct (map fst kvs) \<and> list_all (\<lambda>kv. wf_json (snd kv)) kvs)"
| "wf_json _ = True"

definition py_or :: "json \<Rightarrow> json \<Rightarrow> json" where
  "py_or a b = (if truthy a then a else b)"

fun dict_get :: "json \<Rightarrow> string \<Rightarrow> json result" where
  "dict_get (JObj kvs) k = Inr (case map_of kvs k of None \<Rightarrow> JNull | Some v \<Rightarrow> v)"
| "dict_get _ k = Inl AttributeError"

fun str_strip :: "json \<Rightarrow> string result" where
  "str_strip (JStr s) = Inr (strip s)"
| "str_strip _ = Inl AttributeError"

fun isinstance_list :: "json \<Rightarrow> bool" where
  "isinstance_list (JArr _) = True"
| "isinstance_list _ = False"

fun isinstance_int :: "json \<Rightarrow> bool" where
  "isinstance_int (JInt _) = True"
| "isinstance_int (JBool _) = True"
| "isinstance_int _ = False"

fun isinstance_str :: "json \<Rightarrow> bool" where
  "isinstance_str (JStr _) = True"
| "isinstance_str _ = False"

fun isinstance_dict :: "json \<Rightarrow> bool" where
  "isinstance_dict (JObj _) = True"
| "isinstance_dict _ = False"

fun index0 :: "json \<Rightarrow> json result" where
  "index0 (JArr []) = Inl IndexError"
| "index0 (JArr (x # xs)) = Inr x"
| "index0 (JStr []) = Inl IndexError"
| "index0 (JStr (c # cs)) = Inr (JStr [c])"
| "index0 (JObj kvs) = (case map_of kvs ''0'' of None \<Rightarrow> Inl KeyError | Some v \<Rightarrow> Inl KeyError)"
| "index0 _ = Inl TypeError"

fun py_iter :: "json \<Rightarrow> json list result" where
  "py_iter (JArr xs) = Inr xs"
| "py_iter (JObj kvs) = Inr (map (\<lambda>kv. JStr (fst kv)) kvs)"
| "py_iter (JStr s) = Inr (map (\<lambda>c. JStr [c]) s)"
| "py_iter _ = Inl TypeError"

section \<open>Printing\<close>

definition hex_digit :: "nat \<Rightarrow> char" where
  "hex_digit d = (if d < 10 then char_of (48 + d) else char_of (87 + d))"

definition hex_escape :: "nat \<Rightarrow> string" where
  "hex_escape n = [CHR 0x5C, CHR ''x'', hex_digit (n div 16), hex_digit (n mod 16)]"

definition repr_quote :: "string \<Rightarrow> char" where
  "repr_quote s = (if CHR 0x27 \<in> set s \<and> CHR 0x22 \<notin> set s then CHR 0x22 else CHR 0x27)"

definition repr_char :: "char \<Rightarrow> char \<Rightarrow> string" where
  "repr_char q c =
     (let n = (of_char c :: nat)
      in if c = q \<or> c = CHR 0x5C then [CHR 0x5C, c]
         else if n = 9 then [CHR 0x5C, CHR ''t'']
         else if n = 10 then [CHR 0x5C, CHR ''n'']
         else if n = 13 then [CHR 0x5C, CHR ''r'']
         else if n < 32 \<or> n = 127 then hex_escape n
         else if n < 127 then [c]
         else if n \<le> 160 \<or> n = 173 then hex_escape n
         else [c])"

definition repr_str :: "string \<Rightarrow> string" where
  "repr_str s = (let q = repr_quote s in q # concat (map (repr_char q) s) @ [q])"

fun join_comma :: "string list \<Rightarrow> string" where
  "join_comma [] = []"
| "join_comma [x] = x"
| "join_comma (x # y # ys) = x @ '', '' @ join_comma (y # ys)"

fun py_repr :: "json \<Rightarrow> string" where
  "py_repr JNull = ''None''"
| "py_repr (JBool b) = (if b then ''True'' else ''False'')"
| "py_repr (JInt i) = str_of_int i"
| "py_repr (JFloat r) = r"
| "py_repr (JStr s) = repr_str s"
| "py_repr (JArr xs) = ''['' @ join_comma (map py_repr xs) @ '']''"
| "py_repr (JObj kvs) =
     ''{'' @ join_comma (map (\<lambda>kv. repr_str (fst kv) @ '': '' @ py_repr (snd kv)) kvs) @ ''}''"

fun py_str :: "json \<Rightarrow> string" where
  "py_str (JStr s) = s"
| "py_str v = py_repr v"

section \<open>Lemmas\<close>

lemma py_or_truthy [simp]: "truthy a \<Longrightarrow> py_or a b = a"
  by (simp add: py_or_def)

lemma py_or_falsy [simp]: "\<not> truthy a \<Longrightarrow> py_or a b = b"
  by (simp add: py_or_def)

lemma truthy_py_or: "truthy (py_or a b) \<longleftrightarrow> truthy a \<or> truthy b"
  by (simp add: py_or_def)

lemma py_or_JStr_Nil_cases: "py_or v (JStr []) = v \<or> py_or v (JStr []) = JStr []"
  by (simp add: py_or_def)

lemma dict_get_Inr_iff:
  "dict_get d k = Inr v \<longleftrightarrow>
     (\<exists>kvs. d = JObj kvs \<and> v = (case map_of kvs k of None \<Rightarrow> JNull | Some v \<Rightarrow> v))"
  by (cases d) auto

lemma dict_get_ok_iff: "is_ok (dict_get d k) \<longleftrightarrow> isinstance_dict d"
  by (cases d) auto

lemma dict_get_Inl: "dict_get d k = Inl e \<Longrightarrow> e = AttributeError \<and> \<not> isinstance_dict d"
  by (cases d) auto

lemma str_strip_Inr_iff: "str_strip v = Inr s \<longleftrightarrow> (\<exists>s'. v = JStr s' \<and> s = strip s')"
  by (cases v) auto

lemma str_strip_Inl: "str_strip v = Inl e \<Longrightarrow> e = AttributeError \<and> \<not> isinstance_str v"
  by (cases v) auto

lemma str_strip_or_ok_iff:
  "is_ok (str_strip (py_or v (JStr []))) \<longleftrightarrow> \<not> truthy v \<or> isinstance_str v"
  by (cases v) (auto simp: py_or_def)

lemma py_iter_Inl: "py_iter v = Inl e \<Longrightarrow> e = TypeError"
  by (cases v) auto

lemma py_iter_nonempty: "truthy v \<Longrightarrow> py_iter v = Inr xs \<Longrightarrow> xs \<noteq> []"
  by (cases v) auto

lemma py_iter_not_list:
  "py_iter v = Inr xs \<Longrightarrow> \<not> isinstance_list v \<Longrightarrow> \<forall>x \<in> set xs. isinstance_str x"
  by (cases v) auto

lemma repr_str_nonempty [simp]: "repr_str s \<noteq> []"
  by (simp add: repr_str_def Let_def)

lemma py_str_nonempty: "wf_json v \<Longrightarrow> truthy v \<Longrightarrow> py_str v \<noteq> []"
  by (cases v) auto

lemma py_str_or_eq_Nil_iff: "wf_json v \<Longrightarrow> py_str (py_or v (JStr [])) = [] \<longleftrightarrow> \<not> truthy v"
  by (cases "truthy v") (simp_all add: py_str_nonempty)

lemma wf_json_dict_get: "wf_json d \<Longrightarrow> dict_get d k = Inr v \<Longrightarrow> wf_json v"
  by (cases d) (auto simp: list_all_iff split: option.splits dest!: map_of_SomeD)

lemma wf_json_py_iter: "wf_json v \<Longrightarrow> py_iter v = Inr xs \<Longrightarrow> list_all wf_json xs"
  by (cases v) (auto simp: list_all_iff)

lemma wf_json_index0: "wf_json v \<Longrightarrow> index0 v = Inr x \<Longrightarrow> wf_json x"
  by (cases v rule: index0.cases) (auto split: option.splits)

lemma wf_json_py_or: "wf_json a \<Longrightarrow> wf_json b \<Longrightarrow> wf_json (py_or a b)"
  by (simp add: py_or_def)

lemmas json_eval = pystr_eval py_or_def hex_digit_def hex_escape_def repr_quote_def
  repr_char_def repr_str_def

end
