(* ===== verification/CoverUrl.thy ===== *)
theory CoverUrl
  imports PyStr
begin

text \<open>
  Cover image URLs (\<open>src/main.py\<close>, \<open>PLACEHOLDER_COVER\<close> and \<open>_ol_cover_url\<close>).

  \<open>ol_cover_url cover_i isbn olid\<close> strips its three arguments and builds the
  URL from the first one that is left non-empty: cover id, then ISBN, then
  edition id; with none it is the empty string. Every caller passes three
  \<open>str\<close> values, on which the source's \<open>x or ""\<close> is the identity, so the
  arguments are strings here.

  The lemmas give the priority order, the case of no identifier, that the
  three URL shapes are pairwise different, and that a URL carries no white
  space at its ends (so the callers' \<open>strip\<close> leaves it alone).
\<close>

section \<open>Definitions\<close>

definition PLACEHOLDER_COVER :: string where
  "PLACEHOLDER_COVER = ''https://placehold.co/400x600/EEE/AAA?text=No+Cover''"

definition cover_base :: string where
  "cover_base = ''https://covers.openlibrary.org/b/''"

definition cover_by :: "string \<Rightarrow> string \<Rightarrow> string" where
  "cover_by kind ident = cover_base @ kind @ ''/'' @ ident @ ''-L.jpg''"

definition ol_cover_url :: "string \<Rightarrow> string \<Rightarrow> string \<Rightarrow> string" where
  "ol_cover_url cover_i isbn olid =
     (let cover_i = strip cover_i; isbn = strip isbn; olid = strip olid
      in if cover_i \<noteq> [] then cover_by ''id'' cover_i
         else if isbn \<noteq> [] then cover_by ''isbn'' isbn
         else if olid \<noteq> [] then cover_by ''olid'' olid
         else [])"

text \<open>Which identifier a call uses: the specification of the priority order.\<close>

datatype cover_source = ById | ByIsbn | ByOlid | NoCover

definition cover_source_of :: "string \<Rightarrow> string \<Rightarrow> string \<Rightarrow> cover_source" where
  "cover_source_of cover_i isbn olid =
     (if strip cover_i \<noteq> [] then ById
      else if strip isbn \<noteq> [] then ByIsbn
      else if strip olid \<noteq> [] then ByOlid
      else NoCover)"

fun url_of_source :: "cover_source \<Rightarrow> string \<Rightarrow> string \<Rightarrow> string \<Rightarrow> string" where
  "url_of_source ById cover_i isbn olid = cover_by ''id'' (strip cover_i)"
| "url_of_source ByIsbn cover_i isbn olid = cover_by ''isbn'' (strip isbn)"
| "url_of_source ByOlid cover_i isbn olid = cover_by ''olid'' (strip olid)"
| "url_of_source NoCover cover_i isbn olid = []"

section \<open>Lemmas\<close>

lemmas cover_eval = ol_cover_url_def cover_by_def cover_base_def PLACEHOLDER_COVER_def

lemma cover_by_nonempty [simp]: "cover_by kind ident \<noteq> []"
  by (simp add: cover_by_def cover_base_def)

lemma cover_by_inject [simp]: "cover_by kind a = cover_by kind b \<longleftrightarrow> a = b"
  by (simp add: cover_by_def)

lemma cover_by_kinds_differ:
  "cover_by ''id'' a \<noteq> cover_by ''isbn'' b"
  "cover_by ''id'' a \<noteq> cover_by ''olid'' b"
  "cover_by ''isbn'' a \<noteq> cover_by ''olid'' b"
  by (simp_all add: cover_by_def cover_base_def)

lemma ol_cover_url_refines: 
  "ol_cover_url cover_i isbn olid =
     url_of_source (cover_source_of cover_i isbn olid) cover_i isbn olid"
  by (simp add: ol_cover_url_def cover_source_of_def Let_def)

lemma ol_cover_url_id: "strip cover_i \<noteq> [] \<Longrightarrow>
    ol_cover_url cover_i isbn olid = cover_by ''id'' (strip cover_i)"
  by (simp add: ol_cover_url_def Let_def)

lemma ol_cover_url_isbn: "strip cover_i = [] \<Longrightarrow> strip isbn \<noteq> [] \<Longrightarrow>
    ol_cover_url cover_i isbn olid = cover_by ''isbn'' (strip isbn)"
  by (simp add: ol_cover_url_def Let_def)

lemma ol_cover_url_olid: "strip cover_i = [] \<Longrightarrow> strip isbn = [] \<Longrightarrow> strip olid \<noteq> [] \<Longrightarrow>
    ol_cover_url cover_i isbn olid = cover_by ''olid'' (strip olid)"
  by (simp add: ol_cover_url_def Let_def)

lemma ol_cover_url_eq_Nil_iff:
  "ol_cover_url cover_i isbn olid = [] \<longleftrightarrow> strip cover_i = [] \<and> strip isbn = [] \<and> strip olid = []"
  by (simp add: ol_cover_url_def Let_def)

lemma ol_cover_url_strip [simp]:
  "ol_cover_url (strip cover_i) (strip isbn) (strip olid) = ol_cover_url cover_i isbn olid"
  by (simp add: ol_cover_url_def)

lemma strip_cover_by: "strip (cover_by kind ident) = cover_by kind ident"
proof (rule strip_id)
  show "cover_by kind ident \<noteq> []" by simp
  show "\<not> py_isspace (hd (cover_by kind ident))"
    by (simp add: cover_by_def cover_base_def py_isspace_def)
  show "\<not> py_isspace (last (cover_by kind ident))"
    by (simp add: cover_by_def cover_base_def py_isspace_def)
qed

lemma strip_ol_cover_url [simp]:
  "strip (ol_cover_url cover_i isbn olid) = ol_cover_url cover_i isbn olid"
  by (simp add: ol_cover_url_def Let_def strip_cover_by)

lemma strip_PLACEHOLDER_COVER [simp]: "strip PLACEHOLDER_COVER = PLACEHOLDER_COVER"
  by (rule strip_id) (simp_all add: PLACEHOLDER_COVER_def py_isspace_def)

lemma PLACEHOLDER_COVER_nonempty [simp]: "PLACEHOLDER_COVER \<noteq> []"
  by (simp add: PLACEHOLDER_COVER_def)

lemma PLACEHOLDER_not_ol_url: "ol_cover_url cover_i isbn olid \<noteq> PLACEHOLDER_COVER"
  by (simp add: ol_cover_url_def Let_def cover_by_def cover_base_def PLACEHOLDER_COVER_def)

section \<open>Properties\<close>

text \<open>
  C20 (functional). The cover id has priority: when it is not blank, the URL is
  the cover-id URL of the stripped id, whatever the ISBN and the edition id are,
  and it is neither an ISBN URL nor an edition-id URL.
\<close>

theorem cover_url_prefers_cover_id:
  assumes "strip cover_i \<noteq> []"
  shows "ol_cover_url cover_i isbn olid =
           ''https://covers.openlibrary.org/b/id/'' @ strip cover_i @ ''-L.jpg''
         \<and> ol_cover_url cover_i isbn olid \<noteq> cover_by ''isbn'' x
         \<and> ol_cover_url cover_i isbn olid \<noteq> cover_by ''olid'' y"
  using assms cover_by_kinds_differ
  by (simp add: ol_cover_url_id) (simp add: cover_by_def cover_base_def)

theorem cover_url_prefers_cover_id_witness:
  "strip ''123'' \<noteq> []
   \<and> ol_cover_url ''123'' ''9780141182636'' ''OL1M'' = ''https://covers.openlibrary.org/b/id/123-L.jpg''"
proof -
  have h: "strip ''123'' \<noteq> []" by (simp add: pystr_eval)
  from cover_url_prefers_cover_id[OF h, of "''9780141182636''" "''OL1M''"] h
  show ?thesis by (simp add: pystr_eval)
qed

text \<open>
  With no usable identifier there is no URL, and only then:
  the result is empty exactly when all three identifiers are blank.
\<close>

theorem cover_url_empty_iff_no_identifier:
  "ol_cover_url cover_i isbn olid = [] \<longleftrightarrow>
     list_all py_isspace cover_i \<and> list_all py_isspace isbn \<and> list_all py_isspace olid"
  by (simp add: ol_cover_url_eq_Nil_iff strip_eq_Nil_iff list_all_iff)

end
