(* ===== verification/Matcher.thy ===== *)
theory Matcher
  imports Json CoverUrl
begin

text \<open>
  The Open Library matcher (\<open>src/main.py\<close>, \<open>_ol_best_match\<close> and its nested
  \<open>score\<close>).

  \<^bold>\<open>The network.\<close> A \<open>world\<close> holds the list of URLs requested so far
  (\<open>calls\<close>) and an oracle \<open>respond n url\<close>: what the \<open>n\<close>-th request of the
  process returns when it asks for \<open>url\<close>, \<open>None\<close> when anything inside the
  source's \<open>try\<close> block raises (time-out, HTTP error, undecodable body) and
  \<open>Some v\<close> when \<open>json.loads\<close> returns \<open>v\<close>. \<open>urlopen_json\<close> is one request.
  \<open>quote\<close> is \<open>urllib.parse.quote\<close> with its default safe set, on UTF-8.

  \<^bold>\<open>The matcher.\<close> \<open>score t_low a_low doc\<close> is the nested function \<open>score\<close>
  with the two variables it closes over; \<open>best_doc\<close> is
  \<open>max(docs, key=score)\<close>; \<open>extract_meta\<close> reads the identifiers of the
  winner; \<open>match_response\<close> is everything after the request and
  \<open>ol_best_match\<close> the whole function, as a computation over the world. Its
  result is \<open>None\<close> for the source's \<open>{}\<close> and \<open>Some\<close> of a record for the
  dict of five strings. Exceptions that the source does not catch
  (\<open>AttributeError\<close> and \<open>TypeError\<close> on a body of the wrong shape) are
  \<open>Inl\<close> results.

  \<open>doc_ok\<close> and \<open>response_ok\<close> describe the bodies on which nothing raises.
\<close>

section \<open>The network\<close>

record world =
  calls :: "string list"
  respond :: "nat \<Rightarrow> string \<Rightarrow> json option"

definition urlopen_json :: "string \<Rightarrow> world \<Rightarrow> json option \<times> world" where
  "urlopen_json url w = (respond w (length (calls w)) url, w\<lparr>calls := calls w @ [url]\<rparr>)"

definition is_always_safe :: "char \<Rightarrow> bool" where
  "is_always_safe c =
     (let n = (of_char c :: nat)
      in (65 \<le> n \<and> n \<le> 90) \<or> (97 \<le> n \<and> n \<le> 122) \<or> (48 \<le> n \<and> n \<le> 57)
         \<or> c = CHR ''_'' \<or> c = CHR ''.'' \<or> c = CHR ''-'' \<or> c = CHR ''~'')"

definition HEX_digit :: "nat \<Rightarrow> char" where
  "HEX_digit d = (if d < 10 then char_of (48 + d) else char_of (55 + d))"

definition pct_byte :: "nat \<Rightarrow> string" where
  "pct_byte b = [CHR ''%'', HEX_digit (b div 16), HEX_digit (b mod 16)]"

definition utf8_bytes :: "char \<Rightarrow> nat list" where
  "utf8_bytes c =
     (let n = (of_char c :: nat) in if n < 128 then [n] else [192 + n div 64, 128 + n mod 64])"

definition quote_char :: "char \<Rightarrow> string" where
  "quote_char c =
     (if is_always_safe c \<or> c = CHR ''/'' then [c] else concat (map pct_byte (utf8_bytes c)))"

definition quote :: "string \<Rightarrow> string" where
  "quote s = concat (map quote_char s)"

definition search_url :: "string \<Rightarrow> string \<Rightarrow> string" where
  "search_url q params = ''https://openlibrary.org/search.json?q='' @ quote q @ params"

section \<open>Scoring\<close>

definition doc_title_low :: "json \<Rightarrow> string result" where
  "doc_title_low doc =
     rbind (dict_get doc ''title'') (\<lambda>t.
     rbind (str_strip (py_or t (JStr []))) (\<lambda>s. Inr (lower s)))"

definition first_author_low :: "json \<Rightarrow> string result" where
  "first_author_low doc =
     rbind (dict_get doc ''author_name'') (\<lambda>authors.
       if isinstance_list authors \<and> truthy authors
       then rbind (index0 authors) (\<lambda>a0.
            rbind (str_strip (py_or a0 (JStr []))) (\<lambda>s. Inr (lower s)))
       else Inr [])"

definition title_points :: "string \<Rightarrow> string \<Rightarrow> int" where
  "title_points t_low d_title =
     (if d_title = t_low then 50 else if t_low \<noteq> [] \<and> py_in t_low d_title then 25 else 0)"

definition author_points :: "string \<Rightarrow> string \<Rightarrow> int" where
  "author_points a_low first_author =
     (if a_low \<noteq> [] \<and> first_author \<noteq> []
      then (if first_author = a_low then 50
            else if py_in a_low first_author \<or> py_in first_author a_low then 25 else 0)
      else 0)"

definition score :: "string \<Rightarrow> string \<Rightarrow> json \<Rightarrow> int result" where
  "score t_low a_low doc =
     rbind (doc_title_low doc) (\<lambda>d_title.
     rbind (first_author_low doc) (\<lambda>first_author.
     rbind (dict_get doc ''cover_i'') (\<lambda>cov.
     rbind (dict_get doc ''isbn'') (\<lambda>isbns.
       Inr (title_points t_low d_title + author_points a_low first_author
            + (if truthy cov then 10 else 0)
            + (if isinstance_list isbns \<and> truthy isbns then 3 else 0))))))"

definition best_doc :: "(json \<Rightarrow> int result) \<Rightarrow> json \<Rightarrow> json result" where
  "best_doc key docs = rbind (py_iter docs) (max_by_key key)"

section \<open>Reading the winner\<close>

record ol_meta =
  m_cover :: string
  m_cover_i :: string
  m_isbn :: string
  m_olid :: string
  m_year :: string

definition first_str :: "json \<Rightarrow> string result" where
  "first_str v =
     (if isinstance_list v \<and> truthy v
      then rbind (index0 v) (\<lambda>x. Inr (strip (py_str (py_or x (JStr [])))))
      else Inr [])"

definition extract_meta :: "json \<Rightarrow> ol_meta result" where
  "extract_meta best =
     rbind (dict_get best ''cover_i'') (\<lambda>c.
     rbind (dict_get best ''edition_key'') (\<lambda>edition_keys.
     rbind (first_str edition_keys) (\<lambda>olid.
     rbind (dict_get best ''isbn'') (\<lambda>isbns.
     rbind (first_str isbns) (\<lambda>isbn.
     rbind (dict_get best ''first_publish_year'') (\<lambda>y.
       let cover_i = strip (py_str (py_or c (JStr [])));
           year = (if isinstance_int y then py_str y else [])
       in Inr \<lparr>m_cover = ol_cover_url cover_i isbn olid, m_cover_i = cover_i,
               m_isbn = isbn, m_olid = olid, m_year = year\<rparr>))))))"

definition match_response :: "string \<Rightarrow> string \<Rightarrow> json \<Rightarrow> ol_meta option result" where
  "match_response t a data =
     rbind (dict_get data ''docs'') (\<lambda>d.
       let docs = py_or d (JArr [])
       in if \<not> truthy docs then Inr None
          else rbind (best_doc (score (lower t) (lower a)) docs) (\<lambda>best.
               rbind (extract_meta best) (\<lambda>m. Inr (Some m))))"

definition ol_best_match :: "string \<Rightarrow> string \<Rightarrow> (ol_meta option, world) prog" where
  "ol_best_match title author w =
     (let t = strip title; a = strip author
      in if t = [] then (Inr None, w)
         else let q = (if a = [] then t else t @ '' '' @ a);
                  url = search_url q ''&limit=20&page=1'';
                  (resp, w') = urlopen_json url w
              in case resp of
                   None \<Rightarrow> (Inr None, w')
                 | Some data \<Rightarrow> (match_response t a data, w'))"

text \<open>The URL that \<open>ol_best_match\<close> requests for a title and an author.\<close>

definition match_url :: "string \<Rightarrow> string \<Rightarrow> string" where
  "match_url title author =
     search_url (if strip author = [] then strip title else strip title @ '' '' @ strip author)
       ''&limit=20&page=1''"

text \<open>What every returned record satisfies.\<close>

definition meta_ok :: "ol_meta \<Rightarrow> bool" where
  "meta_ok m \<longleftrightarrow>
     m_cover m = ol_cover_url (m_cover_i m) (m_isbn m) (m_olid m)
     \<and> strip (m_cover_i m) = m_cover_i m \<and> strip (m_isbn m) = m_isbn m
     \<and> strip (m_olid m) = m_olid m \<and> strip (m_year m) = m_year m"

section \<open>Bodies on which nothing raises\<close>

definition str_or_falsy :: "json \<Rightarrow> bool" where
  "str_or_falsy v \<longleftrightarrow> \<not> truthy v \<or> isinstance_str v"

fun doc_ok :: "json \<Rightarrow> bool" where
  "doc_ok (JObj kvs) =
     (str_or_falsy (case map_of kvs ''title'' of None \<Rightarrow> JNull | Some v \<Rightarrow> v)
      \<and> (case map_of kvs ''author_name'' of
            Some (JArr (a0 # _)) \<Rightarrow> str_or_falsy a0
          | _ \<Rightarrow> True))"
| "doc_ok _ = False"

fun response_ok :: "json \<Rightarrow> bool" where
  "response_ok (JObj kvs) =
     (case map_of kvs ''docs'' of
        None \<Rightarrow> True
      | Some (JArr ds) \<Rightarrow> list_all doc_ok ds
      | Some v \<Rightarrow> \<not> truthy v)"
| "response_ok _ = False"

section \<open>Example inputs\<close>

text \<open>
  Records, bodies and worlds on which the properties below are instantiated.
  \<open>demo_world\<close> answers every request with one good record, \<open>down_world\<close>
  fails every request, \<open>array_world\<close> answers with a JSON array.
\<close>

definition demo_doc :: json where
  "demo_doc = JObj [(''title'', JStr ''1984''), (''author_name'', JArr [JStr ''George Orwell'']),
     (''cover_i'', JInt 123), (''isbn'', JArr [JStr ''9780141182636'']),
     (''edition_key'', JArr [JStr ''OL1M'']), (''first_publish_year'', JInt 1949)]"

definition other_doc :: json where
  "other_doc = JObj [(''title'', JStr ''1984''), (''author_name'', JArr [JStr ''George Orwell Jr.'']),
     (''cover_i'', JInt 7), (''isbn'', JArr [JStr ''111''])]"

definition twin_doc :: json where
  "twin_doc = JObj [(''title'', JStr ''1984''), (''author_name'', JArr [JStr ''George Orwell'']),
     (''cover_i'', JInt 999), (''isbn'', JArr [JStr ''222''])]"

definition demo_response :: json where
  "demo_response = JObj [(''docs'', JArr [other_doc, demo_doc, twin_doc])]"

definition demo_world :: world where
  "demo_world = \<lparr>calls = [], respond = (\<lambda>n url. Some (JObj [(''docs'', JArr [demo_doc])]))\<rparr>"

definition down_world :: world where
  "down_world = \<lparr>calls = [], respond = (\<lambda>n url. None)\<rparr>"

definition array_world :: world where
  "array_world = \<lparr>calls = [], respond = (\<lambda>n url. Some (JArr []))\<rparr>"

definition demo_url :: string where
  "demo_url = ''https://openlibrary.org/search.json?q=1984%20George%20Orwell&limit=20&page=1''"

section \<open>Lemmas\<close>

lemmas matcher_eval = json_eval cover_eval urlopen_json_def quote_def quote_char_def
  utf8_bytes_def pct_byte_def HEX_digit_def is_always_safe_def search_url_def
  doc_title_low_def first_author_low_def title_points_def author_points_def score_def
  keyed_def max_by_key_def best_doc_def py_max_def first_str_def extract_meta_def match_response_def
  ol_best_match_def match_url_def

subsection \<open>The network\<close>

lemma urlopen_json_calls [simp]: "calls (snd (urlopen_json url w)) = calls w @ [url]"
  by (simp add: urlopen_json_def)

lemma urlopen_json_respond [simp]: "respond (snd (urlopen_json url w)) = respond w"
  by (simp add: urlopen_json_def)

lemma urlopen_json_fst [simp]: "fst (urlopen_json url w) = respond w (length (calls w)) url"
  by (simp add: urlopen_json_def)

lemma HEX_digit_safe: "d < 16 \<Longrightarrow> is_always_safe (HEX_digit d)"
  by (simp add: HEX_digit_def is_always_safe_def Let_def)

lemma utf8_bytes_bound: "b \<in> set (utf8_bytes c) \<Longrightarrow> b < 256"
proof -
  have "(of_char c :: nat) div 64 < 4"
    by (rule less_mult_imp_div_less) (use of_char_bound[of c] in simp)
  moreover assume "b \<in> set (utf8_bytes c)"
  ultimately show ?thesis
    by (auto simp: utf8_bytes_def Let_def split: if_splits)
qed

lemma pct_byte_chars: "b < 256 \<Longrightarrow> x \<in> set (pct_byte b) \<Longrightarrow> is_always_safe x \<or> x = CHR ''%''"
  by (auto simp: pct_byte_def intro!: HEX_digit_safe)

lemma quote_char_chars:
  "x \<in> set (quote_char c) \<Longrightarrow> is_always_safe x \<or> x = CHR ''/'' \<or> x = CHR ''%''"
  by (auto simp: quote_char_def split: if_splits dest: utf8_bytes_bound pct_byte_chars)

lemma quote_chars:
  "x \<in> set (quote s) \<Longrightarrow> is_always_safe x \<or> x = CHR ''/'' \<or> x = CHR ''%''"
  by (auto simp: quote_def dest: quote_char_chars)

lemma quote_append: "quote (xs @ ys) = quote xs @ quote ys"
  by (simp add: quote_def)

lemma quote_Nil [simp]: "quote [] = []"
  by (simp add: quote_def)

subsection \<open>Scoring\<close>

lemma title_points_cases: "title_points t d \<in> {0, 25, 50}"
  by (simp add: title_points_def)

lemma author_points_cases: "author_points a f \<in> {0, 25, 50}"
  by (simp add: author_points_def)

lemma title_points_exact [simp]: "title_points t t = 50"
  by (simp add: title_points_def)

lemma author_points_exact: "a \<noteq> [] \<Longrightarrow> author_points a a = 50"
  by (simp add: author_points_def)

lemma author_points_not_exact: "f \<noteq> a \<Longrightarrow> author_points a f \<le> 25"
  by (simp add: author_points_def)

lemma author_points_no_author [simp]: "author_points [] f = 0"
  by (simp add: author_points_def)

lemma doc_title_low_Inl: "doc_title_low d = Inl e \<Longrightarrow> e = AttributeError"
  by (auto simp: doc_title_low_def rbind_eq_Inl_iff dest: dict_get_Inl str_strip_Inl)

lemma first_author_low_Inl: "first_author_low d = Inl e \<Longrightarrow> e = AttributeError"
  by (auto simp: first_author_low_def rbind_eq_Inl_iff
      dest: dict_get_Inl str_strip_Inl split: if_splits elim!: index0.elims)

lemma score_Inr_iff:
  "score t a d = Inr s \<longleftrightarrow>
     (\<exists>dt fa cov isbns. doc_title_low d = Inr dt \<and> first_author_low d = Inr fa
        \<and> dict_get d ''cover_i'' = Inr cov \<and> dict_get d ''isbn'' = Inr isbns
        \<and> s = title_points t dt + author_points a fa + (if truthy cov then 10 else 0)
              + (if isinstance_list isbns \<and> truthy isbns then 3 else 0))"
  by (auto simp: score_def rbind_eq_Inr_iff)

lemma score_Inl: "score t a d = Inl e \<Longrightarrow> e = AttributeError"
  by (auto simp: score_def rbind_eq_Inl_iff
      dest: doc_title_low_Inl first_author_low_Inl dict_get_Inl)

lemma score_is_dict: "score t a d = Inr s \<Longrightarrow> isinstance_dict d"
  by (auto simp: score_Inr_iff dict_get_Inr_iff)

lemma doc_title_low_ok_iff:
  "is_ok (doc_title_low (JObj kvs)) \<longleftrightarrow>
     str_or_falsy (case map_of kvs ''title'' of None \<Rightarrow> JNull | Some v \<Rightarrow> v)"
  by (auto simp: doc_title_low_def is_ok_iff rbind_eq_Inr_iff str_or_falsy_def
      str_strip_Inr_iff py_or_def elim!: isinstance_str.elims)

lemma first_author_low_ok_iff:
  "is_ok (first_author_low (JObj kvs)) \<longleftrightarrow>
     (case map_of kvs ''author_name'' of Some (JArr (a0 # _)) \<Rightarrow> str_or_falsy a0 | _ \<Rightarrow> True)"
  by (auto simp: first_author_low_def is_ok_iff rbind_eq_Inr_iff str_or_falsy_def
      str_strip_Inr_iff py_or_def split: option.splits json.splits list.splits
      elim!: isinstance_str.elims)

lemma score_ok_iff: "is_ok (score t a d) \<longleftrightarrow> doc_ok d"
proof (cases d)
  case (JObj kvs)
  have "is_ok (score t a (JObj kvs)) \<longleftrightarrow>
      is_ok (doc_title_low (JObj kvs)) \<and> is_ok (first_author_low (JObj kvs))"
    by (auto simp: is_ok_iff score_Inr_iff)
  with JObj show ?thesis
    by (simp add: doc_title_low_ok_iff first_author_low_ok_iff)
qed (auto simp: is_ok_iff score_Inr_iff doc_title_low_def)

subsection \<open>Choosing and reading the winner\<close>

lemma best_doc_first_max:
  assumes "best_doc key docs = Inr b"
  shows "\<exists>items ps ss kb. py_iter docs = Inr items \<and> items = ps @ b # ss \<and> key b = Inr kb
           \<and> (\<forall>p \<in> set ps. \<exists>k. key p = Inr k \<and> k < kb)
           \<and> (\<forall>q \<in> set ss. \<exists>k. key q = Inr k \<and> k \<le> kb)"
proof -
  from assms obtain items where "py_iter docs = Inr items" "max_by_key key items = Inr b"
    by (auto simp: best_doc_def rbind_eq_Inr_iff)
  with max_by_key_first[of key items b] show ?thesis by blast
qed

lemma best_doc_Inl:
  assumes "best_doc key docs = Inl e" and "truthy docs"
  shows "(e = TypeError \<and> py_iter docs = Inl TypeError)
       \<or> (\<exists>items. py_iter docs = Inr items \<and> (\<exists>d \<in> set items. key d = Inl e))"
proof (cases "py_iter docs")
  case (Inl e')
  with assms show ?thesis by (auto simp: best_doc_def dest: py_iter_Inl)
next
  case (Inr items)
  with assms have "items \<noteq> []" "max_by_key key items = Inl e"
    by (auto simp: best_doc_def dest: py_iter_nonempty)
  with Inr max_by_key_Inl[of key items e] show ?thesis by simp
qed

lemma index0_nonempty_list: "isinstance_list v \<Longrightarrow> truthy v \<Longrightarrow> \<exists>x. index0 v = Inr x"
  by (cases v rule: index0.cases) auto

lemma first_str_ok: "\<exists>s. first_str v = Inr s \<and> strip s = s"
proof (cases "isinstance_list v \<and> truthy v")
  case True
  then obtain x where "index0 v = Inr x" using index0_nonempty_list by blast
  with True show ?thesis by (simp add: first_str_def)
next
  case False
  then show ?thesis by (auto simp: first_str_def)
qed

lemma strip_py_str_int: "isinstance_int y \<Longrightarrow> strip (py_str y) = py_str y"
proof (cases y)
  case (JBool b)
  then show ?thesis by (cases b) (simp_all add: pystr_eval)
qed auto

lemma extract_meta_dict:
  "\<exists>m. extract_meta (JObj kvs) = Inr m \<and> meta_ok m"
proof -
  obtain olid where olid: "first_str (case map_of kvs ''edition_key'' of None \<Rightarrow> JNull | Some v \<Rightarrow> v) = Inr olid"
    "strip olid = olid" using first_str_ok by blast
  obtain isbn where isbn: "first_str (case map_of kvs ''isbn'' of None \<Rightarrow> JNull | Some v \<Rightarrow> v) = Inr isbn"
    "strip isbn = isbn" using first_str_ok by blast
  show ?thesis
    using olid isbn by (simp add: extract_meta_def meta_ok_def Let_def strip_py_str_int)
qed

lemma extract_meta_Inr_meta_ok: "extract_meta d = Inr m \<Longrightarrow> meta_ok m"
proof (cases d)
  case (JObj kvs)
  assume "extract_meta d = Inr m"
  with JObj extract_meta_dict[of kvs] show ?thesis by auto
qed (auto simp: extract_meta_def)

lemma extract_meta_ok_iff: "is_ok (extract_meta d) \<longleftrightarrow> isinstance_dict d"
proof (cases d)
  case (JObj kvs)
  with extract_meta_dict[of kvs] show ?thesis by (auto simp: is_ok_iff)
qed (auto simp: extract_meta_def)

subsection \<open>The whole response\<close>

lemma match_response_not_dict:
  "\<not> isinstance_dict data \<Longrightarrow> match_response t a data = Inl AttributeError"
  by (cases data) (auto simp: match_response_def)

lemma match_response_no_docs:
  "dict_get data ''docs'' = Inr d \<Longrightarrow> \<not> truthy d \<Longrightarrow> match_response t a data = Inr None"
  by (simp add: match_response_def)

lemma match_response_docs:
  "dict_get data ''docs'' = Inr d \<Longrightarrow> truthy d \<Longrightarrow>
     match_response t a data =
       rbind (best_doc (score (lower t) (lower a)) d) (\<lambda>best.
       rbind (extract_meta best) (\<lambda>m. Inr (Some m)))"
  by (simp add: match_response_def)

lemma match_response_None_iff:
  "match_response t a data = Inr None \<longleftrightarrow> (\<exists>d. dict_get data ''docs'' = Inr d \<and> \<not> truthy d)"
  by (auto simp: match_response_def rbind_eq_Inr_iff Let_def truthy_py_or split: if_splits)

lemma match_response_Some:
  assumes "match_response t a data = Inr (Some m)"
  shows "\<exists>d best. dict_get data ''docs'' = Inr d \<and> truthy d
           \<and> best_doc (score (lower t) (lower a)) d = Inr best \<and> extract_meta best = Inr m"
  using assms
  by (auto simp: match_response_def rbind_eq_Inr_iff Let_def truthy_py_or split: if_splits)

lemma match_response_meta_ok: "match_response t a data = Inr (Some m) \<Longrightarrow> meta_ok m"
  by (auto dest!: match_response_Some extract_meta_Inr_meta_ok)

lemma match_response_Inl:
  assumes "match_response t a data = Inl e"
  shows "e = AttributeError \<or> e = TypeError"
proof (cases "dict_get data ''docs''")
  case (Inl e')
  with assms show ?thesis by (auto simp: match_response_def dest: dict_get_Inl)
next
  case (Inr d)
  show ?thesis
  proof (cases "truthy d")
    case False
    with Inr assms show ?thesis by (simp add: match_response_no_docs)
  next
    case True
    let ?key = "score (lower t) (lower a)"
    from assms Inr True consider "best_doc ?key d = Inl e"
      | best where "best_doc ?key d = Inr best" "extract_meta best = Inl e"
      by (auto simp: match_response_docs rbind_eq_Inl_iff)
    then show ?thesis
    proof cases
      case 1
      with best_doc_Inl[OF 1 True] show ?thesis by (auto dest: score_Inl)
    next
      case 2
      from best_doc_first_max[OF 2(1)] have "is_ok (?key best)" by auto
      then have "isinstance_dict best" by (auto simp: is_ok_iff dest: score_is_dict)
      with 2(2) show ?thesis using extract_meta_ok_iff[of best] by simp
    qed
  qed
qed

lemma match_response_ok:
  assumes "response_ok data"
  shows "is_ok (match_response t a data)"
proof -
  from assms obtain kvs where data: "data = JObj kvs" by (cases data) auto
  define d where "d = (case map_of kvs ''docs'' of None \<Rightarrow> JNull | Some v \<Rightarrow> v)"
  have get: "dict_get data ''docs'' = Inr d" by (simp add: data d_def)
  show ?thesis
  proof (cases "truthy d")
    case False
    with get show ?thesis by (simp add: match_response_no_docs)
  next
    case True
    with assms data obtain ds where ds: "d = JArr ds" "list_all doc_ok ds" "ds \<noteq> []"
      by (auto simp: d_def split: option.splits json.splits)
    let ?key = "score (lower t) (lower a)"
    from ds have "is_ok (max_by_key ?key ds)"
      by (intro max_by_key_ok) (auto simp: score_ok_iff list_all_iff)
    then obtain best where best: "best_doc ?key d = Inr best"
      by (auto simp: best_doc_def ds is_ok_iff)
    from best_doc_first_max[OF best] have "is_ok (?key best)" by auto
    then have "isinstance_dict best" by (auto simp: is_ok_iff dest: score_is_dict)
    then have "is_ok (extract_meta best)" by (simp add: extract_meta_ok_iff)
    with best get True show ?thesis
      by (auto simp: match_response_docs is_ok_iff)
  qed
qed

subsection \<open>The whole function\<close>

lemma ol_best_match_blank:
  "strip title = [] \<Longrightarrow> ol_best_match title author w = (Inr None, w)"
  by (simp add: ol_best_match_def)

lemma ol_best_match_request:
  "strip title \<noteq> [] \<Longrightarrow>
     ol_best_match title author w =
       ((case respond w (length (calls w)) (match_url title author) of
           None \<Rightarrow> Inr None
         | Some data \<Rightarrow> match_response (strip title) (strip author) data),
        w\<lparr>calls := calls w @ [match_url title author]\<rparr>)"
  by (simp add: ol_best_match_def match_url_def urlopen_json_def Let_def split: option.splits)

lemma ol_best_match_calls:
  "calls (snd (ol_best_match title author w)) =
     (if strip title = [] then calls w else calls w @ [match_url title author])"
  by (simp add: ol_best_match_blank ol_best_match_request)

lemma ol_best_match_respond [simp]: "respond (snd (ol_best_match title author w)) = respond w"
  by (cases "strip title = []") (simp_all add: ol_best_match_blank ol_best_match_request)

lemma ol_best_match_Some:
  assumes "ol_best_match title author w = (Inr (Some m), w')"
  shows "\<exists>data. respond w (length (calls w)) (match_url title author) = Some data
           \<and> match_response (strip title) (strip author) data = Inr (Some m)"
  using assms
  by (cases "strip title = []")
     (auto simp: ol_best_match_blank ol_best_match_request split: option.splits)

lemma ol_best_match_Inl:
  "ol_best_match title author w = (Inl e, w') \<Longrightarrow> e = AttributeError \<or> e = TypeError"
  by (cases "strip title = []")
     (auto simp: ol_best_match_blank ol_best_match_request split: option.splits
       dest: match_response_Inl)

lemma ol_best_match_world:
  "ol_best_match t a w = (r, w') \<Longrightarrow> respond w' = respond w \<and> prefix (calls w) (calls w')"
  using ol_best_match_respond[of t a w] ol_best_match_calls[of t a w] by auto

lemma demo_scores:
  "score ''1984'' ''george orwell'' demo_doc = Inr 113"
  "score ''1984'' ''george orwell'' other_doc = Inr 88"
  "score ''1984'' ''george orwell'' twin_doc = Inr 113"
  by (simp_all add: matcher_eval demo_doc_def other_doc_def twin_doc_def)

lemma demo_fields:
  "doc_title_low demo_doc = Inr ''1984''" "first_author_low demo_doc = Inr ''george orwell''"
  "first_author_low other_doc = Inr ''george orwell jr.''"
  by (simp_all add: matcher_eval demo_doc_def other_doc_def)

lemma demo_best: "best_doc (score ''1984'' ''george orwell'') (JArr [other_doc, demo_doc, twin_doc]) = Inr demo_doc"
  by (simp add: best_doc_def max_by_key_def keyed_def py_max_def demo_scores)

lemma demo_match_url: "match_url ''1984'' ''George Orwell'' = demo_url"
  by (simp add: matcher_eval demo_url_def)

section \<open>Properties\<close>

text \<open>
  C8 (functional). Scoring prefers the exact match: a record whose title and
  first author both equal the query (case-insensitively, after stripping)
  scores strictly more than any record whose first author is not the query's
  author, whatever the other fields of the two records are.
\<close>

theorem score_exact_match_wins:
  assumes "score t a d1 = Inr s1" and "doc_title_low d1 = Inr t"
    and "first_author_low d1 = Inr a" and "a \<noteq> []"
    and "score t a d2 = Inr s2" and "first_author_low d2 = Inr f2" and "f2 \<noteq> a"
  shows "s2 < s1"
proof -
  from assms(1-4) have "100 \<le> s1"
    by (auto simp: score_Inr_iff author_points_exact)
  moreover from assms(5,6) obtain dt cov isbns where
    "s2 = title_points t dt + author_points a f2 + (if truthy cov then 10 else 0)
          + (if isinstance_list isbns \<and> truthy isbns then 3 else 0)"
    by (auto simp: score_Inr_iff)
  with title_points_cases[of t dt] author_points_not_exact[OF assms(7)] have "s2 \<le> 88"
    by auto
  ultimately show ?thesis by simp
qed

theorem score_exact_match_wins_witness:
  "score ''1984'' ''george orwell'' demo_doc = Inr 113
   \<and> score ''1984'' ''george orwell'' other_doc = Inr 88 \<and> (88 :: int) < 113"
proof -
  have ne: "''george orwell'' \<noteq> []" "''george orwell jr.'' \<noteq> ''george orwell''" by simp_all
  from score_exact_match_wins[OF demo_scores(1) demo_fields(1) demo_fields(2) ne(1)
      demo_scores(2) demo_fields(3) ne(2)] demo_scores
  show ?thesis by simp
qed

text \<open>
  C9 (functional). The winner is the first record with the highest score: when
  \<open>max(docs, key=score)\<close> returns the record at position \<open>i\<close> of a list, every
  record scores at most as much, and every record before position \<open>i\<close> scores
  strictly less, so a tie goes to the record that came first.
\<close>

theorem best_doc_first_of_the_best:
  assumes "best_doc key (JArr ds) = Inr b"
  shows "\<exists>i kb. i < length ds \<and> ds ! i = b \<and> key b = Inr kb
           \<and> (\<forall>j < length ds. \<exists>k. key (ds ! j) = Inr k \<and> k \<le> kb \<and> (j < i \<longrightarrow> k < kb))"
proof -
  from best_doc_first_max[OF assms] obtain ps ss kb where
    ds: "ds = ps @ b # ss" and kb: "key b = Inr kb"
    and before: "\<forall>p \<in> set ps. \<exists>k. key p = Inr k \<and> k < kb"
    and after: "\<forall>q \<in> set ss. \<exists>k. key q = Inr k \<and> k \<le> kb" by auto
  have "\<exists>k. key (ds ! j) = Inr k \<and> k \<le> kb \<and> (j < length ps \<longrightarrow> k < kb)" if "j < length ds" for j
  proof -
    consider "j < length ps" | "j = length ps" | "length ps < j" by linarith
    then show ?thesis
    proof cases
      case 1
      then have "ds ! j \<in> set ps" by (simp add: ds nth_append)
      with before 1 show ?thesis by fastforce
    next
      case 2
      with kb show ?thesis by (simp add: ds)
    next
      case 3
      with that have "ds ! j \<in> set ss"
        by (auto simp: ds nth_append nth_Cons split: nat.splits)
      with after 3 show ?thesis by fastforce
    qed
  qed
  moreover have "length ps < length ds" "ds ! length ps = b" by (simp_all add: ds)
  ultimately show ?thesis using kb by blast
qed

theorem best_doc_first_of_the_best_witness:
  "best_doc (score ''1984'' ''george orwell'') (JArr [other_doc, demo_doc, twin_doc]) = Inr demo_doc
   \<and> score ''1984'' ''george orwell'' twin_doc = score ''1984'' ''george orwell'' demo_doc
   \<and> (\<exists>i kb. i < length [other_doc, demo_doc, twin_doc] \<and> [other_doc, demo_doc, twin_doc] ! i = demo_doc
         \<and> score ''1984'' ''george orwell'' demo_doc = Inr kb
         \<and> (\<forall>j < length [other_doc, demo_doc, twin_doc].
               \<exists>k. score ''1984'' ''george orwell'' ([other_doc, demo_doc, twin_doc] ! j) = Inr k
                 \<and> k \<le> kb \<and> (j < i \<longrightarrow> k < kb)))"
  using best_doc_first_of_the_best[OF demo_best] demo_best demo_scores by simp

text \<open>
  C10 (functional). A title that is empty or all white space is answered
  without touching the network: the result is the empty dict and the world,
  its call log included, is unchanged.
\<close>

theorem ol_best_match_blank_title:
  assumes "list_all py_isspace title"
  shows "ol_best_match title author w = (Inr None, w)"
  using assms by (intro ol_best_match_blank) (simp add: strip_eq_Nil_iff list_all_iff)

theorem ol_best_match_blank_title_witness:
  "list_all py_isspace ''   '' \<and> ol_best_match ''   '' ''George Orwell'' demo_world = (Inr None, demo_world)"
proof -
  have h: "list_all py_isspace ''   ''" by (simp add: py_isspace_def)
  from ol_best_match_blank_title[OF h] h show ?thesis by blast
qed

text \<open>
  C22 (functional). For any other title the function sends exactly one
  request, for the search URL of the stripped title and author with
  \<open>limit=20\<close> and \<open>page=1\<close>, whatever the answer is and also when it raises.
\<close>

theorem ol_best_match_single_request:
  assumes "\<not> list_all py_isspace title"
  shows "calls (snd (ol_best_match title author w)) = calls w @ [match_url title author]"
  using assms by (simp add: ol_best_match_calls strip_eq_Nil_iff list_all_iff)

theorem ol_best_match_single_request_witness:
  "\<not> list_all py_isspace ''1984''
   \<and> calls (snd (ol_best_match ''1984'' ''George Orwell'' array_world)) = [demo_url]"
proof -
  have h: "\<not> list_all py_isspace ''1984''" by (simp add: py_isspace_def)
  from ol_best_match_single_request[OF h, of "''George Orwell''" array_world] h
  show ?thesis by (simp add: demo_match_url array_world_def)
qed

text \<open>
  C23 (error). A transport failure is soft: when the request fails (time-out,
  HTTP error, a body that is not JSON), the function returns the empty dict and
  raises nothing.
\<close>

theorem ol_best_match_transport_failure:
  assumes "respond w (length (calls w)) (match_url title author) = None"
  shows "fst (ol_best_match title author w) = Inr None"
  using assms
  by (cases "strip title = []") (simp_all add: ol_best_match_blank ol_best_match_request)

theorem ol_best_match_transport_failure_witness:
  "respond down_world (length (calls down_world)) (match_url ''1984'' ''George Orwell'') = None
   \<and> fst (ol_best_match ''1984'' ''George Orwell'' down_world) = Inr None"
proof -
  have h: "respond down_world (length (calls down_world)) (match_url ''1984'' ''George Orwell'') = None"
    by (simp add: down_world_def)
  from ol_best_match_transport_failure[OF h] h show ?thesis by blast
qed

text \<open>
  C24 (error). On a body of the documented shape nothing raises: if the body
  is an object whose \<open>docs\<close> is absent, falsy, or a list of objects whose
  \<open>title\<close> and first \<open>author_name\<close> are strings or falsy, the matcher
  returns a result.
\<close>

theorem match_response_total_on_ok_bodies:
  assumes "response_ok data"
  shows "\<exists>r. match_response t a data = Inr r"
  using match_response_ok[OF assms, of t a] by (simp add: is_ok_iff)

theorem match_response_total_on_ok_bodies_witness:
  "response_ok demo_response
   \<and> (\<exists>r. match_response ''1984'' ''George Orwell'' demo_response = Inr r)"
proof -
  have h: "response_ok demo_response"
    by (simp add: demo_response_def demo_doc_def other_doc_def twin_doc_def str_or_falsy_def)
  from match_response_total_on_ok_bodies[OF h] h show ?thesis by blast
qed

text \<open>
  A body that decodes to anything but an object makes the
  function raise \<open>AttributeError\<close>: the \<open>try\<close> block ends before
  \<open>data.get("docs")\<close>, so the exception is not caught.
\<close>

theorem ol_best_match_non_object_raises:
  assumes "respond w (length (calls w)) (match_url title author) = Some data"
    and "\<not> isinstance_dict data" and "strip title \<noteq> []"
  shows "fst (ol_best_match title author w) = Inl AttributeError"
  using assms by (simp add: ol_best_match_request match_response_not_dict)

theorem ol_best_match_non_object_raises_witness:
  "respond array_world (length (calls array_world)) (match_url ''1984'' ''George Orwell'') = Some (JArr [])
   \<and> \<not> isinstance_dict (JArr []) \<and> strip ''1984'' \<noteq> []
   \<and> fst (ol_best_match ''1984'' ''George Orwell'' array_world) = Inl AttributeError"
proof -
  have h: "respond array_world (length (calls array_world)) (match_url ''1984'' ''George Orwell'') = Some (JArr [])"
    "\<not> isinstance_dict (JArr [])" "strip ''1984'' \<noteq> []"
    by (simp_all add: array_world_def pystr_eval)
  from ol_best_match_non_object_raises[OF h] h show ?thesis by blast
qed

text \<open>
  A score is between 0 and 113: 50 for the title, 50 for the
  author, 10 for a cover id and 3 for an ISBN at most.
\<close>

theorem score_range: "score t a d = Inr s \<Longrightarrow> 0 \<le> s \<and> s \<le> 113"
proof -
  assume "score t a d = Inr s"
  then obtain dt fa cov isbns where
    s: "s = title_points t dt + author_points a fa + (if truthy cov then 10 else 0)
          + (if isinstance_list isbns \<and> truthy isbns then 3 else 0)"
    unfolding score_Inr_iff by blast
  show ?thesis
    using title_points_cases[of t dt] author_points_cases[of a fa] unfolding s by auto
qed

theorem score_range_witness:
  "score ''1984'' ''george orwell'' demo_doc = Inr 113 \<and> (0 :: int) \<le> 113 \<and> (113 :: int) \<le> 113"
  using score_range[OF demo_scores(1)] demo_scores(1) by simp

text \<open>
  \<open>quote\<close> leaves only characters that are safe in a query
  string: letters, digits, \<open>_ . - ~ /\<close> and the percent sign of an escape.
\<close>

theorem quote_output_is_url_safe:
  "list_all (\<lambda>x. is_always_safe x \<or> x = CHR ''/'' \<or> x = CHR ''%'') (quote s)"
  by (auto simp: list_all_iff dest: quote_chars)

text \<open>
  C25 (invariant). Every record the function returns is consistent: its cover
  URL is the one \<open>ol_cover_url\<close> builds from its own three identifiers, and no
  field has white space at its ends.
\<close>

theorem ol_best_match_result_consistent:
  assumes "ol_best_match title author w = (Inr (Some m), w')"
  shows "meta_ok m"
  using ol_best_match_Some[OF assms] by (auto dest: match_response_meta_ok)

theorem ol_best_match_result_consistent_witness:
  "ol_best_match ''1984'' ''George Orwell'' demo_world =
     (Inr (Some \<lparr>m_cover = ''https://covers.openlibrary.org/b/id/123-L.jpg'', m_cover_i = ''123'',
                 m_isbn = ''9780141182636'', m_olid = ''OL1M'', m_year = ''1949''\<rparr>),
      demo_world\<lparr>calls := [demo_url]\<rparr>)
   \<and> meta_ok \<lparr>m_cover = ''https://covers.openlibrary.org/b/id/123-L.jpg'', m_cover_i = ''123'',
                 m_isbn = ''9780141182636'', m_olid = ''OL1M'', m_year = ''1949''\<rparr>"
proof -
  have run: "ol_best_match ''1984'' ''George Orwell'' demo_world =
     (Inr (Some \<lparr>m_cover = ''https://covers.openlibrary.org/b/id/123-L.jpg'', m_cover_i = ''123'',
                 m_isbn = ''9780141182636'', m_olid = ''OL1M'', m_year = ''1949''\<rparr>),
      demo_world\<lparr>calls := [demo_url]\<rparr>)"
    by (simp add: matcher_eval demo_world_def demo_doc_def demo_url_def)
  from ol_best_match_result_consistent[OF run] run show ?thesis by blast
qed

end
