(* ===== verification/Seeder.thy ===== *)
theory Seeder
  imports Catalog Matcher
begin

text \<open>
  Seeding the catalogue (\<open>src/main.py\<close>: \<open>CURATED_SHELVES\<close>,
  \<open>_ensure_seeded_curated\<close> and the start-up block that calls it).

  The state is a pair of the database session and the network.
  \<open>seed_item\<close> is the body of the inner loop for one (title, author, genre)
  triple, \<open>seed_shelf\<close> the inner loop, \<open>ensure_seeded_curated_from\<close> the
  function for any dict of shelves (given as the list of its items) and
  \<open>ensure_seeded_curated\<close> the function on \<open>CURATED_SHELVES\<close>.
  \<open>startup_seed\<close> is the call at import time, inside an application context.
  An exception of the matcher leaves the loops at once and skips the commit.

  \<open>present item s\<close> says that the loop body skips \<open>item\<close> in \<open>s\<close>: its title or
  author is blank, or the row exists. \<open>extends s s'\<close> says that \<open>s'\<close> has the
  rows of \<open>s\<close> and possibly more, and the same committed tables.
  \<open>cover_consistent\<close> relates the stored cover of a row to its identifiers.
  \<open>keys\<close> is the abstract view of the table, the set of its (title, author)
  pairs, and \<open>curated_keys\<close> the pairs a list of items stands for: a pass
  refines the union of the two.
\<close>

section \<open>Curated shelves\<close>

type_synonym shelf_item = "string \<times> string \<times> string"

definition bronte :: string where
  "bronte = ''Bront'' @ [CHR 0xEB]"

definition CURATED_SHELVES :: "(string \<times> shelf_item list) list" where
  "CURATED_SHELVES =
    [(''Classics'',
      [(''Pride and Prejudice'', ''Jane Austen'', ''Classics''),
       (''Wuthering Heights'', ''Emily '' @ bronte, ''Classics''),
       (''Jane Eyre'', ''Charlotte '' @ bronte, ''Classics''),
       (''Great Expectations'', ''Charles Dickens'', ''Classics''),
       (''The Great Gatsby'', ''F. Scott Fitzgerald'', ''Classics''),
       (''Crime and Punishment'', ''Fyodor Dostoevsky'', ''Classics''),
       (''Frankenstein'', ''Mary Shelley'', ''Classics''),
       (''Dracula'', ''Bram Stoker'', ''Classics''),
       (''The Picture of Dorian Gray'', ''Oscar Wilde'', ''Classics''),
       (''1984'', ''George Orwell'', ''Classics''),
       (''Brave New World'', ''Aldous Huxley'', ''Classics'')]),
     (''Cult favourites'',
      [(''The Secret History'', ''Donna Tartt'', ''Literary''),
       (''Fight Club'', ''Chuck Palahniuk'', ''Literary''),
       (''American Psycho'', ''Bret Easton Ellis'', ''Literary''),
       (''The Handmaid's Tale'', ''Margaret Atwood'', ''Dystopian''),
       (''The Bell Jar'', ''Sylvia Plath'', ''Literary''),
       (''The Road'', ''Cormac McCarthy'', ''Literary''),
       (''Gone Girl'', ''Gillian Flynn'', ''Mystery''),
       (''The Shining'', ''Stephen King'', ''Horror'')]),
     (''Trending'',
      [(''Fourth Wing'', ''Rebecca Yarros'', ''Fantasy''),
       (''Iron Flame'', ''Rebecca Yarros'', ''Fantasy''),
       (''The Seven Husbands of Evelyn Hugo'', ''Taylor Jenkins Reid'', ''Romance''),
       (''The Song of Achilles'', ''Madeline Miller'', ''Fantasy''),
       (''It Ends with Us'', ''Colleen Hoover'', ''Romance''),
       (''The Silent Patient'', ''Alex Michaelides'', ''Mystery'')])]"

section \<open>The seeding pass\<close>

definition meta_get :: "(ol_meta \<Rightarrow> string) \<Rightarrow> ol_meta option \<Rightarrow> string" where
  "meta_get field meta = (case meta of None \<Rightarrow> [] | Some m \<Rightarrow> field m)"

definition seeded_book :: "string \<Rightarrow> string \<Rightarrow> string \<Rightarrow> ol_meta option \<Rightarrow> book" where
  "seeded_book title author genre meta =
     (let cover0 = strip (meta_get m_cover meta);
          cover = (if cover0 = [] then PLACEHOLDER_COVER else cover0)
      in \<lparr>b_id = 0, b_title = title, b_author = author, b_genre = genre,
           b_year = strip (meta_get m_year meta), b_cover = cover,
           b_olid = strip (meta_get m_olid meta), b_cover_i = strip (meta_get m_cover_i meta),
           b_isbn = strip (meta_get m_isbn meta)\<rparr>)"

definition seed_item :: "shelf_item \<Rightarrow> (unit, session \<times> world) prog" where
  "seed_item item st =
     (case (item, st) of ((title0, author0, genre0), (s, w)) \<Rightarrow>
        let title = strip title0;
            author = strip author0;
            genre = strip (if genre0 = [] then ''Other'' else genre0)
        in if title = [] \<or> author = [] then (Inr (), (s, w))
           else if find_book title author s \<noteq> None then (Inr (), (s, w))
           else case ol_best_match title author w of
                  (Inl e, w') \<Rightarrow> (Inl e, (s, w'))
                | (Inr meta, w') \<Rightarrow>
                    (case insert_book (seeded_book title author genre meta) s of
                       (Inl e, s') \<Rightarrow> (Inl e, (s', w'))
                     | (Inr _, s') \<Rightarrow> (Inr (), (s', w'))))"

definition seed_shelf :: "string \<times> shelf_item list \<Rightarrow> (unit, session \<times> world) prog" where
  "seed_shelf shelf = run_list seed_item (snd shelf)"

definition ensure_seeded_curated_from ::
    "(string \<times> shelf_item list) list \<Rightarrow> int \<Rightarrow> (unit, session \<times> world) prog" where
  "ensure_seeded_curated_from shelves min_books st =
     (case st of (s, w) \<Rightarrow>
        if int (book_count s) \<ge> min_books then (Inr (), (s, w))
        else case run_list seed_shelf shelves (s, w) of
               (Inl e, st') \<Rightarrow> (Inl e, st')
             | (Inr _, (s', w')) \<Rightarrow> (Inr (), (commit s', w')))"

definition ensure_seeded_curated :: "int \<Rightarrow> (unit, session \<times> world) prog" where
  "ensure_seeded_curated min_books = ensure_seeded_curated_from CURATED_SHELVES min_books"

definition startup_seed :: "(unit, session \<times> world) prog" where
  "startup_seed = with_app_context (ensure_seeded_curated 250)"

section \<open>What the loop body skips\<close>

definition present :: "shelf_item \<Rightarrow> session \<Rightarrow> bool" where
  "present item s =
     (case item of (title0, author0, genre0) \<Rightarrow>
        strip title0 = [] \<or> strip author0 = []
        \<or> find_book (strip title0) (strip author0) s \<noteq> None)"

text \<open>What a pass may do to the session: append rows, and leave what is committed.\<close>

definition extends :: "session \<Rightarrow> session \<Rightarrow> bool" where
  "extends s s' \<longleftrightarrow> prefix (books (live s)) (books (live s')) \<and> durable s' = durable s"

text \<open>The stored cover of a row agrees with its stored identifiers.\<close>

definition cover_consistent :: "book \<Rightarrow> bool" where
  "cover_consistent b \<longleftrightarrow>
     b_cover b = (let built = ol_cover_url (b_cover_i b) (b_isbn b) (b_olid b)
                  in if built = [] then PLACEHOLDER_COVER else built)"

definition all_items :: "(string \<times> shelf_item list) list \<Rightarrow> shelf_item list" where
  "all_items shelves = concat (map snd shelves)"

text \<open>
  The abstract view of the table: the set of its (title, author) pairs. An
  item stands for the pair of its stripped title and author, unless one of
  them is blank.
\<close>

definition keys :: "session \<Rightarrow> (string \<times> string) set" where
  "keys s = book_key ` set (books (live s))"

definition item_key :: "shelf_item \<Rightarrow> (string \<times> string) option" where
  "item_key item =
     (case item of (t, a, g) \<Rightarrow>
        if strip t = [] \<or> strip a = [] then None else Some (strip t, strip a))"

definition curated_keys :: "shelf_item list \<Rightarrow> (string \<times> string) set" where
  "curated_keys items = set (List.map_filter item_key items)"

section \<open>Example inputs\<close>

text \<open>
  Concrete shelves, responses and rows on which the properties below are
  instantiated, next to those of the matcher: \<open>flaky_world\<close> answers the
  first request with one good record and every later one with a JSON array.
\<close>

definition flaky_world :: world where
  "flaky_world = \<lparr>calls = [],
     respond = (\<lambda>n url. if n = 0 then Some (JObj [(''docs'', JArr [demo_doc])]) else Some (JArr []))\<rparr>"

definition demo_shelves :: "(string \<times> shelf_item list) list" where
  "demo_shelves = [(''Classics'', [(''1984'', ''George Orwell'', ''Classics'')])]"

definition two_shelves :: "(string \<times> shelf_item list) list" where
  "two_shelves = [(''Classics'', [(''1984'', ''George Orwell'', ''Classics'')]),
                  (''Trending'', [(''Dune'', ''Frank Herbert'', ''  '')])]"

definition dune_book :: book where
  "dune_book = \<lparr>b_id = 2, b_title = ''Dune'', b_author = ''Frank Herbert'', b_genre = [],
     b_year = ''1949'', b_cover = ''https://covers.openlibrary.org/b/id/123-L.jpg'',
     b_olid = ''OL1M'', b_cover_i = ''123'', b_isbn = ''9780141182636''\<rparr>"

definition dune_url :: string where
  "dune_url = ''https://openlibrary.org/search.json?q=Dune%20Frank%20Herbert&limit=20&page=1''"

section \<open>Lemmas: one item\<close>

lemma seeded_book_key [simp]:
  "b_title (seeded_book t a g meta) = t" "b_author (seeded_book t a g meta) = a"
  "b_genre (seeded_book t a g meta) = g"
  by (simp_all add: seeded_book_def Let_def)

lemma extends_refl [simp]: "extends s s"
  by (simp add: extends_def)

lemma extends_trans: "extends s s' \<Longrightarrow> extends s' s'' \<Longrightarrow> extends s s''"
  by (auto simp: extends_def)

lemma find_book_extends:
  "extends s s' \<Longrightarrow> find_book t a s = Some b \<Longrightarrow> find_book t a s' = Some b"
  by (auto simp: extends_def find_book_def prefix_def find_append_Some)

lemma present_extends: "extends s s' \<Longrightarrow> present item s \<Longrightarrow> present item s'"
  by (cases item) (auto simp: present_def dest: find_book_extends)

lemma present_commit [simp]: "present item (commit s) = present item s"
  by (cases item) (simp add: present_def)

lemma insert_book_extends: "insert_book b s = (r, s') \<Longrightarrow> extends s s'"
  by (auto simp: insert_book_def extends_def Let_def split: if_splits)

lemma seed_item_present:
  "present item s \<Longrightarrow> seed_item item (s, w) = (Inr (), (s, w))"
  by (cases item) (auto simp: seed_item_def present_def Let_def)

text \<open>The body on an item that is not skipped: one request, then one insert that succeeds.\<close>

lemma seed_item_new:
  assumes "\<not> present (t0, a0, g0) s"
  shows "seed_item (t0, a0, g0) (s, w) =
     (case ol_best_match (strip t0) (strip a0) w of
        (Inl e, w') \<Rightarrow> (Inl e, (s, w'))
      | (Inr meta, w') \<Rightarrow>
          (Inr (), (snd (insert_book (seeded_book (strip t0) (strip a0)
                      (strip (if g0 = [] then ''Other'' else g0)) meta) s), w')))"
proof -
  from assms have ne: "strip t0 \<noteq> []" "strip a0 \<noteq> []"
    and none: "find_book (strip t0) (strip a0) s = None"
    by (auto simp: present_def)
  obtain r w' where m: "ol_best_match (strip t0) (strip a0) w = (r, w')"
    by (cases "ol_best_match (strip t0) (strip a0) w")
  with ne none show ?thesis
    by (cases r) (simp_all add: seed_item_def Let_def insert_book_fresh)
qed

lemma seed_item_Inl:
  assumes "seed_item item (s, w) = (Inl e, (s', w'))"
  shows "(e = AttributeError \<or> e = TypeError) \<and> s' = s"
proof (cases "present item s")
  case True
  with assms show ?thesis by (simp add: seed_item_present)
next
  case False
  obtain t0 a0 g0 where item: "item = (t0, a0, g0)" by (cases item)
  from assms False show ?thesis
    unfolding item
    by (auto simp: seed_item_new split: prod.splits sum.splits dest: ol_best_match_Inl)
qed

lemma seed_item_extends:
  assumes "seed_item item (s, w) = (r, (s', w'))"
  shows "extends s s'"
proof (cases "present item s")
  case True
  with assms show ?thesis by (simp add: seed_item_present)
next
  case False
  obtain t0 a0 g0 where item: "item = (t0, a0, g0)" by (cases item)
  from assms False show ?thesis
    unfolding item
    by (auto simp: seed_item_new split: prod.splits sum.splits
        intro: insert_book_extends[OF surjective_pairing])
qed

lemma seed_item_db_ok:
  assumes "seed_item item (s, w) = (r, (s', w'))" and "db_ok s"
  shows "db_ok s'"
proof (cases "present item s")
  case True
  with assms show ?thesis by (simp add: seed_item_present)
next
  case False
  obtain t0 a0 g0 where item: "item = (t0, a0, g0)" by (cases item)
  from assms False show ?thesis
    unfolding item
    by (auto simp: seed_item_new split: prod.splits sum.splits
        intro: insert_book_db_ok[OF surjective_pairing])
qed

lemma seed_item_present_after:
  assumes "seed_item item (s, w) = (Inr (), (s', w'))"
  shows "present item s'"
proof (cases "present item s")
  case True
  with assms show ?thesis by (simp add: seed_item_present)
next
  case False
  obtain t0 a0 g0 where item: "item = (t0, a0, g0)" by (cases item)
  from False have none: "find_book (strip t0) (strip a0) s = None"
    by (auto simp: present_def item)
  from assms False obtain meta where
    s': "s' = snd (insert_book (seeded_book (strip t0) (strip a0)
                    (strip (if g0 = [] then ''Other'' else g0)) meta) s)"
    unfolding item by (auto simp: seed_item_new split: prod.splits sum.splits)
  have "find_book (strip t0) (strip a0) s' \<noteq> None"
    unfolding s' using none
    by (simp add: insert_book_def seeded_book_def Let_def find_book_None_iff book_key_def image_iff)
  then show ?thesis by (simp add: present_def item)
qed

lemma seed_item_net:
  assumes "seed_item item (s, w) = (r, (s', w'))"
  shows "respond w' = respond w \<and> prefix (calls w) (calls w')"
proof (cases "present item s")
  case True
  with assms show ?thesis by (simp add: seed_item_present)
next
  case False
  obtain t0 a0 g0 where item: "item = (t0, a0, g0)" by (cases item)
  from assms False show ?thesis
    unfolding item
    by (auto simp: seed_item_new split: prod.splits sum.splits dest: ol_best_match_world)
qed

text \<open>One request per inserted row; a failed item has made its request.\<close>

lemma seed_item_count:
  assumes "seed_item item (s, w) = (r, (s', w'))"
  shows "length (calls w') + book_count s =
         length (calls w) + book_count s' + (if is_ok r then 0 else 1)"
proof (cases "present item s")
  case True
  with assms show ?thesis by (auto simp: seed_item_present)
next
  case False
  obtain t0 a0 g0 where item: "item = (t0, a0, g0)" by (cases item)
  from False have ne: "strip (strip t0) \<noteq> []" and none: "find_book (strip t0) (strip a0) s = None"
    by (auto simp: present_def item)
  have c: "length (calls (snd (ol_best_match (strip t0) (strip a0) w))) = Suc (length (calls w))"
    using ne by (simp add: ol_best_match_calls)
  have b: "book_count (snd (insert_book (seeded_book (strip t0) (strip a0) g meta) s))
      = Suc (book_count s)" for g meta
    using none by (simp add: insert_book_def seeded_book_def Let_def book_count_def)
  from assms False c b show ?thesis
    unfolding item
    by (auto simp: seed_item_new split: prod.splits sum.splits)
qed

section \<open>Lemmas: the loops\<close>

lemma run_seed_shelves:
  "run_list seed_shelf shelves st = run_list seed_item (all_items shelves) st"
  by (induction shelves arbitrary: st)
     (auto simp: all_items_def seed_shelf_def run_list_append split: prod.splits sum.splits)

lemma run_seed_present:
  "\<forall>item \<in> set items. present item s \<Longrightarrow> run_list seed_item items (s, w) = (Inr (), (s, w))"
  by (induction items) (simp_all add: seed_item_present)

lemma run_seed_extends:
  assumes "run_list seed_item items (s, w) = (r, (s', w'))"
  shows "extends s s'"
proof -
  have "extends s (fst (s', w'))"
  proof (rule run_list_invariant[where I = "\<lambda>st. extends s (fst st)" and body = seed_item,
        OF _ _ assms])
    show "extends s (fst (s, w))" by simp
    show "extends s (fst st')" if "extends s (fst st)" "seed_item x st = (r, st')" for x st r st'
      using that seed_item_extends[of x "fst st" "snd st" r "fst st'" "snd st'"]
      by (auto intro: extends_trans)
  qed
  then show ?thesis by simp
qed

lemma run_seed_db_ok:
  assumes "run_list seed_item items (s, w) = (r, (s', w'))" and "db_ok s"
  shows "db_ok s'"
proof -
  have "db_ok (fst (s', w'))"
  proof (rule run_list_invariant[where I = "\<lambda>st. db_ok (fst st)" and body = seed_item,
        OF _ _ assms(1)])
    show "db_ok (fst (s, w))" using assms(2) by simp
    show "db_ok (fst st')" if "db_ok (fst st)" "seed_item x st = (r, st')" for x st r st'
      using that seed_item_db_ok[of x "fst st" "snd st" r "fst st'" "snd st'"] by simp
  qed
  then show ?thesis by simp
qed

lemma run_seed_net:
  assumes "run_list seed_item items (s, w) = (r, (s', w'))"
  shows "respond w' = respond w \<and> prefix (calls w) (calls w')"
proof -
  let ?I = "\<lambda>st. respond (snd st) = respond w \<and> prefix (calls w) (calls (snd st))"
  have "?I (s', w')"
  proof (rule run_list_invariant[where I = ?I and body = seed_item, OF _ _ assms])
    show "?I (s, w)" by simp
    show "?I st'" if "?I st" "seed_item x st = (r, st')" for x st r st'
      using that seed_item_net[of x "fst st" "snd st" r "fst st'" "snd st'"]
      by (auto intro: prefix_order.trans)
  qed
  then show ?thesis by simp
qed

lemma run_seed_Inl:
  "run_list seed_item items (s, w) = (Inl e, (s', w')) \<Longrightarrow> e = AttributeError \<or> e = TypeError"
proof (induction items arbitrary: s w)
  case Nil
  then show ?case by simp
next
  case (Cons item items)
  obtain r1 s1 w1 where step: "seed_item item (s, w) = (r1, (s1, w1))"
    by (metis surj_pair)
  show ?case
  proof (cases r1)
    case (Inl e1)
    with step Cons.prems have "e1 = e" by simp
    with step Inl show ?thesis by (auto dest: seed_item_Inl)
  next
    case (Inr u)
    with step Cons.prems have "run_list seed_item items (s1, w1) = (Inl e, (s', w'))" by simp
    then show ?thesis by (rule Cons.IH)
  qed
qed

lemma run_seed_present_after:
  "run_list seed_item items (s, w) = (Inr (), (s', w')) \<Longrightarrow> \<forall>item \<in> set items. present item s'"
proof (induction items arbitrary: s w)
  case Nil
  then show ?case by simp
next
  case (Cons item items)
  obtain r1 s1 w1 where step: "seed_item item (s, w) = (r1, (s1, w1))"
    by (metis surj_pair)
  with Cons.prems have r1: "r1 = Inr ()"
    and rest: "run_list seed_item items (s1, w1) = (Inr (), (s', w'))"
    by (auto split: sum.splits)
  from step r1 have "present item s1" by (auto intro: seed_item_present_after)
  with run_seed_extends[OF rest] have "present item s'" by (rule present_extends)
  with Cons.IH[OF rest] show ?case by simp
qed

lemma run_seed_count:
  "run_list seed_item items (s, w) = (r, (s', w')) \<Longrightarrow>
     length (calls w') + book_count s =
       length (calls w) + book_count s' + (if is_ok r then 0 else 1)"
proof (induction items arbitrary: s w)
  case Nil
  then show ?case by auto
next
  case (Cons item items)
  obtain r1 s1 w1 where step: "seed_item item (s, w) = (r1, (s1, w1))"
    by (metis surj_pair)
  note c1 = seed_item_count[OF step]
  show ?case
  proof (cases r1)
    case (Inl e1)
    with step Cons.prems c1 show ?thesis by auto
  next
    case (Inr u)
    with step Cons.prems have "run_list seed_item items (s1, w1) = (r, (s', w'))" by simp
    from Cons.IH[OF this] c1 Inr show ?thesis by simp
  qed
qed

lemmas seeder_eval = ensure_seeded_curated_from_def seed_shelf_def seed_item_def
  seeded_book_def meta_get_def catalog_eval cover_eval pystr_eval

section \<open>Lemmas: the whole pass\<close>

lemma ensure_seeded_unfold:
  "ensure_seeded_curated_from shelves n (s, w) =
     (if n \<le> int (book_count s) then (Inr (), (s, w))
      else case run_list seed_item (all_items shelves) (s, w) of
             (Inl e, st') \<Rightarrow> (Inl e, st')
           | (Inr _, (s', w')) \<Rightarrow> (Inr (), (commit s', w')))"
  by (simp add: ensure_seeded_curated_from_def run_seed_shelves)

lemma ensure_seeded_cases [consumes 1, case_names noop failed seeded]:
  assumes "ensure_seeded_curated_from shelves n (s, w) = (r, (s', w'))"
  obtains "n \<le> int (book_count s)" "r = Inr ()" "s' = s" "w' = w"
  | e where "\<not> n \<le> int (book_count s)" "r = Inl e"
      "run_list seed_item (all_items shelves) (s, w) = (Inl e, (s', w'))"
  | s1 where "\<not> n \<le> int (book_count s)" "r = Inr ()" "s' = commit s1"
      "run_list seed_item (all_items shelves) (s, w) = (Inr (), (s1, w'))"
  using assms unfolding ensure_seeded_unfold
  by (auto split: if_splits prod.splits sum.splits)

lemma demo_match:
  "ol_best_match ''1984'' ''George Orwell'' demo_world =
     (Inr (Some \<lparr>m_cover = ''https://covers.openlibrary.org/b/id/123-L.jpg'', m_cover_i = ''123'',
                 m_isbn = ''9780141182636'', m_olid = ''OL1M'', m_year = ''1949''\<rparr>),
      demo_world\<lparr>calls := [demo_url]\<rparr>)"
  by (simp add: matcher_eval demo_world_def demo_doc_def demo_url_def)

lemma demo_seed:
  "ensure_seeded_curated_from demo_shelves 250 (new_session empty_tables, demo_world) =
     (Inr (), (new_session (empty_tables\<lparr>books := [demo_book]\<rparr>), demo_world\<lparr>calls := [demo_url]\<rparr>))"
  by (simp add: seeder_eval demo_shelves_def demo_match demo_book_def)

lemma flaky_match1:
  "ol_best_match ''1984'' ''George Orwell'' flaky_world =
     (Inr (Some \<lparr>m_cover = ''https://covers.openlibrary.org/b/id/123-L.jpg'', m_cover_i = ''123'',
                 m_isbn = ''9780141182636'', m_olid = ''OL1M'', m_year = ''1949''\<rparr>),
      flaky_world\<lparr>calls := [demo_url]\<rparr>)"
  by (simp add: matcher_eval flaky_world_def demo_doc_def demo_url_def)

lemma flaky_match2:
  "ol_best_match ''Dune'' ''Frank Herbert'' (flaky_world\<lparr>calls := [demo_url]\<rparr>) =
     (Inl AttributeError, flaky_world\<lparr>calls := [demo_url, dune_url]\<rparr>)"
  by (simp add: matcher_eval flaky_world_def dune_url_def)

lemma flaky_seed:
  "ensure_seeded_curated_from two_shelves 250 (new_session empty_tables, flaky_world) =
     (Inl AttributeError,
      (\<lparr>live = empty_tables\<lparr>books := [demo_book]\<rparr>, durable = empty_tables\<rparr>,
       flaky_world\<lparr>calls := [demo_url, dune_url]\<rparr>))"
  by (simp add: seeder_eval two_shelves_def flaky_match1 flaky_match2 demo_book_def)

lemma demo_match2:
  "ol_best_match ''Dune'' ''Frank Herbert'' (demo_world\<lparr>calls := [demo_url]\<rparr>) =
     (Inr (Some \<lparr>m_cover = ''https://covers.openlibrary.org/b/id/123-L.jpg'', m_cover_i = ''123'',
                 m_isbn = ''9780141182636'', m_olid = ''OL1M'', m_year = ''1949''\<rparr>),
      demo_world\<lparr>calls := [demo_url, dune_url]\<rparr>)"
  by (simp add: matcher_eval demo_world_def demo_doc_def dune_url_def)

lemma two_seed:
  "ensure_seeded_curated_from two_shelves 1 (new_session empty_tables, demo_world) =
     (Inr (), (new_session (empty_tables\<lparr>books := [demo_book, dune_book]\<rparr>),
               demo_world\<lparr>calls := [demo_url, dune_url]\<rparr>))"
  by (simp add: seeder_eval two_shelves_def demo_match demo_match2 demo_book_def dune_book_def)

section \<open>Lemmas: covers of seeded rows\<close>

lemma seeded_book_None:
  "seeded_book t a g None =
     \<lparr>b_id = 0, b_title = t, b_author = a, b_genre = g, b_year = [], b_cover = PLACEHOLDER_COVER,
      b_olid = [], b_cover_i = [], b_isbn = []\<rparr>"
  by (simp add: seeded_book_def meta_get_def)

lemma seeded_book_Some:
  "meta_ok m \<Longrightarrow> seeded_book t a g (Some m) =
     \<lparr>b_id = 0, b_title = t, b_author = a, b_genre = g, b_year = m_year m,
      b_cover = (if m_cover m = [] then PLACEHOLDER_COVER else m_cover m),
      b_olid = m_olid m, b_cover_i = m_cover_i m, b_isbn = m_isbn m\<rparr>"
  by (simp add: seeded_book_def meta_get_def meta_ok_def Let_def)

lemma seeded_book_consistent:
  "meta = None \<or> (\<exists>m. meta = Some m \<and> meta_ok m) \<Longrightarrow> cover_consistent (seeded_book t a g meta)"
  by (auto simp: seeded_book_None seeded_book_Some cover_consistent_def Let_def
      ol_cover_url_def meta_ok_def)

lemma ol_best_match_meta_cases:
  "ol_best_match t a w = (Inr meta, w') \<Longrightarrow> meta = None \<or> (\<exists>m. meta = Some m \<and> meta_ok m)"
  by (cases meta) (auto dest!: ol_best_match_Some match_response_meta_ok)

lemma seed_item_consistent:
  assumes "seed_item item (s, w) = (r, (s', w'))"
    and "list_all cover_consistent (books (live s))"
  shows "list_all cover_consistent (books (live s'))"
proof (cases "present item s")
  case True
  with assms show ?thesis by (simp add: seed_item_present)
next
  case False
  obtain t0 a0 g0 where item: "item = (t0, a0, g0)" by (cases item)
  from False have none: "find_book (strip t0) (strip a0) s = None"
    by (auto simp: present_def item)
  have ins: "list_all cover_consistent (books (live (snd (insert_book (seeded_book (strip t0) (strip a0) g meta) s))))"
    if "meta = None \<or> (\<exists>m. meta = Some m \<and> meta_ok m)" for g meta
    using none assms(2) seeded_book_consistent[OF that, of "strip t0" "strip a0" g]
    by (simp add: insert_book_fresh cover_consistent_def)
  from assms False show ?thesis
    unfolding item
    by (auto simp: seed_item_new split: prod.splits sum.splits
        dest!: ol_best_match_meta_cases intro!: ins)
qed

section \<open>Lemmas: the pass as a union of keys\<close>

lemma keys_commit [simp]: "keys (commit s) = keys s"
  by (simp add: keys_def)

lemma curated_keys_simps [simp]:
  "curated_keys [] = {}"
  "curated_keys (item # items) = set_option (item_key item) \<union> curated_keys items"
  by (auto simp: curated_keys_def List.map_filter_def split: option.splits)

lemma present_iff_key:
  "present item s \<longleftrightarrow> (case item_key item of None \<Rightarrow> True | Some k \<Rightarrow> k \<in> keys s)"
  by (cases item) (auto simp: present_def item_key_def keys_def find_book_None_iff)

lemma insert_book_keys:
  "insert_book b s = (Inr b', s') \<Longrightarrow> keys s' = insert (b_title b, b_author b) (keys s)"
  by (auto simp: insert_book_Inr_iff keys_def book_key_def)

lemma seed_item_keys:
  assumes "seed_item item (s, w) = (Inr (), (s', w'))"
  shows "keys s' = keys s \<union> set_option (item_key item)"
proof (cases "present item s")
  case True
  with assms have "s' = s" by (simp add: seed_item_present)
  with True show ?thesis by (auto simp: present_iff_key split: option.splits)
next
  case False
  obtain t a g where item: "item = (t, a, g)" by (cases item)
  from False item have k: "item_key item = Some (strip t, strip a)"
    and none: "find_book (strip t) (strip a) s = None"
    by (auto simp: present_def item_key_def)
  let ?b = "seeded_book (strip t) (strip a) (strip (if g = [] then ''Other'' else g))"
  from assms False item obtain meta where "s' = snd (insert_book (?b meta) s)"
    by (auto simp: seed_item_new split: prod.splits sum.splits)
  moreover from none obtain b' s1 where "insert_book (?b meta) s = (Inr b', s1)"
    using insert_book_fresh[of "?b meta" s] by simp
  ultimately show ?thesis using k insert_book_keys[of "?b meta" s b' s1] by simp
qed

lemma run_seed_keys:
  "run_list seed_item items (s, w) = (Inr (), (s', w')) \<Longrightarrow>
     keys s' = keys s \<union> curated_keys items"
proof (induction items arbitrary: s w)
  case Nil
  then show ?case by simp
next
  case (Cons item items)
  from Cons.prems obtain s1 w1 where step: "seed_item item (s, w) = (Inr (), (s1, w1))"
    and rest: "run_list seed_item items (s1, w1) = (Inr (), (s', w'))"
    by (auto split: prod.splits sum.splits)
  from seed_item_keys[OF step] Cons.IH[OF rest] show ?case by auto
qed

section \<open>Properties\<close>

text \<open>
  C1 (invariant). Seeding keeps the Book table well formed: whatever the
  shelves, the threshold and the network's answers, and whether the pass
  returns or raises, no two rows of the session or of the committed table share
  a (title, author) pair or an id, and every id is positive.
\<close>

theorem ensure_seeded_keeps_books_unique:
  assumes "db_ok s"
  shows "db_ok (fst (snd (ensure_seeded_curated_from shelves n (s, w))))"
proof -
  obtain r s' w' where run: "ensure_seeded_curated_from shelves n (s, w) = (r, (s', w'))"
    by (metis surj_pair)
  from run assms have "db_ok s'"
    by (cases rule: ensure_seeded_cases) (auto dest: run_seed_db_ok intro: commit_db_ok)
  with run show ?thesis by simp
qed

theorem ensure_seeded_keeps_books_unique_witness:
  "db_ok (new_session empty_tables)
   \<and> db_ok (fst (snd (ensure_seeded_curated_from two_shelves 1 (new_session empty_tables, demo_world))))"
proof -
  have h: "db_ok (new_session empty_tables)"
    by (simp add: db_ok_def empty_tables_def)
  from ensure_seeded_keeps_books_unique[OF h] h show ?thesis by blast
qed

text \<open>
  C2 (functional, idempotence). A seeding pass that returned can be run again
  from the state it left: the second run returns, changes neither the session
  nor the committed tables, and sends no request.
\<close>

theorem ensure_seeded_idempotent:
  assumes "ensure_seeded_curated_from shelves n (s, w) = (Inr (), (s', w'))"
  shows "ensure_seeded_curated_from shelves n (s', w') = (Inr (), (s', w'))"
  using assms
proof (cases rule: ensure_seeded_cases)
  case noop
  then show ?thesis by (simp add: ensure_seeded_unfold)
next
  case (failed e)
  then show ?thesis by simp
next
  case (seeded s1)
  then have "\<forall>item \<in> set (all_items shelves). present item (commit s1)"
    by (auto dest: run_seed_present_after)
  then have "run_list seed_item (all_items shelves) (commit s1, w') = (Inr (), (commit s1, w'))"
    by (rule run_seed_present)
  with seeded show ?thesis by (simp add: ensure_seeded_unfold)
qed

theorem ensure_seeded_idempotent_witness:
  "ensure_seeded_curated_from demo_shelves 250 (new_session empty_tables, demo_world) =
     (Inr (), (new_session (empty_tables\<lparr>books := [demo_book]\<rparr>), demo_world\<lparr>calls := [demo_url]\<rparr>))
   \<and> ensure_seeded_curated_from demo_shelves 250
       (new_session (empty_tables\<lparr>books := [demo_book]\<rparr>), demo_world\<lparr>calls := [demo_url]\<rparr>) =
     (Inr (), (new_session (empty_tables\<lparr>books := [demo_book]\<rparr>), demo_world\<lparr>calls := [demo_url]\<rparr>))"
  using ensure_seeded_idempotent[OF demo_seed] demo_seed by simp

text \<open>
  C3 (safety, atomicity of the batch commit). When a seeding pass raises, the
  committed tables are what they were before the pass, and the exception is an
  \<open>AttributeError\<close> or a \<open>TypeError\<close> of the matcher: the pass itself never
  violates the unique constraint.
\<close>

theorem ensure_seeded_failure_atomic:
  assumes "ensure_seeded_curated_from shelves n (s, w) = (Inl e, (s', w'))"
  shows "durable s' = durable s \<and> (e = AttributeError \<or> e = TypeError)"
  using assms
proof (cases rule: ensure_seeded_cases)
  case (failed e')
  then show ?thesis
    using run_seed_extends[of "all_items shelves" s w "Inl e" s' w'] run_seed_Inl
    by (auto simp: extends_def)
qed simp_all

theorem ensure_seeded_failure_atomic_witness:
  "ensure_seeded_curated_from two_shelves 250 (new_session empty_tables, flaky_world) =
     (Inl AttributeError,
      (\<lparr>live = empty_tables\<lparr>books := [demo_book]\<rparr>, durable = empty_tables\<rparr>,
       flaky_world\<lparr>calls := [demo_url, dune_url]\<rparr>))
   \<and> durable \<lparr>live = empty_tables\<lparr>books := [demo_book]\<rparr>, durable = empty_tables\<rparr>
       = durable (new_session empty_tables)"
  using ensure_seeded_failure_atomic[OF flaky_seed] flaky_seed by simp

text \<open>
  C4 (functional, short circuit). When the Book table already holds at least
  \<open>min_books\<close> rows, the pass returns at once: the session is unchanged and no
  request is sent.
\<close>

theorem ensure_seeded_noop_at_threshold:
  assumes "n \<le> int (book_count s)"
  shows "ensure_seeded_curated_from shelves n (s, w) = (Inr (), (s, w))"
  using assms by (simp add: ensure_seeded_unfold)

theorem ensure_seeded_noop_at_threshold_witness:
  "(1 :: int) \<le> int (book_count (new_session (empty_tables\<lparr>books := [demo_book]\<rparr>)))
   \<and> ensure_seeded_curated (1 :: int) (new_session (empty_tables\<lparr>books := [demo_book]\<rparr>), demo_world)
     = (Inr (), (new_session (empty_tables\<lparr>books := [demo_book]\<rparr>), demo_world))"
proof -
  have h: "(1 :: int) \<le> int (book_count (new_session (empty_tables\<lparr>books := [demo_book]\<rparr>)))"
    by (simp add: book_count_def)
  from ensure_seeded_noop_at_threshold[OF h] h show ?thesis
    by (simp add: ensure_seeded_curated_def)
qed

text \<open>
  C5 (functional). One request per new row: over a whole pass, the number of
  requests sent equals the number of rows added, plus one when the pass raised
  (the request whose answer made the matcher raise).
\<close>

theorem seed_one_request_per_row:
  assumes "ensure_seeded_curated_from shelves n (s, w) = (r, (s', w'))"
  shows "length (calls w') + book_count s =
         length (calls w) + book_count s' + (if is_ok r then 0 else 1)"
  using assms
proof (cases rule: ensure_seeded_cases)
  case noop
  then show ?thesis by simp
next
  case (failed e)
  with run_seed_count[OF failed(3)] show ?thesis by simp
next
  case (seeded s1)
  with run_seed_count[OF seeded(4)] show ?thesis by simp
qed

theorem seed_one_request_per_row_witness:
  "length (calls (flaky_world\<lparr>calls := [demo_url, dune_url]\<rparr>)) + book_count (new_session empty_tables) =
   length (calls flaky_world)
     + book_count \<lparr>live = empty_tables\<lparr>books := [demo_book]\<rparr>, durable = empty_tables\<rparr>
     + (if is_ok (Inl AttributeError :: unit result) then 0 else 1)"
  using seed_one_request_per_row[OF flaky_seed] by simp

text \<open>
  C6 (functional). A curated item whose (title, author) is already in the Book
  table is skipped: the session is unchanged and no request is sent for it.
\<close>

theorem seed_item_skips_existing:
  assumes "find_book (strip t) (strip a) s \<noteq> None"
  shows "seed_item (t, a, g) (s, w) = (Inr (), (s, w))"
  using assms by (intro seed_item_present) (simp add: present_def)

theorem seed_item_skips_existing_witness:
  "find_book (strip '' 1984'') (strip ''George Orwell '') (new_session (empty_tables\<lparr>books := [demo_book]\<rparr>)) \<noteq> None
   \<and> seed_item ('' 1984'', ''George Orwell '', ''Classics'')
        (new_session (empty_tables\<lparr>books := [demo_book]\<rparr>), demo_world)
      = (Inr (), (new_session (empty_tables\<lparr>books := [demo_book]\<rparr>), demo_world))"
proof -
  have h: "find_book (strip '' 1984'') (strip ''George Orwell '')
      (new_session (empty_tables\<lparr>books := [demo_book]\<rparr>)) \<noteq> None"
    by (simp add: catalog_eval pystr_eval demo_book_def)
  from seed_item_skips_existing[OF h] h show ?thesis by blast
qed

text \<open>
  C7 (functional, completeness). After a pass that ran the loops and returned,
  every curated item is skipped by the loop body (its row exists, or its title
  or author is blank), and nothing is left uncommitted.
\<close>

theorem ensure_seeded_complete:
  assumes "ensure_seeded_curated_from shelves n (s, w) = (Inr (), (s', w'))"
    and "int (book_count s) < n"
  shows "list_all (\<lambda>item. present item s') (all_items shelves) \<and> live s' = durable s'"
  using assms
proof (cases rule: ensure_seeded_cases)
  case (seeded s1)
  then show ?thesis by (auto simp: list_all_iff dest: run_seed_present_after)
qed simp_all

theorem ensure_seeded_complete_witness:
  "int (book_count (new_session empty_tables)) < 250
   \<and> list_all (\<lambda>item. present item (new_session (empty_tables\<lparr>books := [demo_book]\<rparr>)))
        (all_items demo_shelves)
   \<and> live (new_session (empty_tables\<lparr>books := [demo_book]\<rparr>))
       = durable (new_session (empty_tables\<lparr>books := [demo_book]\<rparr>))"
proof -
  have h: "int (book_count (new_session empty_tables)) < 250"
    by (simp add: book_count_def empty_tables_def)
  from ensure_seeded_complete[OF demo_seed h] h show ?thesis by blast
qed

text \<open>
  Every row the seeder adds has a cover that agrees with its
  identifiers: the stored cover is the URL that \<open>_ol_cover_url\<close> builds from
  the stored cover id, ISBN and edition id, or the placeholder when that URL is
  empty. If the table satisfied this before a pass, it satisfies it after.
\<close>

theorem ensure_seeded_rows_consistent:
  assumes "list_all cover_consistent (books (live s))"
  shows "list_all cover_consistent (books (live (fst (snd (ensure_seeded_curated_from shelves n (s, w))))))"
proof -
  let ?I = "\<lambda>st. list_all cover_consistent (books (live (fst st)))"
  have loop: "?I st'" if "run_list seed_item items (s, w) = (r, st')" for items r st'
  proof (rule run_list_invariant[where I = ?I and body = seed_item, OF _ _ that])
    show "?I (s, w)" using assms by simp
    show "?I st2" if "?I st1" "seed_item x st1 = (r, st2)" for x st1 r st2
      using that seed_item_consistent[of x "fst st1" "snd st1" r "fst st2" "snd st2"] by simp
  qed
  obtain r s' w' where run: "ensure_seeded_curated_from shelves n (s, w) = (r, (s', w'))"
    by (metis surj_pair)
  from run have "list_all cover_consistent (books (live s'))"
    using assms loop by (cases rule: ensure_seeded_cases) fastforce+
  with run show ?thesis by simp
qed

theorem ensure_seeded_rows_consistent_witness:
  "list_all cover_consistent (books (live (new_session empty_tables)))
   \<and> list_all cover_consistent (books (live (fst (snd
        (ensure_seeded_curated_from two_shelves 1 (new_session empty_tables, demo_world))))))"
proof -
  have h: "list_all cover_consistent (books (live (new_session empty_tables)))"
    by (simp add: empty_tables_def)
  from ensure_seeded_rows_consistent[OF h] h show ?thesis by blast
qed

text \<open>
  A seeding pass that raises at start-up leaves no trace in the
  database: leaving the application context rolls the session back, so a
  session that had nothing pending is exactly what it was.
\<close>

theorem startup_failure_restores_session:
  assumes "live s = durable s"
    and "with_app_context (ensure_seeded_curated_from shelves n) (s, w) = (Inl e, (s', w'))"
  shows "s' = s"
proof -
  from assms(2) obtain s1 where
    run: "ensure_seeded_curated_from shelves n (s, w) = (Inl e, (s1, w'))" and s': "s' = rollback s1"
    by (auto simp: with_app_context_def split: prod.splits)
  from run have "durable s1 = durable s"
    by (cases rule: ensure_seeded_cases) (auto dest: run_seed_extends simp: extends_def)
  with assms(1) show ?thesis unfolding s' by (cases s; cases s1) (simp add: rollback_def)
qed

theorem startup_failure_restores_session_witness:
  "live (new_session empty_tables) = durable (new_session empty_tables)
   \<and> with_app_context (ensure_seeded_curated_from two_shelves 250) (new_session empty_tables, flaky_world)
       = (Inl AttributeError, (new_session empty_tables, flaky_world\<lparr>calls := [demo_url, dune_url]\<rparr>))"
proof -
  have h: "live (new_session empty_tables) = durable (new_session empty_tables)" by simp
  have run: "with_app_context (ensure_seeded_curated_from two_shelves 250) (new_session empty_tables, flaky_world)
       = (Inl AttributeError, (rollback \<lparr>live = empty_tables\<lparr>books := [demo_book]\<rparr>, durable = empty_tables\<rparr>,
            flaky_world\<lparr>calls := [demo_url, dune_url]\<rparr>))"
    by (simp add: with_app_context_def flaky_seed)
  from startup_failure_restores_session[OF h run] run h show ?thesis by simp
qed

text \<open>
  The threshold is tested once, before the loops: a pass that
  starts below \<open>min_books\<close> handles every curated item, also after the table
  has reached \<open>min_books\<close>. With two items and a threshold of one, both rows
  are added. (The docstring of the function says that it keeps going until the
  table has \<open>min_total\<close> rows.)
\<close>

theorem seeding_does_not_stop_at_threshold:
  "book_count (fst (snd (ensure_seeded_curated_from two_shelves 1
      (new_session empty_tables, demo_world)))) = 2"
  by (simp add: two_seed book_count_def)

text \<open>
  The default genre applies to an empty genre only: a genre
  of white space is stored as the empty string, not as \<open>Other\<close>, because the
  default is chosen before the genre is stripped.
\<close>

theorem blank_genre_is_stored_empty:
  "map b_genre (books (durable (fst (snd (ensure_seeded_curated_from two_shelves 1
      (new_session empty_tables, demo_world)))))) = [''Classics'', []]"
  by (simp add: two_seed demo_book_def dune_book_def)

text \<open>
  C21 (refinement). Seen as a set of (title, author) pairs, a pass that runs
  the loops and returns is a union: the table holds afterwards exactly the
  pairs it held before and the pairs of the curated items, stripped, with a
  non-blank title and author; and the committed table holds the same pairs.
\<close>

theorem ensure_seeded_adds_the_curated_keys:
  assumes "ensure_seeded_curated_from shelves n (s, w) = (Inr (), (s', w'))"
    and "int (book_count s) < n"
  shows "keys s' = keys s \<union> curated_keys (all_items shelves)
       \<and> book_key ` set (books (durable s')) = keys s'"
  using assms
proof (cases rule: ensure_seeded_cases)
  case (seeded s1)
  with run_seed_keys[OF seeded(4)] show ?thesis by (simp add: keys_def)
qed simp_all

theorem ensure_seeded_adds_the_curated_keys_witness:
  "keys (new_session (empty_tables\<lparr>books := [demo_book]\<rparr>)) = {(''1984'', ''George Orwell'')}
   \<and> curated_keys (all_items demo_shelves) = {(''1984'', ''George Orwell'')}"
proof -
  have h: "int (book_count (new_session empty_tables)) < 250"
    by (simp add: book_count_def empty_tables_def)
  have "keys (new_session empty_tables) = {}" by (simp add: keys_def empty_tables_def)
  moreover have "curated_keys (all_items demo_shelves) = {(''1984'', ''George Orwell'')}"
    by (simp add: all_items_def demo_shelves_def item_key_def pystr_eval)
  ultimately show ?thesis using ensure_seeded_adds_the_curated_keys[OF demo_seed h] by simp
qed

end
