(* ===== verification/BookRoutes.thy ===== *)
theory BookRoutes
  imports Seeder
begin

text \<open>
  The two places outside the seeder that add rows to \<open>Book\<close>
  (\<open>src/main.py\<close>, \<open>get_or_create_book_row\<close> and the route \<open>/add-book\<close>).

  \<open>ui_book\<close> is the dict that the templates receive for a book, with the
  keys these functions read; \<open>get_or_create_book_row\<close> takes any extension
  of it. \<open>book_form\<close> is the submitted form of \<open>/add-book\<close>, every form_field
  \<open>None\<close> when it is absent; \<open>add_book\<close> is the handler over the session and
  the network, and its result says which page the response leads to. Both
  functions look the row up before they add it and commit at once.
\<close>

section \<open>Definitions\<close>

record ui_book =
  ub_title :: string
  ub_author :: string
  ub_genre :: string
  ub_year :: string
  ub_cover :: string

definition or_default :: "string \<Rightarrow> string \<Rightarrow> string" where
  "or_default s d = (if s = [] then d else s)"

definition get_or_create_book_row :: "'a ui_book_scheme \<Rightarrow> (book option, session) prog" where
  "get_or_create_book_row book_dict s =
     (let title = strip (ub_title book_dict);
          author = strip (ub_author book_dict)
      in if title = [] \<or> author = [] then (Inr None, s)
         else case find_book title author s of
                Some existing \<Rightarrow> (Inr (Some existing), s)
              | None \<Rightarrow>
                  (case insert_book
                          \<lparr>b_id = 0, b_title = title, b_author = author,
                           b_genre = or_default (ub_genre book_dict) ''Other'',
                           b_year = ub_year book_dict,
                           b_cover = or_default (ub_cover book_dict) PLACEHOLDER_COVER,
                           b_olid = [], b_cover_i = [], b_isbn = []\<rparr> s of
                     (Inl e, s') \<Rightarrow> (Inl e, s')
                   | (Inr b, s') \<Rightarrow> (Inr (Some b), commit s')))"

datatype http_method = GET | POST

record book_form =
  bf_title :: "string option"
  bf_author :: "string option"
  bf_genre :: "string option"
  bf_year :: "string option"
  bf_cover :: "string option"

datatype add_book_page = ShowForm | MissingFields | AlreadyExists | Added

definition form_field :: "string option \<Rightarrow> string" where
  "form_field v = strip (case v of None \<Rightarrow> [] | Some s \<Rightarrow> s)"

definition added_book :: "book_form \<Rightarrow> ol_meta option \<Rightarrow> book" where
  "added_book form meta =
     \<lparr>b_id = 0, b_title = form_field (bf_title form), b_author = form_field (bf_author form),
      b_genre = or_default (form_field (bf_genre form)) ''Other'',
      b_year = or_default (form_field (bf_year form)) (meta_get m_year meta),
      b_cover = or_default (meta_get m_cover meta)
                  (or_default (form_field (bf_cover form)) PLACEHOLDER_COVER),
      b_olid = meta_get m_olid meta, b_cover_i = meta_get m_cover_i meta,
      b_isbn = meta_get m_isbn meta\<rparr>"

definition add_book :: "http_method \<Rightarrow> book_form \<Rightarrow> (add_book_page, session \<times> world) prog" where
  "add_book verb form st =
     (case st of (s, w) \<Rightarrow>
        if verb = POST
        then let title = form_field (bf_title form);
                 author = form_field (bf_author form)
             in if title = [] \<or> author = [] then (Inr MissingFields, (s, w))
                else if find_book title author s \<noteq> None then (Inr AlreadyExists, (s, w))
                else case ol_best_match title author w of
                       (Inl e, w') \<Rightarrow> (Inl e, (s, w'))
                     | (Inr meta, w') \<Rightarrow>
                         (case insert_book (added_book form meta) s of
                            (Inl e, s') \<Rightarrow> (Inl e, (s', w'))
                          | (Inr _, s') \<Rightarrow> (Inr Added, (commit s', w')))
        else (Inr ShowForm, (s, w)))"

section \<open>Example inputs\<close>

definition gatsby :: ui_book where
  "gatsby = \<lparr>ub_title = ''The Great Gatsby'', ub_author = ''F. Scott Fitzgerald'',
     ub_genre = ''Classics'', ub_year = [],
     ub_cover = ''https://covers.openlibrary.org/b/id/7222246-L.jpg''\<rparr>"

definition gatsby_book :: book where
  "gatsby_book = \<lparr>b_id = 1, b_title = ''The Great Gatsby'', b_author = ''F. Scott Fitzgerald'',
     b_genre = ''Classics'', b_year = [],
     b_cover = ''https://covers.openlibrary.org/b/id/7222246-L.jpg'',
     b_olid = [], b_cover_i = [], b_isbn = []\<rparr>"

definition orwell_form :: book_form where
  "orwell_form = \<lparr>bf_title = Some '' 1984'', bf_author = Some ''George Orwell '',
     bf_genre = Some ''  '', bf_year = None, bf_cover = None\<rparr>"

section \<open>Lemmas\<close>

lemmas routes_eval = get_or_create_book_row_def add_book_def added_book_def form_field_def
  or_default_def gatsby_def gatsby_book_def orwell_form_def

lemma or_default_nonempty [simp]: "d \<noteq> [] \<Longrightarrow> or_default s d \<noteq> []"
  by (simp add: or_default_def)

lemma strip_field [simp]: "strip (form_field v) = form_field v"
  by (simp add: form_field_def)

lemma added_book_key [simp]:
  "b_title (added_book form meta) = form_field (bf_title form)"
  "b_author (added_book form meta) = form_field (bf_author form)"
  by (simp_all add: added_book_def)

lemma insert_book_find:
  assumes "insert_book b s = (Inr b', s')"
  shows "find_book (b_title b) (b_author b) s' = Some b'"
    and "book_count s' = Suc (book_count s)" and "durable s' = durable s"
    and "0 < b_id b'" and "b_title b' = b_title b" and "b_author b' = b_author b"
  using assms
  by (auto simp: insert_book_Inr_iff find_book_def book_count_def find_append_None)

subsection \<open>The row behind a page\<close>

lemma get_or_create_blank:
  "strip (ub_title d) = [] \<or> strip (ub_author d) = [] \<Longrightarrow>
     get_or_create_book_row d s = (Inr None, s)"
  by (auto simp: get_or_create_book_row_def)

lemma get_or_create_existing:
  "strip (ub_title d) \<noteq> [] \<Longrightarrow> strip (ub_author d) \<noteq> [] \<Longrightarrow>
   find_book (strip (ub_title d)) (strip (ub_author d)) s = Some b \<Longrightarrow>
     get_or_create_book_row d s = (Inr (Some b), s)"
  by (simp add: get_or_create_book_row_def)

lemma get_or_create_new:
  assumes "strip (ub_title d) \<noteq> []" and "strip (ub_author d) \<noteq> []"
    and "find_book (strip (ub_title d)) (strip (ub_author d)) s = None"
  obtains b s1 where "get_or_create_book_row d s = (Inr (Some b), commit s1)"
    and "find_book (strip (ub_title d)) (strip (ub_author d)) s1 = Some b"
    and "book_count s1 = Suc (book_count s)"
    and "insert_book \<lparr>b_id = 0, b_title = strip (ub_title d), b_author = strip (ub_author d),
           b_genre = or_default (ub_genre d) ''Other'', b_year = ub_year d,
           b_cover = or_default (ub_cover d) PLACEHOLDER_COVER,
           b_olid = [], b_cover_i = [], b_isbn = []\<rparr> s = (Inr b, s1)"
proof -
  let ?b = "\<lparr>b_id = 0, b_title = strip (ub_title d), b_author = strip (ub_author d),
           b_genre = or_default (ub_genre d) ''Other'', b_year = ub_year d,
           b_cover = or_default (ub_cover d) PLACEHOLDER_COVER,
           b_olid = [], b_cover_i = [], b_isbn = []\<rparr>"
  from assms(3) obtain b s1 where ins: "insert_book ?b s = (Inr b, s1)"
    using insert_book_fresh[of ?b s] by simp
  from insert_book_find[OF ins] assms ins that[of b s1] show thesis
    by (simp add: get_or_create_book_row_def)
qed

lemma get_or_create_db_ok:
  assumes "get_or_create_book_row d s = (r, s')" and "db_ok s"
  shows "db_ok s'"
  using assms
  by (auto simp: get_or_create_book_row_def Let_def
      dest: insert_book_db_ok commit_db_ok split: option.splits prod.splits sum.splits if_splits)

subsection \<open>Adding a book by hand\<close>

lemma add_book_GET [simp]: "add_book GET form st = (Inr ShowForm, st)"
  by (cases st) (simp add: add_book_def)

lemma add_book_missing:
  "form_field (bf_title form) = [] \<or> form_field (bf_author form) = [] \<Longrightarrow>
     add_book POST form st = (Inr MissingFields, st)"
  by (cases st) (auto simp: add_book_def)

lemma add_book_exists:
  "form_field (bf_title form) \<noteq> [] \<Longrightarrow> form_field (bf_author form) \<noteq> [] \<Longrightarrow>
   find_book (form_field (bf_title form)) (form_field (bf_author form)) s \<noteq> None \<Longrightarrow>
     add_book POST form (s, w) = (Inr AlreadyExists, (s, w))"
  by (simp add: add_book_def)

lemma add_book_new:
  assumes "form_field (bf_title form) \<noteq> []" and "form_field (bf_author form) \<noteq> []"
    and "find_book (form_field (bf_title form)) (form_field (bf_author form)) s = None"
    and "ol_best_match (form_field (bf_title form)) (form_field (bf_author form)) w = (r, w')"
  shows "add_book POST form (s, w) =
     (case r of
        Inl e \<Rightarrow> (Inl e, (s, w'))
      | Inr meta \<Rightarrow> (Inr Added, (commit (snd (insert_book (added_book form meta) s)), w')))"
proof (cases r)
  case (Inl e)
  with assms show ?thesis by (simp add: add_book_def)
next
  case (Inr meta)
  from assms(3) obtain b1 s1 where "insert_book (added_book form meta) s = (Inr b1, s1)"
    using insert_book_fresh[of "added_book form meta" s] by simp
  with assms Inr show ?thesis by (simp add: add_book_def)
qed

lemma add_book_cases [consumes 1, case_names form missing exists failed added]:
  assumes "add_book verb form (s, w) = (r, (s', w'))"
  obtains "verb = GET" "r = Inr ShowForm" "s' = s" "w' = w"
  | "verb = POST" "form_field (bf_title form) = [] \<or> form_field (bf_author form) = []"
      "r = Inr MissingFields" "s' = s" "w' = w"
  | "verb = POST" "find_book (form_field (bf_title form)) (form_field (bf_author form)) s \<noteq> None"
      "r = Inr AlreadyExists" "s' = s" "w' = w"
  | e where "verb = POST" "r = Inl e" "s' = s"
      "ol_best_match (form_field (bf_title form)) (form_field (bf_author form)) w = (Inl e, w')"
  | meta b s1 where "verb = POST" "r = Inr Added" "s' = commit s1"
      "form_field (bf_title form) \<noteq> []" "form_field (bf_author form) \<noteq> []"
      "ol_best_match (form_field (bf_title form)) (form_field (bf_author form)) w = (Inr meta, w')"
      "insert_book (added_book form meta) s = (Inr b, s1)"
proof (cases verb)
  case GET
  with assms that(1) show thesis by simp
next
  case POST
  show thesis
  proof (cases "form_field (bf_title form) = [] \<or> form_field (bf_author form) = []")
    case True
    with assms POST that(2) show thesis by (simp add: add_book_missing)
  next
    case ne: False
    show thesis
    proof (cases "find_book (form_field (bf_title form)) (form_field (bf_author form)) s")
      case (Some b)
      with assms POST ne that(3) show thesis by (simp add: add_book_exists)
    next
      case None
      obtain r0 w0 where m: "ol_best_match (form_field (bf_title form)) (form_field (bf_author form)) w = (r0, w0)"
        by fastforce
      show thesis
      proof (cases r0)
        case (Inl e)
        with assms POST ne None m have "r = Inl e" "s' = s" "w' = w0"
          by (simp_all add: add_book_new)
        with POST m Inl that(4) show thesis by blast
      next
        case (Inr meta)
        from None obtain b1 s1 where ins: "insert_book (added_book form meta) s = (Inr b1, s1)"
          using insert_book_fresh[of "added_book form meta" s] by simp
        with assms POST ne None m Inr have "r = Inr Added" "s' = commit s1" "w' = w0"
          by (simp_all add: add_book_new)
        with POST ne m Inr ins that(5) show thesis by blast
      qed
    qed
  qed
qed

subsection \<open>Examples\<close>

lemma orwell_added:
  "add_book POST orwell_form (new_session empty_tables, demo_world) =
     (Inr Added,
      (new_session (empty_tables\<lparr>books := [demo_book\<lparr>b_genre := ''Other''\<rparr>]\<rparr>),
       demo_world\<lparr>calls := [demo_url]\<rparr>))"
proof -
  have f: "form_field (bf_title orwell_form) = ''1984''"
    "form_field (bf_author orwell_form) = ''George Orwell''"
    "form_field (bf_genre orwell_form) = []" "form_field (bf_year orwell_form) = []"
    "form_field (bf_cover orwell_form) = []"
    by (simp_all add: form_field_def orwell_form_def pystr_eval)
  show ?thesis
    by (simp add: add_book_def added_book_def f demo_match or_default_def meta_get_def
        demo_book_def catalog_eval)
qed

lemma gatsby_row:
  "get_or_create_book_row gatsby (new_session empty_tables) =
     (Inr (Some gatsby_book), new_session (empty_tables\<lparr>books := [gatsby_book]\<rparr>))"
proof -
  have f: "strip (ub_title gatsby) = ''The Great Gatsby''"
    "strip (ub_author gatsby) = ''F. Scott Fitzgerald''"
    by (simp_all add: gatsby_def pystr_eval)
  show ?thesis
    by (simp add: get_or_create_book_row_def f or_default_def catalog_eval gatsby_book_def)
       (simp add: gatsby_def)
qed

lemma db_ok_empty: "db_ok (new_session empty_tables)"
  by (simp add: db_ok_new_session empty_tables_def)

section \<open>Properties\<close>

text \<open>
  C28 (invariant). \<open>/add-book\<close> keeps the \<open>Book\<close> table well formed and never fails on
  the unique constraint, because it looks the pair up first. When it answers
  that the book was added there is exactly one more row, it is found under the
  stripped title and author, and everything is committed; in every other case,
  the failure of the matcher included, the session is as it was.
\<close>

theorem add_book_keeps_books_unique:
  assumes "add_book verb form (s, w) = (r, (s', w'))" and "db_ok s"
  shows "db_ok s' \<and> r \<noteq> Inl IntegrityError
       \<and> (if r = Inr Added
          then book_count s' = Suc (book_count s) \<and> durable s' = live s'
             \<and> find_book (form_field (bf_title form)) (form_field (bf_author form)) s' \<noteq> None
          else s' = s)"
  using assms(1)
proof (cases rule: add_book_cases)
  case (failed e)
  with assms(2) ol_best_match_Inl[OF failed(4)] show ?thesis by auto
next
  case (added meta b s1)
  from insert_book_find[OF added(7)] insert_book_db_ok[OF added(7) assms(2)] added
  show ?thesis by (simp add: commit_db_ok)
qed (use assms(2) in simp_all)

theorem add_book_keeps_books_unique_witness:
  "db_ok (new_session (empty_tables\<lparr>books := [demo_book\<lparr>b_genre := ''Other''\<rparr>]\<rparr>))
   \<and> find_book ''1984'' ''George Orwell''
        (new_session (empty_tables\<lparr>books := [demo_book\<lparr>b_genre := ''Other''\<rparr>]\<rparr>)) \<noteq> None"
proof -
  have "form_field (bf_title orwell_form) = ''1984''"
    "form_field (bf_author orwell_form) = ''George Orwell''"
    by (simp_all add: form_field_def orwell_form_def pystr_eval)
  with add_book_keeps_books_unique[OF orwell_added db_ok_empty] show ?thesis by simp
qed

text \<open>
  \<open>get_or_create_book_row\<close> never raises. It returns no row exactly
  when the stripped title or author is empty; otherwise the row it returns
  carries the stripped title and author, and asking again from the state it
  left returns the same row and changes nothing.
\<close>

theorem get_or_create_book_row_idempotent:
  assumes "get_or_create_book_row d s = (r, s')"
  shows "\<exists>row. r = Inr row \<and> get_or_create_book_row d s' = (Inr row, s')
       \<and> (row = None \<longleftrightarrow> strip (ub_title d) = [] \<or> strip (ub_author d) = [])
       \<and> (\<forall>b. row = Some b \<longrightarrow>
              b_title b = strip (ub_title d) \<and> b_author b = strip (ub_author d))"
proof (cases "strip (ub_title d) = [] \<or> strip (ub_author d) = []")
  case True
  with assms show ?thesis by (auto simp: get_or_create_blank)
next
  case ne: False
  show ?thesis
  proof (cases "find_book (strip (ub_title d)) (strip (ub_author d)) s")
    case (Some b)
    with assms ne show ?thesis by (auto simp: get_or_create_existing dest: find_book_Some)
  next
    case None
    with ne obtain b s1 where "get_or_create_book_row d s = (Inr (Some b), commit s1)"
      "find_book (strip (ub_title d)) (strip (ub_author d)) s1 = Some b"
      by (auto elim: get_or_create_new)
    with assms ne show ?thesis by (auto simp: get_or_create_existing dest: find_book_Some)
  qed
qed

theorem get_or_create_book_row_idempotent_witness:
  "get_or_create_book_row gatsby (new_session (empty_tables\<lparr>books := [gatsby_book]\<rparr>)) =
     (Inr (Some gatsby_book), new_session (empty_tables\<lparr>books := [gatsby_book]\<rparr>))"
  using get_or_create_book_row_idempotent[OF gatsby_row] by auto

end
