(* ===== verification/BookList.thy ===== *)
theory BookList
  imports Complex_Main "HOL-Library.Multiset" BookRoutes
begin

text \<open>
  The list of books behind every page (\<open>src/main.py\<close>: \<open>BOOKS\<close>,
  \<open>_DEMO_COVER_CACHE\<close>, \<open>all_books_ui\<close>) and the routes that filter and sort
  it (\<open>home\<close>, \<open>browse\<close>, \<open>top_rated\<close>, \<open>/api/search\<close>).

  The state of the application is an \<open>app_state\<close>: the database session,
  the network and the cache of demo covers, a dict of the module that lives
  as long as the process. \<open>demo_best_cover\<close> is the cache lookup with the
  one-time call of the matcher, \<open>demo_item\<close> the body of the first loop of
  \<open>all_books_ui\<close>, \<open>db_row\<close> the body of the second, which reads the stored
  identifiers and the reviews. \<open>all_books_ui_of\<close> is the function for any list
  of demo books and \<open>all_books_ui\<close> the function on \<open>BOOKS\<close>.

  A rating is a rational number: the decimal literals of \<open>BOOKS\<close> and the
  averages of integer ratings are the numbers they denote, and the rounding of
  binary floats is not modelled. \<open>sorted_by_rating\<close> is
  \<open>sorted(books, key=rating, reverse=True)\<close>, which keeps rows of equal
  rating in their order.
\<close>

section \<open>Demo books and their covers\<close>

record demo_entry =
  d_title :: string
  d_author :: string
  d_genre :: string
  d_rating :: rat
  d_cover :: string

definition BOOKS :: "demo_entry list" where
  "BOOKS =
    [\<lparr>d_title = ''The Great Gatsby'', d_author = ''F. Scott Fitzgerald'', d_genre = ''Classics'',
      d_rating = 440 / 100, d_cover = ''https://covers.openlibrary.org/b/id/7222246-L.jpg''\<rparr>,
     \<lparr>d_title = ''Jane Eyre'', d_author = ''Charlotte '' @ bronte, d_genre = ''Romance'',
      d_rating = 430 / 100, d_cover = ''https://covers.openlibrary.org/b/id/8226098-L.jpg''\<rparr>,
     \<lparr>d_title = ''1984'', d_author = ''George Orwell'', d_genre = ''Dystopian'',
      d_rating = 460 / 100, d_cover = ''https://covers.openlibrary.org/b/id/7222246-L.jpg''\<rparr>,
     \<lparr>d_title = ''Frankenstein'', d_author = ''Mary Shelley'', d_genre = ''Horror'',
      d_rating = 420 / 100, d_cover = ''https://covers.openlibrary.org/b/id/8378631-L.jpg''\<rparr>,
     \<lparr>d_title = ''Crime and Punishment'', d_author = ''Fyodor Dostoevsky'', d_genre = ''Classics'',
      d_rating = 470 / 100, d_cover = ''https://covers.openlibrary.org/b/id/8100933-L.jpg''\<rparr>,
     \<lparr>d_title = ''The Bell Jar'', d_author = ''Sylvia Plath'', d_genre = ''Literary'',
      d_rating = 410 / 100, d_cover = ''https://covers.openlibrary.org/b/id/8231856-L.jpg''\<rparr>,
     \<lparr>d_title = ''The Picture of Dorian Gray'', d_author = ''Oscar Wilde'', d_genre = ''Gothic'',
      d_rating = 430 / 100, d_cover = ''https://covers.openlibrary.org/b/id/8229216-L.jpg''\<rparr>,
     \<lparr>d_title = ''Moby-Dick'', d_author = ''Herman Melville'', d_genre = ''Adventure'',
      d_rating = 390 / 100, d_cover = ''https://covers.openlibrary.org/b/id/7222276-L.jpg''\<rparr>,
     \<lparr>d_title = ''The Handmaid's Tale'', d_author = ''Margaret Atwood'', d_genre = ''Dystopian'',
      d_rating = 450 / 100, d_cover = ''https://covers.openlibrary.org/b/id/8235116-L.jpg''\<rparr>]"

definition GENRES :: "string list" where
  "GENRES = [''Romance'', ''Fantasy'', ''Horror'', ''Mystery'', ''Non-fiction'',
     ''Sci-Fi'', ''Classics'', ''Dystopian'', ''Gothic'', ''Literary'', ''Adventure'']"

datatype cached = Matched ol_meta | CoverOnly string

fun cached_cover :: "cached \<Rightarrow> string" where
  "cached_cover (Matched m) = m_cover m"
| "cached_cover (CoverOnly c) = c"

record app_state =
  db :: session
  net :: world
  demo_cache :: "string \<times> string \<Rightarrow> cached option"

record rated_book = ui_book +
  ub_rating :: rat

definition cache_entry :: "ol_meta option \<Rightarrow> string \<Rightarrow> cached" where
  "cache_entry meta cover =
     (case meta of
        Some m \<Rightarrow> if m_cover m \<noteq> [] then Matched m else CoverOnly cover
      | None \<Rightarrow> CoverOnly cover)"

definition demo_best_cover :: "demo_entry \<Rightarrow> (string, app_state) prog" where
  "demo_best_cover b st =
     (let key = (d_title b, d_author b);
          cover = d_cover b
      in case demo_cache st key of
           Some e \<Rightarrow> (Inr (or_default (cached_cover e) cover), st)
         | None \<Rightarrow>
             (case ol_best_match (d_title b) (d_author b) (net st) of
                (Inl e, w') \<Rightarrow> (Inl e, st\<lparr>net := w'\<rparr>)
              | (Inr meta, w') \<Rightarrow>
                  (Inr (or_default (cached_cover (cache_entry meta cover)) cover),
                   st\<lparr>net := w', demo_cache := (demo_cache st)(key \<mapsto> cache_entry meta cover)\<rparr>)))"

definition demo_item :: "demo_entry \<Rightarrow> (rated_book, app_state) prog" where
  "demo_item b =
     bnd (demo_best_cover b) (\<lambda>best_cover.
       ret \<lparr>ub_title = d_title b, ub_author = d_author b, ub_genre = d_genre b, ub_year = [],
            ub_cover = or_default best_cover PLACEHOLDER_COVER, ub_rating = d_rating b\<rparr>)"

section \<open>Rows of the database\<close>

definition avg_rating :: "string \<Rightarrow> session \<Rightarrow> rat option" where
  "avg_rating title s =
     (let rs = map r_rating (filter (\<lambda>r. r_book_title r = title) (reviews (live s)))
      in if rs = [] then None else Some (of_int (sum_list rs) / of_nat (length rs)))"

definition db_row :: "session \<Rightarrow> book \<Rightarrow> rated_book" where
  "db_row s bk =
     (let built = ol_cover_url (b_cover_i bk) (b_isbn bk) (b_olid bk);
          final_cover = or_default built (or_default (b_cover bk) PLACEHOLDER_COVER)
      in \<lparr>ub_title = b_title bk, ub_author = b_author bk,
           ub_genre = or_default (b_genre bk) ''Other'', ub_year = b_year bk,
           ub_cover = final_cover,
           ub_rating = (case avg_rating (b_title bk) s of None \<Rightarrow> 0 | Some a \<Rightarrow> a)\<rparr>)"

definition all_books_ui_of :: "demo_entry list \<Rightarrow> (rated_book list, app_state) prog" where
  "all_books_ui_of demo_books =
     bnd (map_prog demo_item demo_books) (\<lambda>demo st.
       (Inr (demo @ map (db_row (db st)) (books (live (db st)))), st))"

definition all_books_ui :: "(rated_book list, app_state) prog" where
  "all_books_ui = all_books_ui_of BOOKS"

section \<open>Routes over the list\<close>

definition matches :: "string \<Rightarrow> rated_book \<Rightarrow> bool" where
  "matches q b \<longleftrightarrow> py_in q (lower (ub_title b)) \<or> py_in q (lower (ub_author b))"

definition sorted_by_rating :: "rated_book list \<Rightarrow> rated_book list" where
  "sorted_by_rating bs = sort_key (\<lambda>b. - ub_rating b) bs"

definition browse_filter :: "string \<Rightarrow> string \<Rightarrow> rated_book list \<Rightarrow> rated_book list" where
  "browse_filter genre q rows =
     (let by_genre = (if genre \<noteq> [] then filter (\<lambda>b. lower (ub_genre b) = lower genre) rows
                      else rows)
      in if q \<noteq> [] then filter (matches q) by_genre else by_genre)"

definition browse :: "string option \<Rightarrow> string option \<Rightarrow> (rated_book list, app_state) prog" where
  "browse genre_arg q_arg =
     (let genre = form_field genre_arg;
          q = lower (form_field q_arg)
      in bnd all_books_ui (\<lambda>books. ret (browse_filter genre q books)))"

definition top_rated :: "string option \<Rightarrow> (rated_book list, app_state) prog" where
  "top_rated q_arg =
     (let q = lower (form_field q_arg)
      in bnd all_books_ui (\<lambda>all_books.
           ret (browse_filter [] q (sorted_by_rating all_books))))"

record suggestion =
  sg_title :: string
  sg_author :: string
  sg_cover :: string
  sg_rating :: rat
  sg_genre :: string

definition suggest :: "rated_book \<Rightarrow> suggestion" where
  "suggest b = \<lparr>sg_title = ub_title b, sg_author = ub_author b, sg_cover = ub_cover b,
     sg_rating = ub_rating b, sg_genre = ub_genre b\<rparr>"

definition suggestions :: "string \<Rightarrow> rated_book list \<Rightarrow> suggestion list" where
  "suggestions q rows = take 8 (map suggest (filter (matches q) rows))"

definition api_search_books :: "string option \<Rightarrow> (suggestion list, app_state) prog" where
  "api_search_books q_arg =
     (let q = lower (form_field q_arg)
      in if q = [] then ret []
         else bnd all_books_ui (\<lambda>books. ret (suggestions q books)))"

text \<open>
  The home page: the featured book and the six best rated. The featured book
  is the first of the list, or the first of \<open>BOOKS\<close> as it stands there when
  the list is empty, or the empty dict.
\<close>

datatype featured = Listed rated_book | Demo demo_entry | Nothing

definition featured_of :: "demo_entry list \<Rightarrow> rated_book list \<Rightarrow> featured" where
  "featured_of demo_books rows =
     (case rows of
        b # _ \<Rightarrow> Listed b
      | [] \<Rightarrow> (case demo_books of d # _ \<Rightarrow> Demo d | [] \<Rightarrow> Nothing))"

definition home_of :: "demo_entry list \<Rightarrow> (featured \<times> rated_book list, app_state) prog" where
  "home_of demo_books =
     bnd (all_books_ui_of demo_books) (\<lambda>books.
       ret (featured_of demo_books books, take 6 (sorted_by_rating books)))"

definition home :: "(featured \<times> rated_book list, app_state) prog" where
  "home = home_of BOOKS"

section \<open>What the rows satisfy\<close>

definition row_key :: "rated_book \<Rightarrow> string \<times> string" where
  "row_key b = (ub_title b, ub_author b)"

definition demo_key :: "demo_entry \<Rightarrow> string \<times> string" where
  "demo_key b = (d_title b, d_author b)"

section \<open>Example inputs\<close>

definition two_demo :: "demo_entry list" where
  "two_demo = [\<lparr>d_title = ''1984'', d_author = ''George Orwell'', d_genre = ''Dystopian'',
      d_rating = 460 / 100, d_cover = ''https://covers.openlibrary.org/b/id/7222246-L.jpg''\<rparr>]"

definition fresh_app :: app_state where
  "fresh_app = \<lparr>db = new_session empty_tables, net = demo_world, demo_cache = Map.empty\<rparr>"

definition orwell_row :: rated_book where
  "orwell_row = \<lparr>ub_title = ''1984'', ub_author = ''George Orwell'', ub_genre = ''Dystopian'',
     ub_year = [], ub_cover = ''https://covers.openlibrary.org/b/id/123-L.jpg'',
     ub_rating = 460 / 100\<rparr>"

definition warm_app :: app_state where
  "warm_app = \<lparr>db = new_session empty_tables, net = demo_world\<lparr>calls := [demo_url]\<rparr>,
     demo_cache = [(''1984'', ''George Orwell'') \<mapsto>
       Matched \<lparr>m_cover = ''https://covers.openlibrary.org/b/id/123-L.jpg'', m_cover_i = ''123'',
                 m_isbn = ''9780141182636'', m_olid = ''OL1M'', m_year = ''1949''\<rparr>]\<rparr>"

section \<open>Lemmas: the cache\<close>

lemma demo_best_cover_hit:
  "demo_cache st (demo_key b) = Some e \<Longrightarrow>
     demo_best_cover b st = (Inr (or_default (cached_cover e) (d_cover b)), st)"
  by (simp add: demo_best_cover_def demo_key_def)

lemma demo_best_cover_miss:
  "demo_cache st (demo_key b) = None \<Longrightarrow>
     demo_best_cover b st =
       (case ol_best_match (d_title b) (d_author b) (net st) of
          (Inl e, w') \<Rightarrow> (Inl e, st\<lparr>net := w'\<rparr>)
        | (Inr meta, w') \<Rightarrow>
            (Inr (or_default (cached_cover (cache_entry meta (d_cover b))) (d_cover b)),
             st\<lparr>net := w',
                demo_cache := (demo_cache st)(demo_key b \<mapsto> cache_entry meta (d_cover b))\<rparr>))"
  unfolding demo_best_cover_def demo_key_def Let_def by simp

lemma demo_best_cover_state:
  assumes "demo_best_cover b st = (r, st')"
  shows "db st' = db st" and "demo_cache st \<subseteq>\<^sub>m demo_cache st'"
    and "r = Inr c \<Longrightarrow> \<exists>e. demo_cache st' (demo_key b) = Some e
                          \<and> c = or_default (cached_cover e) (d_cover b)"
    and "r = Inl err \<Longrightarrow> (err = AttributeError \<or> err = TypeError)
                          \<and> demo_cache st' = demo_cache st"
    and "respond (net st') = respond (net st)" and "prefix (calls (net st)) (calls (net st'))"
    and "demo_cache st (demo_key b) \<noteq> None \<Longrightarrow> st' = st"
proof -
  show "demo_cache st (demo_key b) \<noteq> None \<Longrightarrow> st' = st"
    using assms by (auto simp: demo_best_cover_hit)
  show "db st' = db st" "demo_cache st \<subseteq>\<^sub>m demo_cache st'"
    "respond (net st') = respond (net st)" "prefix (calls (net st)) (calls (net st'))"
    using assms
    by (cases "demo_cache st (demo_key b)";
        auto simp: demo_best_cover_hit demo_best_cover_miss map_le_def
          split: prod.splits sum.splits dest: ol_best_match_world)+
  show "r = Inr c \<Longrightarrow> \<exists>e. demo_cache st' (demo_key b) = Some e
                          \<and> c = or_default (cached_cover e) (d_cover b)"
    using assms
    by (cases "demo_cache st (demo_key b)")
       (auto simp: demo_best_cover_hit demo_best_cover_miss split: prod.splits sum.splits)
  show "r = Inl err \<Longrightarrow> (err = AttributeError \<or> err = TypeError)
                          \<and> demo_cache st' = demo_cache st"
    using assms
    by (cases "demo_cache st (demo_key b)")
       (auto simp: demo_best_cover_hit demo_best_cover_miss split: prod.splits sum.splits
         dest: ol_best_match_Inl)
qed

lemma demo_item_eq:
  "demo_item b st =
     (case demo_best_cover b st of
        (Inl e, st') \<Rightarrow> (Inl e, st')
      | (Inr c, st') \<Rightarrow>
          (Inr \<lparr>ub_title = d_title b, ub_author = d_author b, ub_genre = d_genre b, ub_year = [],
                 ub_cover = or_default c PLACEHOLDER_COVER, ub_rating = d_rating b\<rparr>, st'))"
  by (simp add: demo_item_def bnd_def ret_def split: prod.splits sum.splits)

lemma demo_item_cover:
  assumes "demo_item b st = (r, st')"
  obtains r0 where "demo_best_cover b st = (r0, st')" "is_ok r0 = is_ok r"
  using assms by (auto simp: demo_item_eq split: prod.splits sum.splits)

lemma demo_item_db: "demo_item b st = (r, st') \<Longrightarrow> db st' = db st"
  by (erule demo_item_cover) (rule demo_best_cover_state)

lemma demo_item_cache_le: "demo_item b st = (r, st') \<Longrightarrow> demo_cache st \<subseteq>\<^sub>m demo_cache st'"
  by (erule demo_item_cover) (rule demo_best_cover_state)

lemma demo_item_net:
  "demo_item b st = (r, st') \<Longrightarrow>
     respond (net st') = respond (net st) \<and> prefix (calls (net st)) (calls (net st'))"
  by (erule demo_item_cover) (auto dest: demo_best_cover_state)

lemma demo_item_row:
  assumes "demo_item b st = (Inr row, st')"
  shows "row_key row = demo_key b \<and> ub_cover row \<noteq> [] \<and> ub_rating row = d_rating b
       \<and> ub_genre row = d_genre b"
  using assms
  by (auto simp: demo_item_eq row_key_def demo_key_def PLACEHOLDER_COVER_nonempty
      split: prod.splits sum.splits)

lemma demo_item_Inl:
  assumes "demo_item b st = (Inl e, st')"
  shows "(e = AttributeError \<or> e = TypeError) \<and> demo_cache st' = demo_cache st"
proof -
  have "demo_best_cover b st = (Inl e, st')"
    using assms by (auto simp: demo_item_eq split: prod.splits sum.splits)
  from demo_best_cover_state(4)[OF this] show ?thesis by simp
qed

text \<open>A book that is in the cache costs no request and leaves the state as it is.\<close>

lemma demo_item_again:
  assumes "demo_item b st = (Inr row, st')" and "demo_cache st' \<subseteq>\<^sub>m demo_cache st2"
  shows "demo_item b st2 = (Inr row, st2)"
proof -
  obtain c where c: "demo_best_cover b st = (Inr c, st')"
    and row: "row = \<lparr>ub_title = d_title b, ub_author = d_author b, ub_genre = d_genre b,
      ub_year = [], ub_cover = or_default c PLACEHOLDER_COVER, ub_rating = d_rating b\<rparr>"
    using assms(1) by (auto simp: demo_item_eq split: prod.splits sum.splits)
  from demo_best_cover_state(3)[OF c] obtain e where e: "demo_cache st' (demo_key b) = Some e"
    "c = or_default (cached_cover e) (d_cover b)"
    by auto
  with assms(2) have "demo_cache st2 (demo_key b) = Some e"
    by (metis map_le_def domI)
  with e(2) row show ?thesis by (simp add: demo_item_eq demo_best_cover_hit)
qed

section \<open>Lemmas: the list\<close>

lemma demo_loop_db:
  "map_prog demo_item ds st = (r, st') \<Longrightarrow> db st' = db st"
  by (rule map_prog_invariant[where I = "\<lambda>t. db t = db st" and f = demo_item and xs = ds])
     (auto dest: demo_item_db)

lemma demo_loop_cache_le:
  "map_prog demo_item ds st = (r, st') \<Longrightarrow> demo_cache st \<subseteq>\<^sub>m demo_cache st'"
  by (rule map_prog_invariant[where I = "\<lambda>t. demo_cache st \<subseteq>\<^sub>m demo_cache t" and f = demo_item
        and xs = ds])
     (auto dest: demo_item_cache_le intro: map_le_trans)

lemma demo_loop_again:
  assumes "map_prog demo_item ds st = (Inr rows, st')" and "demo_cache st' \<subseteq>\<^sub>m demo_cache st2"
  shows "map_prog demo_item ds st2 = (Inr rows, st2)"
  using assms
proof (induction ds arbitrary: st rows)
  case Nil
  then show ?case by simp
next
  case (Cons d ds)
  from Cons.prems(1) obtain y ys s1 where step: "demo_item d st = (Inr y, s1)"
    and rest: "map_prog demo_item ds s1 = (Inr ys, st')" and rows: "rows = y # ys"
    unfolding map_prog_Inr_iff by blast
  from demo_loop_cache_le[OF rest] Cons.prems(2) have "demo_cache s1 \<subseteq>\<^sub>m demo_cache st2"
    by (rule map_le_trans)
  from demo_item_again[OF step this] Cons.IH[OF rest Cons.prems(2)] rows show ?case by simp
qed

lemma demo_loop_rows:
  assumes "map_prog demo_item ds st = (Inr rows, st')"
  shows "map row_key rows = map demo_key ds \<and> list_all (\<lambda>r. ub_cover r \<noteq> []) rows"
proof -
  have "list_all2 (\<lambda>d r. row_key r = demo_key d \<and> ub_cover r \<noteq> []) ds rows"
    by (rule map_prog_all[OF assms]) (auto dest: demo_item_row)
  then show ?thesis
    by (induction rule: list_all2_induct) auto
qed

lemma db_row_cover [simp]: "ub_cover (db_row s bk) \<noteq> []"
  by (simp add: db_row_def Let_def PLACEHOLDER_COVER_nonempty)

lemma db_row_key [simp]: "row_key (db_row s bk) = book_key bk"
  by (simp add: db_row_def row_key_def book_key_def Let_def)

lemma all_books_ui_of_Inr_iff:
  "all_books_ui_of ds st = (Inr rows, st') \<longleftrightarrow>
     (\<exists>demo. map_prog demo_item ds st = (Inr demo, st')
        \<and> rows = demo @ map (db_row (db st')) (books (live (db st'))))"
  by (auto simp: all_books_ui_of_def bnd_eq_Inr_iff)

lemma all_books_ui_of_Inl_iff:
  "all_books_ui_of ds st = (Inl e, st') \<longleftrightarrow> map_prog demo_item ds st = (Inl e, st')"
  by (auto simp: all_books_ui_of_def bnd_eq_Inl_iff)

section \<open>Lemmas: sorting and filtering\<close>

lemma sorted_by_rating_mset [simp]: "mset (sorted_by_rating bs) = mset bs"
  by (simp add: sorted_by_rating_def)

lemma sorted_by_rating_set [simp]: "set (sorted_by_rating bs) = set bs"
  by (simp add: sorted_by_rating_def)

lemma sorted_by_rating_length [simp]: "length (sorted_by_rating bs) = length bs"
  by (simp add: sorted_by_rating_def)

lemma sorted_uminus_rev: "sorted (map uminus xs) \<Longrightarrow> sorted (rev (xs :: rat list))"
  by (induction xs) (auto simp: sorted_append)

lemma sorted_by_rating_desc: "sorted (rev (map ub_rating (sorted_by_rating bs)))"
proof -
  have "sorted (map (\<lambda>b. - ub_rating b) (sorted_by_rating bs))"
    by (simp add: sorted_by_rating_def)
  then have "sorted (map uminus (map ub_rating (sorted_by_rating bs)))"
    by (simp add: comp_def)
  then show ?thesis by (rule sorted_uminus_rev)
qed

lemma sorted_by_rating_stable:
  "filter (\<lambda>b. ub_rating b = r) (sorted_by_rating bs) = filter (\<lambda>b. ub_rating b = r) bs"
  using sort_key_stable[of "\<lambda>b. - ub_rating b" "- r" bs] by (simp add: sorted_by_rating_def)

lemma matches_filter_sublist: "set (filter (matches q) bs) \<subseteq> set bs"
  by auto

section \<open>Lemmas: the whole list\<close>

lemma all_books_ui_of_rows:
  assumes "all_books_ui_of ds st = (Inr rows, st')"
  shows "db st' = db st"
    and "map row_key rows = map demo_key ds @ map book_key (books (live (db st)))"
    and "list_all (\<lambda>r. ub_cover r \<noteq> []) rows"
    and "length rows = length ds + book_count (db st)"
proof -
  from assms obtain demo where loop: "map_prog demo_item ds st = (Inr demo, st')"
    and rows: "rows = demo @ map (db_row (db st')) (books (live (db st')))"
    by (auto simp: all_books_ui_of_Inr_iff)
  show db: "db st' = db st" using loop by (rule demo_loop_db)
  from demo_loop_rows[OF loop] rows db
  show "map row_key rows = map demo_key ds @ map book_key (books (live (db st)))"
    "list_all (\<lambda>r. ub_cover r \<noteq> []) rows"
    by (auto simp: comp_def list_all_iff)
  from map_prog_length[OF loop] rows db show "length rows = length ds + book_count (db st)"
    by (simp add: book_count_def)
qed

lemma all_books_ui_of_again:
  assumes "all_books_ui_of ds st = (Inr rows, st')"
    and "demo_cache st' \<subseteq>\<^sub>m demo_cache st2" and "db st2 = db st'"
  shows "all_books_ui_of ds st2 = (Inr rows, st2)"
proof -
  from assms(1) obtain demo where loop: "map_prog demo_item ds st = (Inr demo, st')"
    and rows: "rows = demo @ map (db_row (db st')) (books (live (db st')))"
    by (auto simp: all_books_ui_of_Inr_iff)
  from demo_loop_again[OF loop assms(2)] rows assms(3) show ?thesis
    by (simp add: all_books_ui_of_Inr_iff)
qed

lemma all_books_ui_of_Inl:
  assumes "all_books_ui_of ds st = (Inl e, st')"
  shows "e = AttributeError \<or> e = TypeError" and "db st' = db st"
    and "demo_cache st \<subseteq>\<^sub>m demo_cache st'"
proof -
  from assms have loop: "map_prog demo_item ds st = (Inl e, st')"
    by (simp add: all_books_ui_of_Inl_iff)
  show "db st' = db st" using loop by (rule demo_loop_db)
  show "demo_cache st \<subseteq>\<^sub>m demo_cache st'" using loop by (rule demo_loop_cache_le)
  from loop show "e = AttributeError \<or> e = TypeError"
  proof (induction ds arbitrary: st)
    case Nil
    then show ?case by simp
  next
    case (Cons d ds)
    then show ?case unfolding map_prog_Inl_iff by (auto dest: demo_item_Inl)
  qed
qed

lemma all_books_ui_of_duplicate:
  assumes "all_books_ui_of ds st = (Inr rows, st')"
    and "d \<in> set ds" and "bk \<in> set (books (live (db st)))" and "book_key bk = demo_key d"
  shows "\<not> distinct (map row_key rows)"
proof -
  from assms(2) have "demo_key d \<in> set (map demo_key ds)" by simp
  moreover from assms(3,4) have "demo_key d \<in> set (map book_key (books (live (db st))))"
    by (metis image_eqI set_map)
  ultimately have "set (map demo_key ds) \<inter> set (map book_key (books (live (db st)))) \<noteq> {}"
    by blast
  then show ?thesis unfolding all_books_ui_of_rows(2)[OF assms(1)] distinct_append by blast
qed

lemma demo_loop_nth:
  assumes "map_prog demo_item ds st = (Inr demo, st')" and "i < length ds"
  shows "row_key (demo ! i) = demo_key (ds ! i) \<and> ub_genre (demo ! i) = d_genre (ds ! i)
       \<and> ub_rating (demo ! i) = d_rating (ds ! i)"
proof -
  have "list_all2 (\<lambda>d r. row_key r = demo_key d \<and> ub_genre r = d_genre d
      \<and> ub_rating r = d_rating d) ds demo"
    by (rule map_prog_all[OF assms(1)]) (auto dest: demo_item_row)
  with assms(2) show ?thesis by (auto dest: list_all2_nthD)
qed

text \<open>
  The list is the demo books followed by the rows of \<open>Book\<close>: a demo book that
  has a row in \<open>Book\<close> is at its place among the demo books, with the genre
  and rating of the demo entry, and once more behind them, as the row.
\<close>

lemma all_books_ui_of_listed_twice:
  assumes "all_books_ui_of ds st = (Inr rows, st')" and "d \<in> set ds"
    and "bk \<in> set (books (live (db st)))" and "book_key bk = demo_key d"
  shows "\<exists>i j. i < length ds \<and> ds ! i = d \<and> row_key (rows ! i) = demo_key d
           \<and> ub_genre (rows ! i) = d_genre d \<and> ub_rating (rows ! i) = d_rating d
           \<and> length ds \<le> j \<and> j < length rows \<and> rows ! j = db_row (db st) bk"
proof -
  from assms(1) obtain demo where loop: "map_prog demo_item ds st = (Inr demo, st')"
    and rows: "rows = demo @ map (db_row (db st')) (books (live (db st')))"
    by (auto simp: all_books_ui_of_Inr_iff)
  from loop have db: "db st' = db st" by (rule demo_loop_db)
  from map_prog_length[OF loop] have len: "length demo = length ds" .
  from assms(2) obtain i where i: "i < length ds" "ds ! i = d" by (auto simp: in_set_conv_nth)
  from assms(3) obtain k where k: "k < length (books (live (db st)))"
    "books (live (db st)) ! k = bk" by (auto simp: in_set_conv_nth)
  from demo_loop_nth[OF loop i(1)] i len
  have "row_key (rows ! i) = demo_key d \<and> ub_genre (rows ! i) = d_genre d
      \<and> ub_rating (rows ! i) = d_rating d"
    by (simp add: rows nth_append)
  moreover from k len have "rows ! (length ds + k) = db_row (db st) bk"
    "length ds + k < length rows"
    by (simp_all add: rows db nth_append)
  ultimately show ?thesis using i by (intro exI[of _ i] exI[of _ "length ds + k"]) simp
qed

section \<open>Lemmas: the routes\<close>

lemma browse_filter_subset: "set (browse_filter g q bs) \<subseteq> set bs"
  by (auto simp: browse_filter_def Let_def)

lemma browse_filter_genre:
  "g \<noteq> [] \<Longrightarrow> b \<in> set (browse_filter g q bs) \<Longrightarrow> lower (ub_genre b) = lower g"
  by (auto simp: browse_filter_def Let_def split: if_splits)

lemma browse_filter_matches:
  "q \<noteq> [] \<Longrightarrow> b \<in> set (browse_filter g q bs) \<Longrightarrow> matches q b"
  by (auto simp: browse_filter_def Let_def split: if_splits)

lemma browse_filter_none [simp]: "browse_filter [] [] bs = bs"
  by (simp add: browse_filter_def)

lemma length_suggestions: "length (suggestions q bs) \<le> 8"
  by (simp add: suggestions_def)

lemma api_search_books_blank:
  "lower (form_field q) = [] \<Longrightarrow> api_search_books q st = (Inr [], st)"
  by (simp add: api_search_books_def ret_def)

lemma browse_eq:
  "browse g q st =
     (case all_books_ui st of
        (Inl e, st') \<Rightarrow> (Inl e, st')
      | (Inr rows, st') \<Rightarrow> (Inr (browse_filter (form_field g) (lower (form_field q)) rows), st'))"
  by (simp add: browse_def Let_def bnd_ret_eq)

lemma home_of_eq:
  "home_of ds st =
     (case all_books_ui_of ds st of
        (Inl e, st') \<Rightarrow> (Inl e, st')
      | (Inr rows, st') \<Rightarrow> (Inr (featured_of ds rows, take 6 (sorted_by_rating rows)), st'))"
  by (simp add: home_of_def bnd_ret_eq)

text \<open>The fall-back to the first demo book is never taken.\<close>

lemma home_of_featured:
  assumes "home_of ds st = (Inr (f, best), st')"
  shows "(\<exists>b. f = Listed b) \<or> (f = Nothing \<and> ds = [] \<and> book_count (db st) = 0)"
proof -
  from assms obtain rows where rows: "all_books_ui_of ds st = (Inr rows, st')"
    and f: "f = featured_of ds rows"
    by (auto simp: home_of_eq split: prod.splits sum.splits)
  from all_books_ui_of_rows(4)[OF rows] f show ?thesis
    by (cases rows; cases ds) (auto simp: featured_of_def)
qed

section \<open>Lemmas: what the list and the routes keep\<close>

lemma all_books_ui_of_db: "all_books_ui_of ds st = (r, st') \<Longrightarrow> db st' = db st"
  by (cases r) (auto dest: all_books_ui_of_Inl(2) all_books_ui_of_rows(1))

lemma all_books_ui_of_net:
  assumes "all_books_ui_of ds st = (r, st')"
  shows "respond (net st') = respond (net st) \<and> prefix (calls (net st)) (calls (net st'))"
proof -
  let ?I = "\<lambda>t. respond (net t) = respond (net st) \<and> prefix (calls (net st)) (calls (net t))"
  have loop: "?I t'" if "map_prog demo_item ds st = (q, t')" for q t'
  proof (rule map_prog_invariant[where I = ?I, OF _ _ that])
    show "?I st" by simp
    show "?I t2" if "?I t1" "demo_item x t1 = (q1, t2)" for x t1 q1 t2
      using that demo_item_net[of x t1 q1 t2] by (auto intro: prefix_order.trans)
  qed
  from assms show ?thesis
    by (cases r) (auto simp: all_books_ui_of_Inr_iff all_books_ui_of_Inl_iff dest: loop)
qed

text \<open>The list reads the database and never writes it.\<close>

lemma keeps_all_books_ui_of [keeps_intros]: "keeps (\<lambda>st. P (db st)) (all_books_ui_of ds)"
  by (rule keepsI) (simp add: all_books_ui_of_db)

lemma keeps_all_books_ui [keeps_intros]: "keeps (\<lambda>st. P (db st)) all_books_ui"
  unfolding all_books_ui_def by (rule keeps_all_books_ui_of)

lemma keeps_browse [keeps_intros]: "keeps (\<lambda>st. P (db st)) (browse g q)"
  unfolding browse_def Let_def by (intro keeps_intros)

lemma keeps_top_rated [keeps_intros]: "keeps (\<lambda>st. P (db st)) (top_rated q)"
  unfolding top_rated_def Let_def by (intro keeps_intros)

lemma keeps_api_search_books [keeps_intros]: "keeps (\<lambda>st. P (db st)) (api_search_books q)"
  unfolding api_search_books_def Let_def by (auto intro!: keeps_intros)

lemma keeps_home [keeps_intros]: "keeps (\<lambda>st. P (db st)) home"
  unfolding home_def home_of_def by (intro keeps_intros)

section \<open>Examples\<close>

lemma two_demo_list: "all_books_ui_of two_demo fresh_app = (Inr [orwell_row], warm_app)"
  by (simp add: all_books_ui_of_def demo_item_eq demo_best_cover_def two_demo_def fresh_app_def
      warm_app_def orwell_row_def demo_match cache_entry_def or_default_def bnd_def
      empty_tables_def)

section \<open>Properties\<close>

text \<open>
  C26 (functional). The cache makes the cover lookups of the demo books one-time: once
  \<open>all_books_ui\<close> has returned, calling it again from the state it left
  returns the same list, sends no request and changes nothing.
\<close>

theorem all_books_ui_second_call_is_free:
  assumes "all_books_ui_of ds st = (Inr rows, st')"
  shows "all_books_ui_of ds st' = (Inr rows, st')"
  using all_books_ui_of_again[OF assms, of st'] by simp

theorem all_books_ui_second_call_is_free_witness:
  "all_books_ui_of two_demo fresh_app = (Inr [orwell_row], warm_app)
   \<and> all_books_ui_of two_demo warm_app = (Inr [orwell_row], warm_app)"
  using all_books_ui_second_call_is_free[OF two_demo_list] two_demo_list by simp

end
