(* ===== verification/Description.thy ===== *)
theory Description
  imports Matcher
begin

text \<open>
  The description lookup (\<open>src/main.py\<close>, \<open>_ol_description_for\<close>), used by the
  book page.

  The function sends a search request, scores the records with a nested
  \<open>score\<close> of its own (\<open>desc_score\<close>: the title and author points of the
  matcher, but the substring test on the title is not guarded, and 5 points
  for a \<open>key\<close>), takes the first of the best, reads a work key from it
  (\<open>work_key_of\<close>), requests that work and tidies its description (\<open>tidy\<close>).
  \<open>chosen_work_key\<close> is the part between the two requests,
  \<open>work_description\<close> the part after the second, \<open>ol_description_for\<close> the
  whole function over the world of \<open>Matcher\<close>.

  The result is a \<open>blurb\<close>: \<open>Plain s\<close> is the string \<open>s\<close>, and \<open>Shortened s\<close>
  is \<open>s\<close> followed by the ellipsis U+2026 that the source appends, the one
  character of the program outside the code points that \<open>string\<close> holds.
  As in the matcher, both \<open>.get\<close> calls on a response are outside the \<open>try\<close>
  blocks and raise on a body that is not an object.
\<close>

section \<open>Definitions\<close>

datatype blurb = Plain string | Shortened string

definition desc_title_points :: "string \<Rightarrow> string \<Rightarrow> int" where
  "desc_title_points t_low d_title =
     (if d_title = t_low then 50 else if py_in t_low d_title then 25 else 0)"

definition desc_score :: "string \<Rightarrow> string \<Rightarrow> json \<Rightarrow> int result" where
  "desc_score t_low a_low doc =
     rbind (doc_title_low doc) (\<lambda>d_title.
     rbind (first_author_low doc) (\<lambda>first_author.
     rbind (dict_get doc ''key'') (\<lambda>k.
       Inr (desc_title_points t_low d_title + author_points a_low first_author
            + (if truthy k then 5 else 0)))))"

definition work_key_of :: "json \<Rightarrow> string result" where
  "work_key_of best =
     rbind (dict_get best ''work_key'') (\<lambda>work_keys.
     rbind (first_str work_keys) (\<lambda>work_key.
       if work_key \<noteq> [] then Inr work_key
       else rbind (dict_get best ''key'') (\<lambda>k0.
              let k = strip (py_str (py_or k0 (JStr [])))
              in Inr (if startswith k ''/works/'' then k else []))))"

definition chosen_work_key :: "string \<Rightarrow> string \<Rightarrow> json \<Rightarrow> string result" where
  "chosen_work_key t a data =
     rbind (dict_get data ''docs'') (\<lambda>d.
       let docs = py_or d (JArr [])
       in if \<not> truthy docs then Inr []
          else rbind (best_doc (desc_score (lower t) (lower a)) docs) work_key_of)"

definition rsplit1_head :: "string \<Rightarrow> string" where
  "rsplit1_head s =
     (if CHR '' '' \<in> set s then rev (tl (dropWhile (\<lambda>c. c \<noteq> CHR '' '') (rev s))) else s)"

definition tidy :: "string \<Rightarrow> blurb" where
  "tidy raw =
     (let desc = strip raw
      in if length desc > 600 then Shortened (rstrip (rsplit1_head (take 600 desc)))
         else Plain desc)"

definition work_description :: "json \<Rightarrow> blurb result" where
  "work_description work =
     rbind (dict_get work ''description'') (\<lambda>d0.
     rbind (if isinstance_dict d0 then dict_get d0 ''value'' else Inr d0) (\<lambda>desc.
       Inr (case desc of JStr s \<Rightarrow> tidy s | _ \<Rightarrow> Plain [])))"

definition work_url :: "string \<Rightarrow> string" where
  "work_url work_key = ''https://openlibrary.org'' @ work_key @ ''.json''"

definition desc_query :: "string \<Rightarrow> string \<Rightarrow> string" where
  "desc_query title author =
     search_url (if strip author = [] then strip title else strip title @ '' '' @ strip author)
       ''&limit=5&page=1''"

definition ol_description_for :: "string \<Rightarrow> string \<Rightarrow> (blurb, world) prog" where
  "ol_description_for title author w =
     (let t = strip title; a = strip author
      in if t = [] then (Inr (Plain []), w)
         else let q = (if a = [] then t else t @ '' '' @ a);
                  (resp, w1) = urlopen_json (search_url q ''&limit=5&page=1'') w
              in case resp of
                   None \<Rightarrow> (Inr (Plain []), w1)
                 | Some data \<Rightarrow>
                     (case chosen_work_key t a data of
                        Inl e \<Rightarrow> (Inl e, w1)
                      | Inr work_key \<Rightarrow>
                          if work_key = [] then (Inr (Plain []), w1)
                          else let (resp2, w2) = urlopen_json (work_url work_key) w1
                               in case resp2 of
                                    None \<Rightarrow> (Inr (Plain []), w2)
                                  | Some work \<Rightarrow> (work_description work, w2)))"

text \<open>The text of a result without the ellipsis, and whether it is empty.\<close>

fun blurb_text :: "blurb \<Rightarrow> string" where
  "blurb_text (Plain s) = s"
| "blurb_text (Shortened s) = s"

section \<open>Example inputs\<close>

text \<open>
  A world that answers the search with one record carrying a work key and
  the work request with a description object, and one that answers the work
  request with a JSON array.
\<close>

definition work_doc :: json where
  "work_doc = JObj [(''title'', JStr ''Dune''), (''author_name'', JArr [JStr ''Frank Herbert'']),
     (''key'', JStr ''/works/OL893415W'')]"

definition work_body :: json where
  "work_body = JObj [(''description'', JObj [(''type'', JStr ''/type/text''),
     (''value'', JStr '' A desert planet. '')])]"

definition desc_world :: world where
  "desc_world = \<lparr>calls = [],
     respond = (\<lambda>n url. if n = 0 then Some (JObj [(''docs'', JArr [work_doc])])
                         else Some work_body)\<rparr>"

definition bad_work_world :: world where
  "bad_work_world = \<lparr>calls = [],
     respond = (\<lambda>n url. if n = 0 then Some (JObj [(''docs'', JArr [work_doc])])
                         else Some (JArr []))\<rparr>"

section \<open>Lemmas: cutting a description\<close>

lemmas desc_eval = matcher_eval desc_score_def desc_title_points_def work_key_of_def
  chosen_work_key_def work_description_def work_url_def desc_query_def first_str_def
  doc_title_low_def first_author_low_def author_points_def best_doc_def max_by_key_def
  keyed_def py_max_def work_doc_def work_body_def desc_world_def bad_work_world_def

lemma rsplit1_head_prefix: "prefix (rsplit1_head s) s"
proof (cases "CHR '' '' \<in> set s")
  case True
  let ?d = "dropWhile (\<lambda>c. c \<noteq> CHR '' '') (rev s)"
  have "s = rev ?d @ rev (takeWhile (\<lambda>c. c \<noteq> CHR '' '') (rev s))"
    by (metis rev_append rev_rev_ident takeWhile_dropWhile_id)
  then have "prefix (rev ?d) s" by (metis prefixI)
  moreover have "prefix (rev (tl ?d)) (rev ?d)"
    by (metis butlast_rev prefixeq_butlast)
  ultimately show ?thesis using True by (auto simp: rsplit1_head_def)
qed (simp add: rsplit1_head_def)

lemma rsplit1_head_no_space: "CHR '' '' \<notin> set s \<Longrightarrow> rsplit1_head s = s"
  by (simp add: rsplit1_head_def)

lemma rsplit1_head_append_space:
  assumes "CHR '' '' \<notin> set ys"
  shows "rsplit1_head (xs @ CHR '' '' # ys) = xs"
proof -
  have "dropWhile (\<lambda>c. c \<noteq> CHR '' '') (rev ys @ CHR '' '' # rev xs) = CHR '' '' # rev xs"
    using assms by (subst dropWhile_append2) auto
  then show ?thesis by (simp add: rsplit1_head_def)
qed

lemma rsplit1_head_hd:
  assumes "s \<noteq> []" and "hd s \<noteq> CHR '' ''"
  shows "rsplit1_head s \<noteq> [] \<and> hd (rsplit1_head s) = hd s"
proof (cases "CHR '' '' \<in> set s")
  case True
  then obtain xs ys where s: "s = xs @ CHR '' '' # ys" "CHR '' '' \<notin> set ys"
    by (metis split_list_last)
  with assms have "xs \<noteq> []" by (cases xs) auto
  with s show ?thesis by (simp add: rsplit1_head_append_space)
qed (use assms in \<open>simp add: rsplit1_head_def\<close>)

lemma tidy_short: "length (strip raw) \<le> 600 \<Longrightarrow> tidy raw = Plain (strip raw)"
  by (simp add: tidy_def)

lemma tidy_long:
  "600 < length (strip raw) \<Longrightarrow>
     tidy raw = Shortened (rstrip (rsplit1_head (take 600 (strip raw))))"
  by (simp add: tidy_def)

lemma tidy_prefix: "prefix (blurb_text (tidy raw)) (strip raw)"
proof (cases "600 < length (strip raw)")
  case True
  have "prefix (rstrip (rsplit1_head (take 600 (strip raw)))) (take 600 (strip raw))"
    using rstrip_prefix rsplit1_head_prefix prefix_order.trans by blast
  then show ?thesis using True take_is_prefix prefix_order.trans by (fastforce simp: tidy_def)
qed (simp add: tidy_def)

lemma tidy_length: "length (blurb_text (tidy raw)) \<le> 600"
proof (cases "600 < length (strip raw)")
  case True
  have "prefix (rstrip (rsplit1_head (take 600 (strip raw)))) (take 600 (strip raw))"
    using rstrip_prefix rsplit1_head_prefix prefix_order.trans by blast
  from prefix_length_le[OF this] True show ?thesis by (simp add: tidy_def)
qed (simp add: tidy_def)

lemma tidy_stripped: "strip (blurb_text (tidy raw)) = blurb_text (tidy raw)"
proof (cases "600 < length (strip raw)")
  case True
  let ?h = "rsplit1_head (take 600 (strip raw))"
  from True have ne: "strip raw \<noteq> []" by auto
  then have h: "\<not> py_isspace (hd (strip raw))" by (rule hd_strip)
  then have "hd (take 600 (strip raw)) \<noteq> CHR '' ''" "take 600 (strip raw) \<noteq> []"
    using ne by (auto simp: py_isspace_def hd_take)
  then have "?h \<noteq> []" "hd ?h = hd (take 600 (strip raw))" using rsplit1_head_hd by blast+
  with h ne have "\<not> py_isspace (hd ?h)" by (simp add: hd_take)
  with \<open>?h \<noteq> []\<close> have "lstrip (rstrip ?h) = rstrip ?h"
    by (metis hd_rstrip lstrip_id rstrip_eq_Nil_iff list.set_sel(1) lstrip_Nil)
  then show ?thesis using True by (simp add: tidy_def strip_def rstrip_idem)
qed (simp add: tidy_def)

section \<open>Lemmas: the work key\<close>

lemma work_key_of_dict: "\<exists>k. work_key_of (JObj kvs) = Inr k \<and> strip k = k"
proof -
  obtain wk where "first_str (case map_of kvs ''work_key'' of None \<Rightarrow> JNull | Some v \<Rightarrow> v) = Inr wk"
    "strip wk = wk" using first_str_ok by blast
  then show ?thesis by (simp add: work_key_of_def Let_def)
qed

lemma work_key_of_ok_iff: "is_ok (work_key_of d) \<longleftrightarrow> isinstance_dict d"
proof (cases d)
  case (JObj kvs)
  with work_key_of_dict[of kvs] show ?thesis by (auto simp: is_ok_iff)
qed (auto simp: work_key_of_def)

lemma work_key_of_Inl: "work_key_of d = Inl e \<Longrightarrow> e = AttributeError"
proof (cases d)
  case (JObj kvs)
  assume "work_key_of d = Inl e"
  with JObj work_key_of_dict[of kvs] show ?thesis by auto
qed (auto simp: work_key_of_def)

lemma work_key_of_Inr:
  assumes "work_key_of d = Inr k"
  shows "strip k = k"
proof (cases d)
  case (JObj kvs)
  from work_key_of_dict[of kvs] obtain k' where "work_key_of (JObj kvs) = Inr k'" "strip k' = k'"
    by blast
  with assms JObj show ?thesis by simp
qed (use assms in \<open>auto simp: work_key_of_def\<close>)

lemma desc_score_Inl: "desc_score t a d = Inl e \<Longrightarrow> e = AttributeError"
  by (auto simp: desc_score_def rbind_eq_Inl_iff dest: doc_title_low_Inl first_author_low_Inl
      dict_get_Inl)

lemma desc_score_is_dict: "is_ok (desc_score t a d) \<Longrightarrow> isinstance_dict d"
  by (cases d) (auto simp: desc_score_def doc_title_low_def)

lemma chosen_work_key_not_dict:
  "\<not> isinstance_dict data \<Longrightarrow> chosen_work_key t a data = Inl AttributeError"
  by (cases data) (auto simp: chosen_work_key_def)

lemma chosen_work_key_Inl:
  assumes "chosen_work_key t a data = Inl e"
  shows "e = AttributeError \<or> e = TypeError"
proof -
  from assms consider "dict_get data ''docs'' = Inl e"
    | d where "dict_get data ''docs'' = Inr d" "truthy (py_or d (JArr []))"
        "best_doc (desc_score (lower t) (lower a)) (py_or d (JArr [])) = Inl e"
    | d b where "dict_get data ''docs'' = Inr d"
        "best_doc (desc_score (lower t) (lower a)) (py_or d (JArr [])) = Inr b"
        "work_key_of b = Inl e"
    by (auto simp: chosen_work_key_def rbind_eq_Inl_iff Let_def split: if_splits)
  then show ?thesis
  proof cases
    case 1
    then show ?thesis by (auto dest: dict_get_Inl)
  next
    case 2
    from best_doc_Inl[OF 2(3) 2(2)] show ?thesis by (auto dest: desc_score_Inl)
  next
    case 3
    then show ?thesis by (auto dest: work_key_of_Inl)
  qed
qed

lemma chosen_work_key_stripped:
  assumes "chosen_work_key t a data = Inr k"
  shows "strip k = k"
proof -
  from assms consider "k = []"
    | b where "work_key_of b = Inr k"
    by (auto simp: chosen_work_key_def rbind_eq_Inr_iff Let_def split: if_splits)
  then show ?thesis
    by cases (auto dest: work_key_of_Inr)
qed

section \<open>Lemmas: the work\<close>

lemma work_description_not_dict:
  "\<not> isinstance_dict work \<Longrightarrow> work_description work = Inl AttributeError"
  by (cases work) (auto simp: work_description_def)

lemma work_description_dict: "\<exists>b. work_description (JObj kvs) = Inr b"
  by (cases "case map_of kvs ''description'' of None \<Rightarrow> JNull | Some v \<Rightarrow> v")
     (simp_all add: work_description_def)

lemma work_description_ok_iff: "is_ok (work_description work) \<longleftrightarrow> isinstance_dict work"
proof (cases work)
  case (JObj kvs)
  with work_description_dict[of kvs] show ?thesis by (auto simp: is_ok_iff)
qed (auto simp: work_description_def)

lemma work_description_Inr:
  assumes "work_description work = Inr b"
  shows "b = Plain [] \<or> (\<exists>raw. b = tidy raw)"
proof -
  from assms obtain desc where "b = (case desc of JStr s \<Rightarrow> tidy s | _ \<Rightarrow> Plain [])"
    by (auto simp: work_description_def rbind_eq_Inr_iff)
  then show ?thesis by (cases desc) auto
qed

lemma work_description_Inl: "work_description work = Inl e \<Longrightarrow> e = AttributeError"
  by (auto simp: work_description_def rbind_eq_Inl_iff dest: dict_get_Inl split: if_splits)

section \<open>Lemmas: the whole function\<close>

lemma ol_description_for_blank:
  "strip title = [] \<Longrightarrow> ol_description_for title author w = (Inr (Plain []), w)"
  by (simp add: ol_description_for_def)

lemma ol_description_for_respond [simp]:
  "respond (snd (ol_description_for title author w)) = respond w"
  by (simp add: ol_description_for_def urlopen_json_def Let_def
      split: option.splits sum.splits prod.splits)

lemma ol_description_for_calls:
  "strip title \<noteq> [] \<Longrightarrow>
     calls (snd (ol_description_for title author w)) = calls w @ [desc_query title author]
     \<or> (\<exists>k. k \<noteq> [] \<and> strip k = k
           \<and> calls (snd (ol_description_for title author w))
               = calls w @ [desc_query title author, work_url k])"
  by (auto simp: ol_description_for_def urlopen_json_def desc_query_def Let_def
      dest: chosen_work_key_stripped split: option.splits sum.splits)

lemma ol_description_for_Inr:
  assumes "ol_description_for title author w = (Inr b, w')"
  shows "b = Plain [] \<or> (\<exists>raw. b = tidy raw)"
  using assms
  by (auto simp: ol_description_for_def urlopen_json_def Let_def
      dest: work_description_Inr split: option.splits sum.splits if_splits)

lemma ol_description_for_Inl:
  assumes "ol_description_for title author w = (Inl e, w')"
  shows "e = AttributeError \<or> e = TypeError"
  using assms
  by (auto simp: ol_description_for_def urlopen_json_def Let_def
      dest: chosen_work_key_Inl work_description_Inl
      split: option.splits sum.splits if_splits)

lemma work_doc_key: "chosen_work_key ''Dune'' ''Frank Herbert'' (JObj [(''docs'', JArr [work_doc])])
    = Inr ''/works/OL893415W''"
  by (simp add: desc_eval)

lemma desc_world_run:
  "ol_description_for ''Dune'' '' Frank Herbert'' desc_world =
     (Inr (Plain ''A desert planet.''),
      desc_world\<lparr>calls := [''https://openlibrary.org/search.json?q=Dune%20Frank%20Herbert&limit=5&page=1'',
                            ''https://openlibrary.org/works/OL893415W.json'']\<rparr>)"
  by (simp add: ol_description_for_def desc_eval tidy_def)

lemma bad_work_world_key:
  "respond bad_work_world 0 (desc_query ''Dune'' ''Frank Herbert'')
     = Some (JObj [(''docs'', JArr [work_doc])])
   \<and> respond bad_work_world (Suc 0) (work_url ''/works/OL893415W'') = Some (JArr [])
   \<and> strip ''Dune'' = ''Dune'' \<and> strip ''Frank Herbert'' = ''Frank Herbert''"
  by (simp add: bad_work_world_def pystr_eval)

section \<open>Properties\<close>

text \<open>
  C40 (bounds). The description shown is tidy: the text returned for a description is
  a prefix of the stripped description, is at most 600 characters long (the
  ellipsis not counted), has no white space at either end, and is the whole
  stripped description, without ellipsis, exactly when that has at most 600
  characters.
\<close>

theorem tidy_description_bounds:
  "prefix (blurb_text (tidy raw)) (strip raw)
   \<and> length (blurb_text (tidy raw)) \<le> 600
   \<and> strip (blurb_text (tidy raw)) = blurb_text (tidy raw)
   \<and> (tidy raw = Plain (strip raw) \<longleftrightarrow> length (strip raw) \<le> 600)"
  using tidy_prefix[of raw] tidy_length[of raw] tidy_stripped[of raw]
  by (auto simp: tidy_def)

text \<open>
  \<open>_ol_description_for\<close> sends no request for a blank title, and
  otherwise the search request followed by at most one more request, which is
  for a non-empty work key read from the best record.
\<close>

theorem ol_description_for_requests:
  "\<exists>urls. calls (snd (ol_description_for title author w)) = calls w @ urls
     \<and> (if strip title = [] then urls = []
         else urls = [desc_query title author]
            \<or> (\<exists>k. k \<noteq> [] \<and> strip k = k \<and> urls = [desc_query title author, work_url k]))"
proof (cases "strip title = []")
  case True
  then show ?thesis by (simp add: ol_description_for_blank)
next
  case False
  from ol_description_for_calls[OF this, of author w] show ?thesis using False by auto
qed

theorem ol_description_for_requests_witness:
  "calls (snd (ol_description_for ''Dune'' '' Frank Herbert'' desc_world))
     = [desc_query ''Dune'' '' Frank Herbert'', work_url ''/works/OL893415W'']"
  using ol_description_for_requests[of "''Dune''" "'' Frank Herbert''" desc_world]
  by (simp add: desc_world_run desc_query_def work_url_def matcher_eval)

text \<open>
  The docstring promises the empty string if anything fails, but a work
  response that is valid JSON and not an object makes the function raise
  \<open>AttributeError\<close>: \<open>work.get\<close> is outside the second \<open>try\<close> block.
\<close>

theorem ol_description_for_non_object_work_raises:
  assumes "strip title \<noteq> []"
    and "respond w (length (calls w)) (desc_query title author) = Some data"
    and "chosen_work_key (strip title) (strip author) data = Inr k" and "k \<noteq> []"
    and "respond w (Suc (length (calls w))) (work_url k) = Some work"
    and "\<not> isinstance_dict work"
  shows "fst (ol_description_for title author w) = Inl AttributeError"
  using assms
  by (simp add: ol_description_for_def urlopen_json_def desc_query_def Let_def
      work_description_not_dict)

theorem ol_description_for_non_object_work_raises_witness:
  "fst (ol_description_for ''Dune'' ''Frank Herbert'' bad_work_world) = Inl AttributeError"
  using ol_description_for_non_object_work_raises[of "''Dune''" bad_work_world "''Frank Herbert''"
      "JObj [(''docs'', JArr [work_doc])]" "''/works/OL893415W''" "JArr []"]
    bad_work_world_key work_doc_key
  by (simp add: bad_work_world_def)

end
