(* ===== verification/TimeAgo.thy ===== *)
theory TimeAgo
  imports PyStr
begin

text \<open>
  Relative times (\<open>src/main.py\<close>, \<open>_time_ago\<close>), shown beside each review.

  A \<open>datetime\<close> is the number of microseconds since the epoch, an \<open>int\<close>;
  \<open>None\<close> is the missing time stamp the source tests for. \<open>trunc_div\<close> is
  \<open>int(diff.total_seconds())\<close>, which rounds towards zero (the float is exact
  for differences below \<open>2^32\<close> seconds). \<open>time_ago_seconds\<close> is the chain of
  floor divisions and tests of the source, \<open>time_ago\<close> the whole function with
  the clock as an argument.

  \<open>time_ago_spec\<close> states the same result by thresholds on the seconds; the
  lemmas show that the two agree and in which range each number lies.
\<close>

section \<open>Definitions\<close>

definition trunc_div :: "int \<Rightarrow> int \<Rightarrow> int" where
  "trunc_div a b = sgn a * (\<bar>a\<bar> div b)"

definition ago :: "int \<Rightarrow> string \<Rightarrow> string" where
  "ago n u = str_of_int n @ u @ '' ago''"

definition time_ago_seconds :: "int \<Rightarrow> string" where
  "time_ago_seconds seconds =
     (if seconds < 60 then ''just now''
      else let minutes = seconds div 60 in
      if minutes < 60 then ago minutes ''m''
      else let hours = minutes div 60 in
      if hours < 24 then ago hours ''h''
      else let days = hours div 24 in
      if days < 7 then ago days ''d''
      else let weeks = days div 7 in
      if weeks < 5 then ago weeks ''w''
      else let months = days div 30 in
      if months < 12 then ago months ''mo''
      else let years = days div 365 in ago years ''y'')"

definition time_ago :: "int \<Rightarrow> int option \<Rightarrow> string" where
  "time_ago now dt =
     (case dt of
        None \<Rightarrow> []
      | Some t \<Rightarrow> time_ago_seconds (trunc_div (now - t) 1000000))"

text \<open>The same result, by thresholds on the number of seconds.\<close>

definition time_ago_spec :: "int \<Rightarrow> string" where
  "time_ago_spec s =
     (if s < 60 then ''just now''
      else if s < 3600 then ago (s div 60) ''m''
      else if s < 86400 then ago (s div 3600) ''h''
      else if s < 604800 then ago (s div 86400) ''d''
      else if s < 3024000 then ago (s div 604800) ''w''
      else if s < 31104000 then ago (s div 2592000) ''mo''
      else ago (s div 31536000) ''y'')"

text \<open>A day, in seconds.\<close>

definition day :: int where
  "day = 86400"

section \<open>Lemmas\<close>

lemmas time_eval = time_ago_def time_ago_seconds_def trunc_div_def ago_def day_def

lemma trunc_div_nonneg [simp]: "0 \<le> a \<Longrightarrow> trunc_div a b = a div b"
  by (cases "a = 0") (simp_all add: trunc_div_def)

lemma trunc_div_neg: "a < 0 \<Longrightarrow> 0 < b \<Longrightarrow> trunc_div a b \<le> 0"
  by (simp add: trunc_div_def mult_le_0_iff pos_imp_zdiv_nonneg_iff)

lemma div_div_int: "0 \<le> c \<Longrightarrow> (a::int) div b div c = a div (b * c)"
  by (simp add: zdiv_zmult2_eq)

lemma div_less_iff_int:
  assumes "0 < b"
  shows "(a::int) div b < c \<longleftrightarrow> a < c * b"
proof
  assume "a div b < c"
  then have "a div b + 1 \<le> c" by simp
  with assms have "(a div b + 1) * b \<le> c * b" by (simp add: mult_right_mono)
  moreover have "a < (a div b + 1) * b"
    using pos_mod_bound[OF assms, of a] unfolding minus_mult_div_eq_mod[symmetric]
    by (simp add: algebra_simps)
  ultimately show "a < c * b" by simp
next
  assume lt: "a < c * b"
  show "a div b < c"
  proof (rule ccontr)
    assume "\<not> a div b < c"
    with assms have "c * b \<le> (a div b) * b" by (simp add: mult_right_mono)
    moreover have "(a div b) * b \<le> a"
      using pos_mod_sign[OF assms, of a] unfolding minus_mult_div_eq_mod[symmetric]
      by (simp add: algebra_simps)
    ultimately show False using lt by simp
  qed
qed

lemma time_ago_None [simp]: "time_ago now None = []"
  by (simp add: time_ago_def)

lemma time_ago_recent: "t > now - 60000000 \<Longrightarrow> time_ago now (Some t) = ''just now''"
proof (cases "0 \<le> now - t")
  case True
  assume "t > now - 60000000"
  with True have "(now - t) div 1000000 < 60" by (simp add: div_less_iff_int)
  with True show ?thesis by (simp add: time_ago_def time_ago_seconds_def)
next
  case False
  then have "trunc_div (now - t) 1000000 \<le> 0" by (intro trunc_div_neg) simp_all
  then show ?thesis by (simp add: time_ago_def time_ago_seconds_def)
qed

section \<open>Properties\<close>

text \<open>
  C39 (equivalence). The chain of floor divisions of \<open>_time_ago\<close> (seconds to minutes to
  hours to days, then weeks, months and years from the days) gives, for every
  number of seconds, the result stated by thresholds on the seconds: below a
  minute, an hour, a day, a week, 35 days and 360 days, with the number shown
  being the seconds divided by the length of the unit.
\<close>

theorem time_ago_seconds_by_thresholds: "time_ago_seconds s = time_ago_spec s"
  unfolding time_ago_seconds_def time_ago_spec_def Let_def
  by (simp add: div_div_int div_less_iff_int)

text \<open>
  Between 360 and 365 days the months test fails (\<open>days // 30\<close> is 12)
  while \<open>days // 365\<close> is still 0: the function answers \<open>0y ago\<close>.
\<close>

theorem time_ago_zero_years:
  assumes "360 * day \<le> s" and "s < 365 * day"
  shows "time_ago_seconds s = ''0y ago''"
proof -
  from assms have d: "s div 86400 div 365 = 0" "\<not> s div 86400 div 30 < 12"
    "\<not> s div 86400 div 7 < 5" "\<not> s div 86400 < 7" "\<not> s < 86400" "\<not> s < 3600" "\<not> s < 60"
    by (simp_all add: day_def div_div_int div_less_iff_int)
  then show ?thesis
    unfolding time_ago_seconds_def Let_def
    by (simp add: div_div_int div_less_iff_int ago_def pystr_eval)
qed

theorem time_ago_zero_years_witness:
  "360 * day \<le> 31104000 \<and> 31104000 < 365 * day \<and> time_ago_seconds 31104000 = ''0y ago''"
  using time_ago_zero_years[of 31104000] by (simp add: day_def)

end
