(* ===== verification/PyInt.thy ===== *)
theory PyInt
  imports Json
begin

text \<open>
  Python's \<open>int(x)\<close> at the places \<open>src/main.py\<close> calls it: on a form field
  (a string) and on a value of a JSON body.

  \<^item> \<open>py_int\<close>: \<open>int\<close> of a string. White space around the number, a sign
    and single underscores between digits are accepted; anything else raises
    \<open>ValueError\<close>. The white space that \<open>int\<close> skips (\<open>int_space\<close>) is not the
    white space of \<open>str.strip\<close>: the four separators of code points 28 to 31
    are stripped by \<open>strip\<close> and refused by \<open>int\<close>. A literal of more than
    \<open>MAX_STR_DIGITS\<close> digits raises \<open>ValueError\<close> as well: the limit of
    Python 3.11 on the conversion of strings, at its default of 4300.
  \<^item> \<open>float_int\<close>: \<open>int\<close> of a float, given by its \<open>repr\<close> as in \<open>Json\<close>:
    the decimal number that the text denotes, truncated towards zero;
    \<open>OverflowError\<close> for an infinity and \<open>ValueError\<close> for a NaN. This is the
    value Python computes for floats below \<open>2^53\<close> in absolute value, where
    the shortest \<open>repr\<close> and the float lie between the same two integers.
  \<^item> \<open>json_int\<close>: \<open>int(v)\<close> of a JSON value (\<open>TypeError\<close> on \<open>None\<close>, a
    list or a dict), and \<open>int_or_0\<close>: \<open>int(v or 0)\<close>.
\<close>

section \<open>\<open>int\<close> of a string\<close>

definition is_digit :: "char \<Rightarrow> bool" where
  "is_digit c \<longleftrightarrow> 48 \<le> (of_char c :: nat) \<and> (of_char c :: nat) \<le> 57"

definition int_body_ok :: "string \<Rightarrow> bool" where
  "int_body_ok s \<longleftrightarrow>
     s \<noteq> [] \<and> list_all (\<lambda>c. is_digit c \<or> c = CHR ''_'') s
     \<and> is_digit (hd s) \<and> is_digit (last s) \<and> \<not> py_in ''__'' s"

definition int_space :: "char \<Rightarrow> bool" where
  "int_space c =
     (let n = (of_char c :: nat) in (9 \<le> n \<and> n \<le> 13) \<or> n = 32 \<or> n = 133 \<or> n = 160)"

definition int_strip :: "string \<Rightarrow> string" where
  "int_strip s = rev (dropWhile int_space (rev (dropWhile int_space s)))"

definition MAX_STR_DIGITS :: nat where
  "MAX_STR_DIGITS = 4300"

definition py_int :: "string \<Rightarrow> int result" where
  "py_int s =
     (let t = int_strip s;
          neg = (t \<noteq> [] \<and> hd t = CHR ''-'');
          body = (if t \<noteq> [] \<and> (hd t = CHR ''-'' \<or> hd t = CHR ''+'') then tl t else t)
      in if int_body_ok body \<and> length (filter is_digit body) \<le> MAX_STR_DIGITS
         then Inr ((if neg then - 1 else 1) * int (nat_of_digits (filter is_digit body)))
         else Inl ValueError)"

section \<open>\<open>int\<close> of a JSON value\<close>

definition split_at :: "char \<Rightarrow> string \<Rightarrow> string \<times> string" where
  "split_at c s = (takeWhile (\<lambda>x. x \<noteq> c) s, drop 1 (dropWhile (\<lambda>x. x \<noteq> c) s))"

definition exponent_of :: "string \<Rightarrow> int" where
  "exponent_of ex =
     (case ex of
        [] \<Rightarrow> 0
      | c # cs \<Rightarrow> if c = CHR ''-'' then - int (nat_of_digits cs)
                 else if c = CHR ''+'' then int (nat_of_digits cs)
                 else int (nat_of_digits ex))"

definition float_int :: "string \<Rightarrow> int result" where
  "float_int r =
     (let neg = (r \<noteq> [] \<and> hd r = CHR ''-'');
          body = (if neg then tl r else r)
      in if body = ''inf'' then Inl OverflowError
         else if body = ''nan'' then Inl ValueError
         else let (mant, ex) = split_at CHR ''e'' body;
                  (ip, fp) = split_at CHR ''.'' mant;
                  n = nat_of_digits (ip @ fp);
                  k = exponent_of ex - int (length fp);
                  m = (if 0 \<le> k then n * 10 ^ nat k else n div 10 ^ nat (- k))
              in Inr (if neg then - int m else int m))"

fun json_int :: "json \<Rightarrow> int result" where
  "json_int (JBool b) = Inr (if b then 1 else 0)"
| "json_int (JInt i) = Inr i"
| "json_int (JFloat r) = float_int r"
| "json_int (JStr s) = py_int s"
| "json_int _ = Inl TypeError"

definition int_or_0 :: "json \<Rightarrow> int result" where
  "int_or_0 v = json_int (py_or v (JInt 0))"

section \<open>Lemmas: strings\<close>

lemma is_digit_digit_char: "d < 10 \<Longrightarrow> is_digit (digit_char d)"
  by (simp add: is_digit_def of_char_digit_char)

lemma digits_of_all_digits: "list_all is_digit (digits_of n)"
proof (induction n rule: digits_of.induct)
  case (1 n)
  show ?case
  proof (cases "n < 10")
    case True
    then show ?thesis by (subst digits_of.simps) (simp add: is_digit_digit_char)
  next
    case False
    with "1.IH" show ?thesis by (subst digits_of.simps) (simp add: is_digit_digit_char)
  qed
qed

lemma is_digit_not_underscore: "is_digit c \<Longrightarrow> c \<noteq> CHR ''_''"
  by (auto simp: is_digit_def)

lemma py_in_cons_absent: "c \<notin> set s \<Longrightarrow> \<not> py_in (c # cs) s"
  by (induction s) (auto simp: prefix_def)

lemma int_body_ok_digits: "int_body_ok (digits_of n)"
proof -
  have all: "list_all is_digit (digits_of n)" by (rule digits_of_all_digits)
  have ne: "digits_of n \<noteq> []" by (rule digits_of_nonempty)
  from all have "CHR ''_'' \<notin> set (digits_of n)"
    by (auto simp: list_all_iff dest: is_digit_not_underscore)
  then have "\<not> py_in ''__'' (digits_of n)" by (rule py_in_cons_absent)
  moreover from all ne have "is_digit (hd (digits_of n))" "is_digit (last (digits_of n))"
    by (auto simp: list_all_iff)
  ultimately show ?thesis using all ne by (auto simp: int_body_ok_def list_all_iff)
qed

lemma filter_digits_of [simp]: "filter is_digit (digits_of n) = digits_of n"
  using digits_of_all_digits[of n] by (simp add: list_all_iff)

lemma int_space_isspace: "int_space c \<Longrightarrow> py_isspace c"
  by (auto simp: int_space_def py_isspace_def Let_def)

lemma int_strip_id:
  assumes "s \<noteq> []" and "\<not> int_space (hd s)" and "\<not> int_space (last s)"
  shows "int_strip s = s"
proof -
  from assms(1,2) have "dropWhile int_space s = s" by (cases s) simp_all
  moreover from assms(1,3) have "dropWhile int_space (rev s) = rev s"
    by (cases s rule: rev_cases) simp_all
  ultimately show ?thesis by (simp add: int_strip_def)
qed

lemma int_strip_str_of_int [simp]: "int_strip (str_of_int i) = str_of_int i"
proof (rule int_strip_id)
  show "str_of_int i \<noteq> []" by simp
  then show "\<not> int_space (hd (str_of_int i))" "\<not> int_space (last (str_of_int i))"
    using str_of_int_no_space[of _ i] by (blast intro: hd_in_set last_in_set dest: int_space_isspace)+
qed

lemma length_digits_of_le: "n < 10 ^ k \<Longrightarrow> 0 < k \<Longrightarrow> length (digits_of n) \<le> k"
proof (induction n arbitrary: k rule: digits_of.induct)
  case (1 n)
  show ?case
  proof (cases "n < 10")
    case True
    with "1.prems" show ?thesis by (subst digits_of.simps) simp
  next
    case False
    with "1.prems" obtain j where k: "k = Suc j" and j: "0 < j"
      by (cases k; cases "k - 1") auto
    from "1.prems"(1) k have "n div 10 < 10 ^ j" by (simp add: less_mult_imp_div_less mult.commute)
    from "1.IH"[OF False this j] False k show ?thesis by (subst digits_of.simps) simp
  qed
qed

text \<open>What \<open>str\<close> prints, \<open>int\<close> reads back, below the limit on the digits.\<close>

lemma py_int_str_of_int:
  assumes "\<bar>i\<bar> < 10 ^ MAX_STR_DIGITS"
  shows "py_int (str_of_int i) = Inr i"
proof -
  have "0 < MAX_STR_DIGITS" by (simp add: MAX_STR_DIGITS_def)
  moreover from assms have "nat \<bar>i\<bar> < 10 ^ MAX_STR_DIGITS" by (simp add: nat_less_iff)
  ultimately have len: "length (digits_of (nat \<bar>i\<bar>)) \<le> MAX_STR_DIGITS"
    by (intro length_digits_of_le)
  show ?thesis
  proof (cases "i < 0")
    case True
    then have e: "str_of_int i = CHR ''-'' # digits_of (nat (- i))"
      by (simp add: str_of_int_def)
    have s: "int_strip (CHR ''-'' # digits_of (nat (- i))) = CHR ''-'' # digits_of (nat (- i))"
      using int_strip_str_of_int[of i] e by simp
    show ?thesis unfolding py_int_def e Let_def s
      using True len by (simp add: int_body_ok_digits nat_of_digits_digits_of abs_if)
  next
    case False
    have "hd (digits_of (nat i)) \<noteq> CHR ''-''" by (rule digits_of_hd_not_minus)
    moreover have "hd (digits_of (nat i)) \<noteq> CHR ''+''"
      using digits_of_all_digits[of "nat i"] digits_of_nonempty[of "nat i"]
      by (cases "digits_of (nat i)") (auto simp: is_digit_def)
    moreover from False have e: "str_of_int i = digits_of (nat i)" by (simp add: str_of_int_def)
    moreover have "int_strip (digits_of (nat i)) = digits_of (nat i)"
      using int_strip_str_of_int[of i] unfolding e .
    ultimately show ?thesis using False len
      by (simp add: py_int_def Let_def int_body_ok_digits nat_of_digits_digits_of abs_if)
  qed
qed

lemma py_int_str_of_int_64:
  assumes "- (2 ^ 63) \<le> i" and "i < 2 ^ 63"
  shows "py_int (str_of_int i) = Inr i"
proof (rule py_int_str_of_int)
  from assms have "\<bar>i\<bar> < 10 ^ 19" by simp
  also have "(10 :: int) ^ 19 \<le> 10 ^ MAX_STR_DIGITS"
    by (rule power_increasing) (simp_all add: MAX_STR_DIGITS_def)
  finally show "\<bar>i\<bar> < 10 ^ MAX_STR_DIGITS" .
qed

text \<open>
  The separators that \<open>strip\<close> removes and \<open>int\<close> refuses: a form field of a
  digit behind a file separator is a number for \<open>strip\<close> and an error for
  \<open>int\<close>; a non-breaking space is skipped by both.
\<close>

lemma py_int_separators:
  "strip [CHR 0x1C, CHR ''5''] = ''5''" "py_int [CHR 0x1C, CHR ''5''] = Inl ValueError"
  "py_int [CHR 0xA0, CHR ''5'', CHR 0x0A] = Inr 5" "py_int ''+1_000'' = Inr 1000"
  "py_int ''1__0'' = Inl ValueError" "py_int ''- 5'' = Inl ValueError"
  by (simp_all add: py_int_def int_strip_def int_space_def int_body_ok_def is_digit_def
      nat_of_digits_def digit_val_def MAX_STR_DIGITS_def pystr_eval)

lemma py_int_too_long:
  assumes "MAX_STR_DIGITS < length ds" and "list_all is_digit ds"
  shows "py_int ds = Inl ValueError"
proof -
  from assms have ne: "ds \<noteq> []" by auto
  with assms(2) have "is_digit (hd ds)" "is_digit (last ds)" by (auto simp: list_all_iff)
  then have "\<not> int_space (hd ds)" "\<not> int_space (last ds)" "hd ds \<noteq> CHR ''-''" "hd ds \<noteq> CHR ''+''"
    by (auto simp: is_digit_def int_space_def Let_def)
  with ne assms show ?thesis
    by (simp add: py_int_def Let_def int_strip_id list_all_iff)
qed

lemma py_int_Inl: "py_int s = Inl e \<Longrightarrow> e = ValueError"
  by (auto simp: py_int_def Let_def split: if_splits)

section \<open>Lemmas: JSON values\<close>

lemmas pyint_eval = py_int_def int_strip_def int_space_def MAX_STR_DIGITS_def int_body_ok_def
  is_digit_def nat_of_digits_def digit_val_def float_int_def split_at_def exponent_of_def
  int_or_0_def py_or_def

lemma int_or_0_falsy: "\<not> truthy v \<Longrightarrow> int_or_0 v = Inr 0"
  by (simp add: int_or_0_def)

lemma int_or_0_truthy: "truthy v \<Longrightarrow> int_or_0 v = json_int v"
  by (simp add: int_or_0_def)

lemma int_or_0_int [simp]: "int_or_0 (JInt i) = Inr i"
  by (simp add: int_or_0_def py_or_def)

lemma int_or_0_eq_0_falsy_or_zero:
  "int_or_0 v = Inr 0 \<longleftrightarrow> \<not> truthy v \<or> json_int v = Inr 0"
  by (cases "truthy v") (simp_all add: int_or_0_falsy int_or_0_truthy)

lemma json_int_Inl:
  "json_int v = Inl e \<Longrightarrow> e = TypeError \<or> e = ValueError \<or> e = OverflowError"
  by (cases v) (auto simp: float_int_def Let_def dest: py_int_Inl split: if_splits prod.splits)

lemma int_or_0_Inl:
  "int_or_0 v = Inl e \<Longrightarrow> e = TypeError \<or> e = ValueError \<or> e = OverflowError"
  unfolding int_or_0_def by (rule json_int_Inl)

lemma float_int_examples:
  "float_int ''12.5'' = Inr 12" "float_int ''-0.75'' = Inr 0" "float_int ''-3.0'' = Inr (- 3)"
  "float_int ''1e+16'' = Inr 10000000000000000" "float_int ''2.5e-05'' = Inr 0"
  "float_int ''-inf'' = Inl OverflowError" "float_int ''nan'' = Inl ValueError"
  by (simp_all add: pyint_eval)

end
