(* ===== verification/Store.thy ===== *)
theory Store
  imports Catalog
begin

text \<open>
  The operations of \<open>src/main.py\<close> on the tables other than \<open>Book\<close>, the
  interface through which every handler changes the database, and the
  invariant of the tables.

  \<^item> Users: \<open>load_user\<close> (\<open>User.query.get\<close>), \<open>find_user_by_email\<close>,
    \<open>insert_user\<close> and \<open>update_user\<close>, the flush of a changed \<open>User\<close> object.
    The unique constraint on \<open>email\<close> raises \<open>IntegrityError\<close>.
  \<^item> Reviews: \<open>insert_review\<close>, which refuses a rating outside the 64-bit
    range of SQLite. The source adds the row and commits, and the driver
    raises when the commit flushes the row; the model raises at the insert,
    and nothing happens between the two.
  \<^item> Favourites and history: \<open>find_favourite\<close>, \<open>insert_favourite\<close>,
    \<open>delete_favourite\<close>, \<open>find_history\<close>, \<open>insert_history\<close> and
    \<open>touch_history\<close>; both tables are unique in (user, book). \<open>sql_int\<close> is
    the binding of an integer to a parameter of a statement, which raises
    \<open>OverflowError\<close> outside the 64-bit range of SQLite.
  \<^item> \<open>db_op\<close> names every way in which the code changes a session, and \<open>exec\<close>
    is its effect. \<open>db_closed P\<close> says that \<open>P\<close> survives each of them; a
    handler that changes the session through these operations only (every
    handler of the development) keeps every such \<open>P\<close>.
  \<^item> \<open>tables_ok\<close> is the invariant of a copy of the tables: every table has
    unique ids, and the unique constraints of the models hold. \<open>store_ok\<close>
    states it of both copies of a session, \<open>sess_ok\<close> adds that nothing is
    pending, \<open>stored f B\<close> that the committed \<open>Book\<close> rows cover \<open>B\<close>
    under \<open>f\<close>, and \<open>members I\<close> that the ids \<open>I\<close> are ids of users in both
    copies. All of them are closed under the operations.
\<close>

section \<open>Users\<close>

definition load_user :: "nat \<Rightarrow> session \<Rightarrow> user option" where
  "load_user i s = find (\<lambda>u. u_id u = i) (users (live s))"

definition find_user_by_email :: "string \<Rightarrow> session \<Rightarrow> user option" where
  "find_user_by_email e s = find (\<lambda>u. u_email u = e) (users (live s))"

definition insert_user :: "user \<Rightarrow> (user, session) prog" where
  "insert_user u s =
     (if find_user_by_email (u_email u) s \<noteq> None then (Inl IntegrityError, s)
      else let u' = u\<lparr>u_id := next_id (map u_id (users (live s)))\<rparr>
           in (Inr u', s\<lparr>live := (live s)\<lparr>users := users (live s) @ [u']\<rparr>\<rparr>))"

definition update_user :: "user \<Rightarrow> (unit, session) prog" where
  "update_user u s =
     (if list_ex (\<lambda>v. u_id v \<noteq> u_id u \<and> u_email v = u_email u) (users (live s))
      then (Inl IntegrityError, s)
      else (Inr (), s\<lparr>live := (live s)\<lparr>users :=
              map (\<lambda>v. if u_id v = u_id u then u else v) (users (live s))\<rparr>\<rparr>))"

section \<open>Reviews\<close>

text \<open>
  An integer bound to a statement must fit SQLite's 64-bit \<open>INTEGER\<close>; the
  driver raises \<open>OverflowError\<close> otherwise and the statement is not run.
\<close>

definition sql_int :: "int \<Rightarrow> int result" where
  "sql_int i = (if - (2 ^ 63) \<le> i \<and> i < 2 ^ 63 then Inr i else Inl OverflowError)"

definition insert_review :: "review \<Rightarrow> (review, session) prog" where
  "insert_review r s =
     (case sql_int (r_rating r) of
        Inl e \<Rightarrow> (Inl e, s)
      | Inr _ \<Rightarrow>
          let r' = r\<lparr>r_id := next_id (map r_id (reviews (live s)))\<rparr>
          in (Inr r', s\<lparr>live := (live s)\<lparr>reviews := reviews (live s) @ [r']\<rparr>\<rparr>))"

section \<open>Favourites and history\<close>

definition find_favourite :: "nat \<Rightarrow> int \<Rightarrow> session \<Rightarrow> favourite option" where
  "find_favourite uid bid s =
     find (\<lambda>f. f_user_id f = uid \<and> f_book_id f = bid) (favourites (live s))"

definition insert_favourite :: "favourite \<Rightarrow> (favourite, session) prog" where
  "insert_favourite f s =
     (if find_favourite (f_user_id f) (f_book_id f) s \<noteq> None then (Inl IntegrityError, s)
      else let f' = f\<lparr>f_id := next_id (map f_id (favourites (live s)))\<rparr>
           in (Inr f', s\<lparr>live := (live s)\<lparr>favourites := favourites (live s) @ [f']\<rparr>\<rparr>))"

definition delete_favourite :: "favourite \<Rightarrow> (unit, session) prog" where
  "delete_favourite f s =
     (Inr (), s\<lparr>live := (live s)\<lparr>favourites :=
                 filter (\<lambda>g. f_id g \<noteq> f_id f) (favourites (live s))\<rparr>\<rparr>)"

definition find_history :: "nat \<Rightarrow> int \<Rightarrow> session \<Rightarrow> history option" where
  "find_history uid bid s =
     find (\<lambda>h. h_user_id h = uid \<and> h_book_id h = bid) (histories (live s))"

definition insert_history :: "history \<Rightarrow> (history, session) prog" where
  "insert_history h s =
     (if find_history (h_user_id h) (h_book_id h) s \<noteq> None then (Inl IntegrityError, s)
      else let h' = h\<lparr>h_id := next_id (map h_id (histories (live s)))\<rparr>
           in (Inr h', s\<lparr>live := (live s)\<lparr>histories := histories (live s) @ [h']\<rparr>\<rparr>))"

definition touch_history :: "history \<Rightarrow> nat \<Rightarrow> (unit, session) prog" where
  "touch_history h now s =
     (Inr (), s\<lparr>live := (live s)\<lparr>histories :=
                 map (\<lambda>g. if h_id g = h_id h then g\<lparr>h_viewed_at := now\<rparr> else g)
                   (histories (live s))\<rparr>\<rparr>)"

definition do_commit :: "(unit, session) prog" where
  "do_commit s = (Inr (), commit s)"

section \<open>The operations as an interface\<close>

datatype db_op =
    Insert_book book
  | Insert_user user
  | Update_user user
  | Insert_review review
  | Insert_favourite favourite
  | Delete_favourite favourite
  | Insert_history history
  | Touch_history history nat
  | Commit
  | Rollback

fun exec :: "db_op \<Rightarrow> session \<Rightarrow> session" where
  "exec (Insert_book b) s = snd (insert_book b s)"
| "exec (Insert_user u) s = snd (insert_user u s)"
| "exec (Update_user u) s = snd (update_user u s)"
| "exec (Insert_review r) s = snd (insert_review r s)"
| "exec (Insert_favourite f) s = snd (insert_favourite f s)"
| "exec (Delete_favourite f) s = snd (delete_favourite f s)"
| "exec (Insert_history h) s = snd (insert_history h s)"
| "exec (Touch_history h now) s = snd (touch_history h now s)"
| "exec Commit s = commit s"
| "exec Rollback s = rollback s"

definition db_closed :: "(session \<Rightarrow> bool) \<Rightarrow> bool" where
  "db_closed P \<longleftrightarrow> (\<forall>op s. P s \<longrightarrow> P (exec op s))"

section \<open>Invariant\<close>

definition fav_key :: "favourite \<Rightarrow> nat \<times> int" where
  "fav_key f = (f_user_id f, f_book_id f)"

definition hist_key :: "history \<Rightarrow> nat \<times> int" where
  "hist_key h = (h_user_id h, h_book_id h)"

definition tables_ok :: "tables \<Rightarrow> bool" where
  "tables_ok t \<longleftrightarrow>
     books_ok (books t)
     \<and> distinct (map u_id (users t)) \<and> distinct (map u_email (users t))
     \<and> distinct (map r_id (reviews t))
     \<and> distinct (map f_id (favourites t)) \<and> distinct (map fav_key (favourites t))
     \<and> distinct (map h_id (histories t)) \<and> distinct (map hist_key (histories t))"

definition store_ok :: "session \<Rightarrow> bool" where
  "store_ok s \<longleftrightarrow> tables_ok (live s) \<and> tables_ok (durable s)"

definition sess_ok :: "session \<Rightarrow> bool" where
  "sess_ok s \<longleftrightarrow> store_ok s \<and> live s = durable s"

definition stored :: "(book \<Rightarrow> 'a) \<Rightarrow> 'a set \<Rightarrow> session \<Rightarrow> bool" where
  "stored f B s \<longleftrightarrow>
     B \<subseteq> f ` set (books (durable s)) \<and> set (books (durable s)) \<subseteq> set (books (live s))"

definition members :: "nat set \<Rightarrow> session \<Rightarrow> bool" where
  "members I s \<longleftrightarrow>
     I \<subseteq> u_id ` set (users (durable s)) \<and> I \<subseteq> u_id ` set (users (live s))"

section \<open>Lemmas: the operations\<close>

lemma sql_int_Inr: "sql_int i = Inr j \<Longrightarrow> j = i"
  by (simp add: sql_int_def split: if_splits)

lemma sql_int_Inl: "sql_int i = Inl e \<Longrightarrow> e = OverflowError"
  by (simp add: sql_int_def split: if_splits)

lemma sql_int_range: "sql_int i = Inr i \<longleftrightarrow> - (2 ^ 63) \<le> i \<and> i < 2 ^ 63"
  by (simp add: sql_int_def)

lemma insert_review_overflow:
  "sql_int (r_rating r) \<noteq> Inr (r_rating r) \<Longrightarrow> insert_review r s = (Inl OverflowError, s)"
  by (auto simp: insert_review_def sql_int_def)

lemma insert_review_eq:
  "sql_int (r_rating r) = Inr (r_rating r) \<Longrightarrow>
   insert_review r s =
     (Inr (r\<lparr>r_id := next_id (map r_id (reviews (live s)))\<rparr>),
      s\<lparr>live := (live s)\<lparr>reviews := reviews (live s)
                 @ [r\<lparr>r_id := next_id (map r_id (reviews (live s)))\<rparr>]\<rparr>\<rparr>)"
  by (simp add: insert_review_def Let_def)

lemma find_favourite_Some:
  "find_favourite uid bid s = Some f \<Longrightarrow>
     f \<in> set (favourites (live s)) \<and> f_user_id f = uid \<and> f_book_id f = bid"
  by (auto simp: find_favourite_def find_Some_iff)

lemma find_favourite_None_iff:
  "find_favourite uid bid s = None \<longleftrightarrow> (uid, bid) \<notin> fav_key ` set (favourites (live s))"
  by (auto simp: find_favourite_def find_None_iff fav_key_def)

lemma find_history_Some:
  "find_history uid bid s = Some h \<Longrightarrow>
     h \<in> set (histories (live s)) \<and> h_user_id h = uid \<and> h_book_id h = bid"
  by (auto simp: find_history_def find_Some_iff)

lemma find_history_None_iff:
  "find_history uid bid s = None \<longleftrightarrow> (uid, bid) \<notin> hist_key ` set (histories (live s))"
  by (auto simp: find_history_def find_None_iff hist_key_def)

lemma find_user_by_email_None_iff:
  "find_user_by_email e s = None \<longleftrightarrow> e \<notin> u_email ` set (users (live s))"
  by (auto simp: find_user_by_email_def find_None_iff)

lemma load_user_Some: "load_user i s = Some u \<Longrightarrow> u \<in> set (users (live s)) \<and> u_id u = i"
  by (auto simp: load_user_def find_Some_iff)

lemma insert_favourite_fresh:
  "find_favourite (f_user_id f) (f_book_id f) s = None \<Longrightarrow>
     insert_favourite f s =
       (Inr (f\<lparr>f_id := next_id (map f_id (favourites (live s)))\<rparr>),
        s\<lparr>live := (live s)\<lparr>favourites := favourites (live s)
              @ [f\<lparr>f_id := next_id (map f_id (favourites (live s)))\<rparr>]\<rparr>\<rparr>)"
  by (simp add: insert_favourite_def Let_def)

lemma insert_history_fresh:
  "find_history (h_user_id h) (h_book_id h) s = None \<Longrightarrow>
     insert_history h s =
       (Inr (h\<lparr>h_id := next_id (map h_id (histories (live s)))\<rparr>),
        s\<lparr>live := (live s)\<lparr>histories := histories (live s)
              @ [h\<lparr>h_id := next_id (map h_id (histories (live s)))\<rparr>]\<rparr>\<rparr>)"
  by (simp add: insert_history_def Let_def)

lemmas store_eval = load_user_def find_user_by_email_def insert_user_def update_user_def
  insert_review_def sql_int_def find_favourite_def insert_favourite_def delete_favourite_def
  find_history_def insert_history_def touch_history_def do_commit_def fav_key_def hist_key_def

section \<open>Lemmas: what every operation keeps\<close>

lemma db_closedI:
  assumes "\<And>op s. P s \<Longrightarrow> P (exec op s)"
  shows "db_closed P"
  using assms by (simp add: db_closed_def)

lemma db_closed_exec: "db_closed P \<Longrightarrow> P s \<Longrightarrow> P (exec op s)"
  by (simp add: db_closed_def)

lemma db_closed_conj:
  "db_closed P \<Longrightarrow> db_closed Q \<Longrightarrow> db_closed (\<lambda>s. P s \<and> Q s)"
  by (simp add: db_closed_def)

lemma keeps_exec:
  assumes "db_closed P" and "\<And>s. snd (p s) = exec op s"
  shows "keeps P p"
proof (rule keepsI)
  fix s r s'
  assume "P s" and "p s = (r, s')"
  with db_closed_exec[OF assms(1), of s op] assms(2)[of s] show "P s'" by simp
qed

lemma keeps_insert_book [keeps_intros]: "db_closed P \<Longrightarrow> keeps P (insert_book b)"
  by (rule keeps_exec[where op = "Insert_book b"]) simp_all

lemma keeps_insert_user [keeps_intros]: "db_closed P \<Longrightarrow> keeps P (insert_user u)"
  by (rule keeps_exec[where op = "Insert_user u"]) simp_all

lemma keeps_update_user [keeps_intros]: "db_closed P \<Longrightarrow> keeps P (update_user u)"
  by (rule keeps_exec[where op = "Update_user u"]) simp_all

lemma keeps_insert_review [keeps_intros]: "db_closed P \<Longrightarrow> keeps P (insert_review r)"
  by (rule keeps_exec[where op = "Insert_review r"]) simp_all

lemma keeps_insert_favourite [keeps_intros]: "db_closed P \<Longrightarrow> keeps P (insert_favourite f)"
  by (rule keeps_exec[where op = "Insert_favourite f"]) simp_all

lemma keeps_delete_favourite [keeps_intros]: "db_closed P \<Longrightarrow> keeps P (delete_favourite f)"
  by (rule keeps_exec[where op = "Delete_favourite f"]) simp_all

lemma keeps_insert_history [keeps_intros]: "db_closed P \<Longrightarrow> keeps P (insert_history h)"
  by (rule keeps_exec[where op = "Insert_history h"]) simp_all

lemma keeps_touch_history [keeps_intros]: "db_closed P \<Longrightarrow> keeps P (touch_history h now)"
  by (rule keeps_exec[where op = "Touch_history h now"]) simp_all

lemma keeps_do_commit [keeps_intros]: "db_closed P \<Longrightarrow> keeps P do_commit"
  by (rule keeps_exec[where op = Commit]) (simp_all add: do_commit_def)

lemma db_closed_insert_book: "db_closed P \<Longrightarrow> P s \<Longrightarrow> insert_book b s = (r, s') \<Longrightarrow> P s'"
  by (rule keepsD[OF keeps_insert_book])

lemma db_closed_commit: "db_closed P \<Longrightarrow> P s \<Longrightarrow> P (commit s)"
  using db_closed_exec[of P s Commit] by simp

lemma db_closed_rollback: "db_closed P \<Longrightarrow> P s \<Longrightarrow> P (rollback s)"
  using db_closed_exec[of P s Rollback] by simp

section \<open>Lemmas: the invariant\<close>

lemma distinct_map_update:
  assumes "distinct (map k xs)" and "\<And>x. x \<in> set xs \<Longrightarrow> k (g x) = k x"
  shows "distinct (map (k \<circ> g) xs)"
proof -
  from assms(2) have "map (k \<circ> g) xs = map k xs" by (induction xs) auto
  then show ?thesis using assms(1) by (simp only:)
qed

lemma distinct_map_replace:
  assumes "distinct (map i xs)" and "distinct (map e xs)"
    and "\<forall>v \<in> set xs. i v \<noteq> i u \<longrightarrow> e v \<noteq> e u"
  shows "distinct (map e (map (\<lambda>v. if i v = i u then u else v) xs))"
  using assms by (induction xs) (auto simp: image_iff)

lemma distinct_map_snoc:
  "distinct (map k xs) \<Longrightarrow> k x \<notin> k ` set xs \<Longrightarrow> distinct (map k (xs @ [x]))"
  by simp

lemma next_id_not_in: "next_id (map k xs) \<notin> k ` set xs"
  using next_id_fresh[of "map k xs"] by simp

lemma tables_ok_insert_book:
  assumes "tables_ok (live s)"
  shows "tables_ok (live (snd (insert_book b s)))"
proof -
  from assms have "db_ok (s\<lparr>durable := live s\<rparr>)" by (simp add: db_ok_def tables_ok_def)
  from insert_book_db_ok[OF surjective_pairing this, of b]
  have "books_ok (books (live (snd (insert_book b s))))"
    by (auto simp: db_ok_def insert_book_def find_book_def Let_def split: if_splits)
  with assms show ?thesis
    by (auto simp: tables_ok_def insert_book_def Let_def)
qed

lemma tables_ok_insert_user:
  "tables_ok (live s) \<Longrightarrow> tables_ok (live (snd (insert_user u s)))"
  by (auto simp: tables_ok_def insert_user_def Let_def find_user_by_email_None_iff
      next_id_not_in)

lemma tables_ok_update_user:
  assumes "tables_ok (live s)"
  shows "tables_ok (live (snd (update_user u s)))"
proof (cases "list_ex (\<lambda>v. u_id v \<noteq> u_id u \<and> u_email v = u_email u) (users (live s))")
  case True
  with assms show ?thesis by (simp add: update_user_def)
next
  case False
  let ?us = "users (live s)"
  let ?g = "\<lambda>v. if u_id v = u_id u then u else v"
  from assms have d: "distinct (map u_id ?us)" "distinct (map u_email ?us)"
    by (simp_all add: tables_ok_def)
  have ids: "distinct (map u_id (map ?g ?us))"
    using distinct_map_update[OF d(1), of ?g] by simp
  from False have "\<forall>v \<in> set ?us. u_id v \<noteq> u_id u \<longrightarrow> u_email v \<noteq> u_email u"
    by (auto simp: list_ex_iff)
  from distinct_map_replace[OF d this] have "distinct (map u_email (map ?g ?us))" .
  with assms False ids show ?thesis by (simp add: tables_ok_def update_user_def)
qed

lemma tables_ok_insert_review:
  "tables_ok (live s) \<Longrightarrow> tables_ok (live (snd (insert_review r s)))"
  by (auto simp: tables_ok_def insert_review_def Let_def next_id_not_in split: sum.splits)

lemma tables_ok_insert_favourite:
  "tables_ok (live s) \<Longrightarrow> tables_ok (live (snd (insert_favourite f s)))"
  by (auto simp: tables_ok_def insert_favourite_def Let_def find_favourite_None_iff
      next_id_not_in fav_key_def)

lemma tables_ok_delete_favourite:
  "tables_ok (live s) \<Longrightarrow> tables_ok (live (snd (delete_favourite f s)))"
  by (auto simp: tables_ok_def delete_favourite_def distinct_map_filter)

lemma tables_ok_insert_history:
  "tables_ok (live s) \<Longrightarrow> tables_ok (live (snd (insert_history h s)))"
  by (auto simp: tables_ok_def insert_history_def Let_def find_history_None_iff
      next_id_not_in hist_key_def)

lemma tables_ok_touch_history:
  assumes "tables_ok (live s)"
  shows "tables_ok (live (snd (touch_history h now s)))"
proof -
  let ?g = "\<lambda>g. if h_id g = h_id h then g\<lparr>h_viewed_at := now\<rparr> else g"
  from assms have "distinct (map h_id (histories (live s)))"
    "distinct (map hist_key (histories (live s)))"
    by (simp_all add: tables_ok_def)
  then have "distinct (map h_id (map ?g (histories (live s))))"
    "distinct (map hist_key (map ?g (histories (live s))))"
    using distinct_map_update[of h_id "histories (live s)" ?g]
      distinct_map_update[of hist_key "histories (live s)" ?g]
    by (simp_all add: hist_key_def)
  with assms show ?thesis by (simp add: tables_ok_def touch_history_def)
qed

lemma durable_exec:
  "durable (exec op s) = (if op = Commit then live s else durable s)"
  by (cases op)
     (auto simp: insert_book_def insert_user_def update_user_def insert_review_def
       insert_favourite_def delete_favourite_def insert_history_def touch_history_def Let_def
       split: sum.splits)

lemma db_closed_store_ok: "db_closed store_ok"
proof (rule db_closedI)
  fix op s
  assume ok: "store_ok s"
  then have l: "tables_ok (live s)" and d: "tables_ok (durable s)" by (simp_all add: store_ok_def)
  have "tables_ok (live (exec op s))"
    using l d
    by (cases op)
       (simp_all add: tables_ok_insert_book tables_ok_insert_user tables_ok_update_user
         tables_ok_insert_review tables_ok_insert_favourite tables_ok_delete_favourite
         tables_ok_insert_history tables_ok_touch_history)
  with l d show "store_ok (exec op s)" by (simp add: store_ok_def durable_exec)
qed

lemma books_exec:
  "op \<noteq> Rollback \<Longrightarrow> set (books (live s)) \<subseteq> set (books (live (exec op s)))"
  by (cases op)
     (auto simp: insert_book_def insert_user_def update_user_def insert_review_def
       insert_favourite_def delete_favourite_def insert_history_def touch_history_def Let_def
       split: sum.splits)

lemma db_closed_stored: "db_closed (stored f B)"
proof (rule db_closedI)
  fix op s
  assume st: "stored f B s"
  show "stored f B (exec op s)"
  proof (cases "op = Rollback")
    case True
    with st show ?thesis by (simp add: stored_def)
  next
    case False
    from st have "B \<subseteq> f ` set (books (live s))" by (auto simp: stored_def)
    with st books_exec[OF False, of s] show ?thesis
      by (auto simp: stored_def durable_exec)
  qed
qed

lemma store_ok_db_ok: "store_ok s \<Longrightarrow> db_ok s"
  by (simp add: store_ok_def tables_ok_def db_ok_def)

lemma store_ok_new_session: "tables_ok t \<Longrightarrow> store_ok (new_session t)"
  by (simp add: store_ok_def)

lemma tables_ok_empty [simp]: "tables_ok empty_tables"
  by (simp add: tables_ok_def empty_tables_def)

lemma sess_ok_rollback: "sess_ok s \<Longrightarrow> rollback s = s"
  by (cases s) (simp add: sess_ok_def rollback_def)

lemma stored_new_session: "stored f (f ` set (books t)) (new_session t)"
  by (simp add: stored_def)

lemma user_ids_exec:
  "op \<noteq> Rollback \<Longrightarrow> u_id ` set (users (live s)) \<subseteq> u_id ` set (users (live (exec op s)))"
  by (cases op)
     (auto simp: insert_book_def insert_user_def update_user_def insert_review_def
       insert_favourite_def delete_favourite_def insert_history_def touch_history_def Let_def
       split: sum.splits)

lemma db_closed_members: "db_closed (members I)"
proof (rule db_closedI)
  fix op s
  assume m: "members I s"
  show "members I (exec op s)"
  proof (cases "op = Rollback")
    case True
    with m show ?thesis by (simp add: members_def)
  next
    case False
    with m user_ids_exec[OF False, of s] show ?thesis
      by (auto simp: members_def durable_exec)
  qed
qed

lemma members_mono: "members I s \<Longrightarrow> J \<subseteq> I \<Longrightarrow> members J s"
  by (auto simp: members_def)

lemma load_user_Some_iff_member:
  "load_user i s \<noteq> None \<longleftrightarrow> i \<in> u_id ` set (users (live s))"
  by (auto simp: load_user_def find_None_iff)

end
