(* ===== verification/Reviews.thy ===== *)
theory Reviews
  imports BookList Description TimeAgo PyInt Store
begin

text \<open>
  Reviews and the pages of one book (\<open>src/main.py\<close>: the routes
  \<open>book_details\<close>, \<open>book_reviews\<close> and \<open>add_review\<close>).

  The routes run over the \<open>app_state\<close> of \<open>BookList\<close>; the clock is an
  argument (\<open>now\<close>, in microseconds) and so is the id of the user who is
  logged in. \<open>rating_of\<close> is what \<open>add_review\<close> makes of the form field
  (\<open>int\<close> of a string raises \<open>ValueError\<close> on a text that is not a number);
  a rating outside the 64-bit range of SQLite is an \<open>OverflowError\<close> of the
  insert.
  \<open>reviews_of\<close> is the query for the reviews of a title, newest first (rows of equal time stay in table order, which SQL leaves open).
  \<open>display_user\<close> is the name shown beside a review. A route returns
  \<open>NotFound\<close> where the source redirects to the browse page, and \<open>Page\<close> of
  what the template receives.
\<close>

section \<open>The rating of a form\<close>

definition rating_of :: "string option \<Rightarrow> int result" where
  "rating_of v = (case v of None \<Rightarrow> Inr 0 | Some s \<Rightarrow> if s = [] then Inr 0 else py_int s)"

section \<open>Reviews of a book\<close>

definition review_author :: "review \<Rightarrow> session \<Rightarrow> user option" where
  "review_author r s = find (\<lambda>u. u_id u = r_user_id r) (users (live s))"

definition email_prefix :: "string \<Rightarrow> string" where
  "email_prefix e = takeWhile (\<lambda>c. c \<noteq> CHR ''@'') e"

definition display_user :: "user option \<Rightarrow> string" where
  "display_user ou =
     (let shown = (case ou of
                     None \<Rightarrow> []
                   | Some u \<Rightarrow>
                       strip (if u_handle u \<noteq> [] then u_handle u
                              else if u_name u \<noteq> [] then u_name u
                              else if u_email u \<noteq> [] then email_prefix (u_email u) else []))
      in if shown = [] then ''reader'' else shown)"

definition reviews_of :: "string \<Rightarrow> session \<Rightarrow> review list" where
  "reviews_of title s =
     sort_key (\<lambda>r. - int (r_created r)) (filter (\<lambda>r. r_book_title r = title) (reviews (live s)))"

record review_view =
  rv_user :: string
  rv_rating :: int
  rv_text :: string
  rv_age :: string

record review_item =
  ri_user :: string
  ri_rating :: int
  ri_text :: string
  ri_created :: nat

definition view_review :: "nat \<Rightarrow> session \<Rightarrow> review \<Rightarrow> review_view" where
  "view_review now s r =
     \<lparr>rv_user = display_user (review_author r s), rv_rating = r_rating r,
      rv_text = strip (r_text r), rv_age = time_ago (int now) (Some (int (r_created r)))\<rparr>"

definition item_review :: "session \<Rightarrow> review \<Rightarrow> review_item" where
  "item_review s r =
     \<lparr>ri_user = display_user (review_author r s), ri_rating = r_rating r,
      ri_text = strip (r_text r), ri_created = r_created r\<rparr>"

section \<open>The routes\<close>

definition lift_db :: "('a, session) prog \<Rightarrow> ('a, app_state) prog" where
  "lift_db p st = (case p (db st) of (r, s') \<Rightarrow> (r, st\<lparr>db := s'\<rparr>))"

definition lift_net :: "('a, world) prog \<Rightarrow> ('a, app_state) prog" where
  "lift_net p st = (case p (net st) of (r, w') \<Rightarrow> (r, st\<lparr>net := w'\<rparr>))"

definition find_by_title :: "string \<Rightarrow> rated_book list \<Rightarrow> rated_book option" where
  "find_by_title title rows = find (\<lambda>b. lower (ub_title b) = lower title) rows"

definition DEFAULT_DESCRIPTION :: string where
  "DEFAULT_DESCRIPTION =
     ''A gripping, imaginative novel that explores power, control, and identity. ''
     @ ''This edition features a modern cover while preserving the timeless themes.''"

datatype 'a page = NotFound | Page 'a

record details =
  dt_book :: rated_book
  dt_book_id :: "nat option"
  dt_description :: blurb
  dt_reviews :: "review_view list"
  dt_top_rated :: "rated_book list"

definition with_rating :: "rat option \<Rightarrow> rated_book \<Rightarrow> rated_book" where
  "with_rating avg book = book\<lparr>ub_rating := (case avg of None \<Rightarrow> 0 | Some a \<Rightarrow> a)\<rparr>"

definition description_or_default :: "blurb \<Rightarrow> blurb" where
  "description_or_default d = (if d = Plain [] then Plain DEFAULT_DESCRIPTION else d)"

text \<open>
  The page of one book in three blocks of the route: the lookup in the list
  (\<open>book_details\<close>), the reviews and the row of \<open>Book\<close> (\<open>book_page\<close>), and
  what is computed after the row is there (\<open>book_page_rest\<close>).
\<close>

definition book_page_rest ::
    "nat \<Rightarrow> rated_book \<Rightarrow> review list \<Rightarrow> book option \<Rightarrow> (details, app_state) prog" where
  "book_page_rest now book real_reviews bk_row =
     bnd (gets (\<lambda>st. avg_rating (ub_title book) (db st))) (\<lambda>avg.
     bnd (gets (\<lambda>st. map (view_review now (db st)) real_reviews)) (\<lambda>reviews_for_template.
     bnd (lift_net (ol_description_for (ub_title book) (ub_author book))) (\<lambda>description.
     bnd all_books_ui (\<lambda>all_rows.
       ret \<lparr>dt_book = with_rating avg book,
            dt_book_id = map_option b_id bk_row,
            dt_description = description_or_default description,
            dt_reviews = reviews_for_template,
            dt_top_rated = take 8 (sorted_by_rating all_rows)\<rparr>))))"

definition book_page :: "nat \<Rightarrow> rated_book \<Rightarrow> (details, app_state) prog" where
  "book_page now book =
     bnd (gets (\<lambda>st. take 25 (reviews_of (ub_title book) (db st)))) (\<lambda>real_reviews.
     bnd (lift_db (get_or_create_book_row book)) (book_page_rest now book real_reviews))"

definition book_details :: "nat \<Rightarrow> string \<Rightarrow> (details page, app_state) prog" where
  "book_details now title =
     bnd all_books_ui (\<lambda>rows.
       case find_by_title title rows of
         None \<Rightarrow> ret NotFound
       | Some book \<Rightarrow> bnd (book_page now book) (\<lambda>d. ret (Page d)))"

record review_list =
  rl_book :: rated_book
  rl_reviews :: "review_item list"
  rl_avg_rating :: rat
  rl_review_count :: nat

definition book_reviews :: "string \<Rightarrow> (review_list page, app_state) prog" where
  "book_reviews title =
     bnd all_books_ui (\<lambda>all_rows.
       case find_by_title title all_rows of
         None \<Rightarrow> ret NotFound
       | Some book \<Rightarrow>
           gets (\<lambda>st.
             let rows = reviews_of (ub_title book) (db st);
                 avg = avg_rating (ub_title book) (db st)
             in Page \<lparr>rl_book = book, rl_reviews = map (item_review (db st)) rows,
                       rl_avg_rating = (case avg of None \<Rightarrow> 0 | Some a \<Rightarrow> a),
                       rl_review_count = length rows\<rparr>))"

record review_form =
  rf_book_title :: "string option"
  rf_review :: "string option"
  rf_rating :: "string option"

datatype add_review_page = ReviewForm "rated_book list" | ReviewRejected | ReviewAdded

definition new_review :: "nat \<Rightarrow> nat \<Rightarrow> rated_book \<Rightarrow> int \<Rightarrow> string \<Rightarrow> review" where
  "new_review user_id now bk rating review_text =
     \<lparr>r_id = 0, r_user_id = user_id, r_book_title = ub_title bk, r_book_author = ub_author bk,
      r_book_cover = ub_cover bk, r_rating = rating, r_text = review_text, r_created = now\<rparr>"

definition add_review ::
    "nat \<Rightarrow> nat \<Rightarrow> http_method \<Rightarrow> review_form \<Rightarrow> (add_review_page, app_state) prog" where
  "add_review user_id now verb form =
     (if verb = POST
      then let book_title = form_field (rf_book_title form);
               review_text = form_field (rf_review form)
           in bnd (\<lambda>st. (rating_of (rf_rating form), st)) (\<lambda>rating.
              bnd all_books_ui (\<lambda>rows.
                case find_by_title book_title rows of
                  None \<Rightarrow> ret ReviewRejected
                | Some bk \<Rightarrow>
                    if review_text = [] then ret ReviewRejected
                    else bnd (lift_db (insert_review (new_review user_id now bk rating review_text)))
                           (\<lambda>_. bnd (lift_db do_commit) (\<lambda>_. ret ReviewAdded))))
      else bnd all_books_ui (\<lambda>rows. ret (ReviewForm rows)))"

section \<open>Example inputs\<close>

definition reader :: user where
  "reader = \<lparr>u_id = 7, u_email = ''ann@example.org'', u_password_hash = ''x'', u_name = [],
     u_handle = [], u_bio = []\<rparr>"

definition stars_form :: review_form where
  "stars_form = \<lparr>rf_book_title = Some ''1984 '', rf_review = Some '' Chilling. '',
     rf_rating = Some '' +5 ''\<rparr>"

definition word_form :: review_form where
  "word_form = stars_form\<lparr>rf_rating := Some ''five''\<rparr>"

text \<open>A state whose cache has a cover for every demo book, so that the list needs no request.\<close>

definition cached_app :: app_state where
  "cached_app = \<lparr>db = new_session empty_tables, net = down_world,
     demo_cache = (\<lambda>k. Some (CoverOnly ''https://covers.openlibrary.org/b/id/123-L.jpg''))\<rparr>"

definition stars_review :: review where
  "stars_review = \<lparr>r_id = 1, r_user_id = 7, r_book_title = ''1984'',
     r_book_author = ''George Orwell'',
     r_book_cover = ''https://covers.openlibrary.org/b/id/123-L.jpg'', r_rating = 5,
     r_text = ''Chilling.'', r_created = 1000\<rparr>"

definition reviewed_app :: app_state where
  "reviewed_app = cached_app\<lparr>db := new_session (empty_tables\<lparr>reviews := [stars_review]\<rparr>)\<rparr>"

section \<open>Lemmas: numbers\<close>

lemma rating_of_Inl: "rating_of v = Inl e \<Longrightarrow> e = ValueError"
  by (auto simp: rating_of_def dest: py_int_Inl split: option.splits if_splits)

section \<open>Lemmas: names\<close>

lemma display_user_nonempty [simp]: "display_user ou \<noteq> []"
  by (simp add: display_user_def Let_def)

lemma strip_reader: "strip ''reader'' = ''reader''"
  by (simp add: pystr_eval)

lemma display_user_stripped: "strip (display_user ou) = display_user ou"
  by (cases ou) (simp_all add: display_user_def Let_def strip_reader strip_idem)

lemma email_prefix_no_at: "CHR ''@'' \<notin> set (email_prefix e)"
  by (auto simp: email_prefix_def dest: set_takeWhileD)

section \<open>Lemmas: the query\<close>

lemma reviews_of_set:
  "set (reviews_of title s) = {r \<in> set (reviews (live s)). r_book_title r = title}"
  by (auto simp: reviews_of_def)

lemma sorted_neg_rev:
  "sorted (map (\<lambda>x. - int (f x)) xs) \<Longrightarrow> sorted (rev (map f xs))"
  by (induction xs) (auto simp: sorted_append)

lemma reviews_of_newest_first: "sorted (rev (map r_created (reviews_of title s)))"
  by (rule sorted_neg_rev) (simp add: reviews_of_def)

lemma reviews_of_sum:
  "sum_list (map r_rating (reviews_of title s))
     = sum_list (map r_rating (filter (\<lambda>r. r_book_title r = title) (reviews (live s))))"
proof -
  have "mset (reviews_of title s) = mset (filter (\<lambda>r. r_book_title r = title) (reviews (live s)))"
    by (simp add: reviews_of_def)
  then have "mset (map r_rating (reviews_of title s))
      = mset (map r_rating (filter (\<lambda>r. r_book_title r = title) (reviews (live s))))"
    by (metis mset_map)
  then show ?thesis by (metis sum_mset_sum_list)
qed

lemma reviews_of_length_le: "length (reviews_of title s) \<le> length (reviews (live s))"
  by (simp add: reviews_of_def)

section \<open>Lemmas: what the routes keep\<close>

lemma lift_db_eq: "p (db st) = (r, s') \<Longrightarrow> lift_db p st = (r, st\<lparr>db := s'\<rparr>)"
  by (simp add: lift_db_def)

lemma lift_net_db: "lift_net p st = (r, st') \<Longrightarrow> db st' = db st"
  by (auto simp: lift_net_def split: prod.splits)

lemma keeps_lift_db [keeps_intros]: "keeps P p \<Longrightarrow> keeps (\<lambda>st. P (db st)) (lift_db p)"
  by (auto simp: keeps_def lift_db_def split: prod.splits)

lemma keeps_lift_net [keeps_intros]: "keeps (\<lambda>st. P (db st)) (lift_net p)"
  by (auto simp: keeps_def lift_net_def split: prod.splits)

lemma keeps_get_or_create [keeps_intros]:
  assumes "db_closed P"
  shows "keeps P (get_or_create_book_row d)"
proof (rule keepsI)
  fix s r s'
  assume "P s" and "get_or_create_book_row d s = (r, s')"
  then show "P s'"
    by (auto simp: get_or_create_book_row_def Let_def
        split: option.splits prod.splits sum.splits if_splits
        dest: db_closed_insert_book[OF assms] intro: db_closed_commit[OF assms])
qed

lemma keeps_book_page_rest [keeps_intros]:
  "keeps (\<lambda>st. P (db st)) (book_page_rest now book real_reviews bk_row)"
  unfolding book_page_rest_def by (intro keeps_intros)

lemma keeps_book_page [keeps_intros]:
  "db_closed P \<Longrightarrow> keeps (\<lambda>st. P (db st)) (book_page now book)"
  unfolding book_page_def by (intro keeps_intros)

lemma keeps_book_details [keeps_intros]:
  "db_closed P \<Longrightarrow> keeps (\<lambda>st. P (db st)) (book_details now title)"
  unfolding book_details_def by (auto intro!: keeps_intros split: option.splits)

lemma keeps_book_reviews [keeps_intros]:
  "db_closed P \<Longrightarrow> keeps (\<lambda>st. P (db st)) (book_reviews title)"
  unfolding book_reviews_def by (auto intro!: keeps_intros split: option.splits)

lemma keeps_add_review [keeps_intros]:
  "db_closed P \<Longrightarrow> keeps (\<lambda>st. P (db st)) (add_review uid now verb form)"
  unfolding add_review_def Let_def
  by (auto intro!: keeps_intros keeps_const split: option.splits)

section \<open>Lemmas: the book page\<close>

lemma find_by_title_Some:
  "find_by_title title rows = Some b \<Longrightarrow> b \<in> set rows \<and> lower (ub_title b) = lower title"
  by (auto simp: find_by_title_def find_Some_iff)

lemma find_by_title_None:
  "find_by_title title rows = None \<longleftrightarrow> (\<forall>b \<in> set rows. lower (ub_title b) \<noteq> lower title)"
  by (auto simp: find_by_title_def find_None_iff)

lemma book_details_not_found:
  assumes "all_books_ui st = (Inr rows, st')" and "find_by_title title rows = None"
  shows "book_details now title st = (Inr NotFound, st')"
  using assms by (simp add: book_details_def bnd_def ret_def)

lemma description_or_default_nonempty: "description_or_default d \<noteq> Plain []"
  by (simp add: description_or_default_def DEFAULT_DESCRIPTION_def)

section \<open>Lemmas: the routes\<close>

lemma all_books_ui_db: "all_books_ui st = (r, st') \<Longrightarrow> db st' = db st"
  unfolding all_books_ui_def by (rule all_books_ui_of_db)

lemma add_review_GET:
  "add_review uid now GET form st =
     (case all_books_ui st of (Inl e, st') \<Rightarrow> (Inl e, st') | (Inr rows, st') \<Rightarrow> (Inr (ReviewForm rows), st'))"
  by (simp add: add_review_def bnd_ret_eq)

lemma add_review_bad_rating:
  "rating_of (rf_rating form) = Inl e \<Longrightarrow> add_review uid now POST form st = (Inl e, st)"
  by (simp add: add_review_def Let_def bnd_def)

lemma add_review_rejected:
  assumes "rating_of (rf_rating form) = Inr n" and "all_books_ui st = (Inr rows, st')"
    and "find_by_title (form_field (rf_book_title form)) rows = None
         \<or> form_field (rf_review form) = []"
  shows "add_review uid now POST form st = (Inr ReviewRejected, st')"
  using assms by (auto simp: add_review_def Let_def bnd_def ret_def split: option.splits)

lemma add_review_added:
  assumes "rating_of (rf_rating form) = Inr n" and "all_books_ui st = (Inr rows, st')"
    and "find_by_title (form_field (rf_book_title form)) rows = Some bk"
    and "form_field (rf_review form) \<noteq> []" and "sql_int n = Inr n"
  shows "add_review uid now POST form st =
     (Inr ReviewAdded,
      st'\<lparr>db := commit (snd (insert_review
                 (new_review uid now bk n (form_field (rf_review form))) (db st')))\<rparr>)"
  using assms
  by (simp add: add_review_def Let_def bnd_def ret_def lift_db_def insert_review_eq
      do_commit_def new_review_def)

lemma add_review_overflow:
  assumes "rating_of (rf_rating form) = Inr n" and "all_books_ui st = (Inr rows, st')"
    and "find_by_title (form_field (rf_book_title form)) rows = Some bk"
    and "form_field (rf_review form) \<noteq> []" and "sql_int n \<noteq> Inr n"
  shows "add_review uid now POST form st = (Inl OverflowError, st')"
  using assms
  by (simp add: add_review_def Let_def bnd_def ret_def lift_db_def insert_review_overflow
      new_review_def)

lemma add_review_POST_cases [consumes 1, case_names bad_rating no_list rejected overflow added]:
  assumes "add_review uid now POST form st = (r, st')"
  obtains "rating_of (rf_rating form) = Inl ValueError" "r = Inl ValueError" "st' = st"
  | n e where "rating_of (rf_rating form) = Inr n" "all_books_ui st = (Inl e, st')" "r = Inl e"
  | n rows where "rating_of (rf_rating form) = Inr n" "all_books_ui st = (Inr rows, st')"
      "find_by_title (form_field (rf_book_title form)) rows = None
       \<or> form_field (rf_review form) = []" "r = Inr ReviewRejected"
  | n rows bk where "rating_of (rf_rating form) = Inr n" "all_books_ui st = (Inr rows, st')"
      "find_by_title (form_field (rf_book_title form)) rows = Some bk"
      "form_field (rf_review form) \<noteq> []" "sql_int n \<noteq> Inr n" "r = Inl OverflowError"
  | n rows bk st1 where "rating_of (rf_rating form) = Inr n" "all_books_ui st = (Inr rows, st1)"
      "find_by_title (form_field (rf_book_title form)) rows = Some bk"
      "form_field (rf_review form) \<noteq> []" "sql_int n = Inr n" "r = Inr ReviewAdded"
      "st' = st1\<lparr>db := commit (snd (insert_review
                 (new_review uid now bk n (form_field (rf_review form))) (db st1)))\<rparr>"
proof (cases "rating_of (rf_rating form)")
  case (Inl x)
  with assms rating_of_Inl[OF Inl] that(1) show thesis by (simp add: add_review_bad_rating)
next
  case (Inr n)
  obtain r1 st1 where l: "all_books_ui st = (r1, st1)" by fastforce
  show thesis
  proof (cases r1)
    case (Inl x)
    with assms Inr l that(2)[of n x] show thesis by (simp add: add_review_def Let_def bnd_def)
  next
    case rows: (Inr rows)
    note l = l[unfolded rows]
    consider "find_by_title (form_field (rf_book_title form)) rows = None
        \<or> form_field (rf_review form) = []"
      | bk where "find_by_title (form_field (rf_book_title form)) rows = Some bk"
        "form_field (rf_review form) \<noteq> []" "sql_int n \<noteq> Inr n"
      | bk where "find_by_title (form_field (rf_book_title form)) rows = Some bk"
        "form_field (rf_review form) \<noteq> []" "sql_int n = Inr n"
      by (cases "find_by_title (form_field (rf_book_title form)) rows") auto
    then show thesis
    proof cases
      case 1
      with assms that(3)[OF Inr _ 1] l show thesis by (simp add: add_review_rejected[OF Inr l 1])
    next
      case (2 bk)
      with assms that(4)[OF Inr _ 2] l show thesis by (simp add: add_review_overflow[OF Inr l 2])
    next
      case (3 bk)
      with assms that(5)[OF Inr l 3] show thesis by (simp add: add_review_added[OF Inr l 3])
    qed
  qed
qed

lemma all_books_ui_Inl:
  "all_books_ui st = (Inl e, st') \<Longrightarrow> e = AttributeError \<or> e = TypeError"
  unfolding all_books_ui_def by (auto dest: all_books_ui_of_Inl)

lemma cached_list:
  assumes "demo_cache st = demo_cache cached_app" and "books (live (db st)) = []"
  shows "\<exists>rows. all_books_ui st = (Inr rows, st)
      \<and> find_by_title ''1984'' rows = Some orwell_row"
  using assms
  by (simp add: all_books_ui_def all_books_ui_of_def demo_item_eq demo_best_cover_def BOOKS_def
      cached_app_def bnd_def or_default_def find_by_title_def orwell_row_def
      bronte_def pystr_eval)

lemma cached_app_list:
  obtains rows where "all_books_ui cached_app = (Inr rows, cached_app)"
    and "find_by_title ''1984'' rows = Some orwell_row"
  using cached_list[of cached_app] by (auto simp: cached_app_def empty_tables_def)

lemma get_or_create_stored:
  assumes "get_or_create_book_row d s = (r, s')"
    and "strip (ub_title d) \<noteq> []" and "strip (ub_author d) \<noteq> []" and "live s = durable s"
  shows "stored book_key {(strip (ub_title d), strip (ub_author d))} s'"
proof (cases "find_book (strip (ub_title d)) (strip (ub_author d)) s")
  case None
  with assms(2,3) obtain b s1 where "get_or_create_book_row d s = (Inr (Some b), commit s1)"
    and "find_book (strip (ub_title d)) (strip (ub_author d)) s1 = Some b"
    by (auto elim: get_or_create_new)
  with assms(1) show ?thesis
    by (auto simp: stored_def book_key_def dest!: find_book_Some intro!: image_eqI[where x = b])
next
  case (Some b)
  with assms show ?thesis
    by (auto simp: get_or_create_existing stored_def book_key_def dest!: find_book_Some
        intro!: image_eqI[where x = b])
qed

lemma book_page_stored:
  assumes "book_page now bk st = (r, st')"
    and "strip (ub_title bk) \<noteq> []" and "strip (ub_author bk) \<noteq> []"
    and "live (db st) = durable (db st)"
  shows "stored book_key {(strip (ub_title bk), strip (ub_author bk))} (db st')"
proof (rule bnd_post[where Q = "\<lambda>st. stored book_key _ (db st)"])
  show "bnd (lift_db (get_or_create_book_row bk))
          (book_page_rest now bk (take 25 (reviews_of (ub_title bk) (db st)))) st = (r, st')"
    using assms(1) by (simp add: book_page_def)
  show "stored book_key {(strip (ub_title bk), strip (ub_author bk))} (db s1)"
    if "lift_db (get_or_create_book_row bk) st = (x, s1)" for x s1
    using that get_or_create_stored[OF surjective_pairing assms(2,3,4)]
    by (auto simp: lift_db_def split: prod.splits)
qed (rule keeps_book_page_rest)

lemma stars_form_fields:
  "form_field (rf_book_title stars_form) = ''1984''"
  "form_field (rf_review stars_form) = ''Chilling.''"
  "rating_of (rf_rating stars_form) = Inr 5"
  by (simp_all add: stars_form_def form_field_def rating_of_def pyint_eval Let_def pystr_eval)

section \<open>Properties\<close>

text \<open>
  C29 (functional). A posted review is stored once, as written, or not at
  all: when the rating reads as an integer \<open>n\<close>, the title names a book of the
  list and the text is not blank, then for \<open>n\<close> in the 64-bit range of SQLite
  \<open>add_review\<close> answers with the redirect to the profile and has committed
  exactly one new row of \<open>Review\<close>, under the next id, for the user who is
  logged in, with the listed book's title, author and cover, the rating
  \<open>n\<close> and the stripped text, and nothing else is written; for any other
  \<open>n\<close> it raises \<open>OverflowError\<close> and the database is as before.
\<close>

theorem add_review_stores_one_review:
  assumes "rating_of (rf_rating form) = Inr n" and "all_books_ui st = (Inr rows, st1)"
    and "find_by_title (form_field (rf_book_title form)) rows = Some bk"
    and "form_field (rf_review form) \<noteq> []"
    and "add_review uid now POST form st = (r, st')"
  shows "(- (2 ^ 63) \<le> n \<and> n < 2 ^ 63 \<longrightarrow>
            r = Inr ReviewAdded
          \<and> reviews (durable (db st')) = reviews (live (db st))
                @ [\<lparr>r_id = next_id (map r_id (reviews (live (db st)))), r_user_id = uid,
                    r_book_title = ub_title bk, r_book_author = ub_author bk,
                    r_book_cover = ub_cover bk, r_rating = n,
                    r_text = form_field (rf_review form), r_created = now\<rparr>]
          \<and> next_id (map r_id (reviews (live (db st)))) \<notin> r_id ` set (reviews (live (db st)))
          \<and> live (db st') = durable (db st') \<and> books (live (db st')) = books (live (db st)))
       \<and> (\<not> (- (2 ^ 63) \<le> n \<and> n < 2 ^ 63) \<longrightarrow> r = Inl OverflowError \<and> db st' = db st)"
proof (cases "sql_int n = Inr n")
  case True
  then have rng: "- (2 ^ 63) \<le> n \<and> n < 2 ^ 63" by (simp add: sql_int_range)
  from assms(5) next_id_fresh[of "map r_id (reviews (live (db st)))"] True rng show ?thesis
    unfolding add_review_added[OF assms(1-4) True]
    by (auto simp: insert_review_eq new_review_def all_books_ui_db[OF assms(2)])
next
  case False
  then have "\<not> (- (2 ^ 63) \<le> n \<and> n < 2 ^ 63)" by (simp add: sql_int_range)
  with assms(5) all_books_ui_db[OF assms(2)] show ?thesis
    unfolding add_review_overflow[OF assms(1-4) False] by auto
qed

theorem add_review_stores_one_review_witness:
  "reviews (durable (db (snd (add_review 7 1000 POST stars_form cached_app)))) = [stars_review]
   \<and> fst (add_review 7 1000 POST (stars_form\<lparr>rf_rating := Some ''9223372036854775808''\<rparr>)
          cached_app) = Inl OverflowError"
proof -
  let ?big = "stars_form\<lparr>rf_rating := Some ''9223372036854775808''\<rparr>"
  obtain rows where rows: "all_books_ui cached_app = (Inr rows, cached_app)"
    and bk: "find_by_title (form_field (rf_book_title stars_form)) rows = Some orwell_row"
    by (rule cached_app_list) (simp add: stars_form_fields)
  have big: "rating_of (rf_rating ?big) = Inr 9223372036854775808"
    "form_field (rf_book_title ?big) = form_field (rf_book_title stars_form)"
    "form_field (rf_review ?big) = form_field (rf_review stars_form)"
    by (simp_all add: rating_of_def pyint_eval)
  from add_review_stores_one_review[OF stars_form_fields(3) rows bk _ surjective_pairing,
      of 7 1000]
  have "reviews (durable (db (snd (add_review 7 1000 POST stars_form cached_app)))) = [stars_review]"
    by (auto simp: stars_form_fields cached_app_def empty_tables_def orwell_row_def
        stars_review_def next_id_def)
  moreover from add_review_stores_one_review[OF big(1) rows bk[folded big(2)] _ surjective_pairing,
      of 7 1000]
  have "fst (add_review 7 1000 POST ?big cached_app) = Inl OverflowError"
    by (simp add: big(3) stars_form_fields)
  ultimately show ?thesis by simp
qed

text \<open>
  A rating that is not an integer literal is an uncaught
  \<open>ValueError\<close>: \<open>add_review\<close> raises it before it reads the list of books,
  so no request is sent and nothing is written.
\<close>

theorem add_review_bad_rating_raises:
  assumes "rating_of (rf_rating form) = Inl e"
  shows "add_review uid now POST form st = (Inl ValueError, st)"
  using add_review_bad_rating[OF assms] rating_of_Inl[OF assms] by simp

theorem add_review_bad_rating_raises_witness:
  "rating_of (rf_rating word_form) = Inl ValueError
   \<and> add_review 7 1000 POST word_form cached_app = (Inl ValueError, cached_app)"
proof -
  have "rating_of (rf_rating word_form) = Inl ValueError"
    by (simp add: word_form_def stars_form_def rating_of_def pyint_eval Let_def pystr_eval)
  with add_review_bad_rating_raises[of word_form ValueError 7 1000 cached_app] show ?thesis
    by simp
qed

text \<open>
  The rating is not checked against the range of the stars: every integer
  of the 64-bit range that the form carries is stored, a negative one or one
  of nineteen digits as well.
\<close>

theorem add_review_rating_unchecked:
  assumes "all_books_ui st = (Inr rows, st1)"
    and "find_by_title (form_field (rf_book_title form)) rows = Some bk"
    and "form_field (rf_review form) \<noteq> []" and "rf_rating form = Some (str_of_int n)"
    and "- (2 ^ 63) \<le> n" and "n < 2 ^ 63"
  shows "fst (add_review uid now POST form st) = Inr ReviewAdded
       \<and> r_rating (last (reviews (durable (db (snd (add_review uid now POST form st)))))) = n"
proof -
  have "str_of_int n \<noteq> []" by (cases "n < 0") (simp_all add: str_of_int_def digits_of_nonempty)
  with assms(4-6) have "rating_of (rf_rating form) = Inr n"
    by (simp add: rating_of_def py_int_str_of_int_64)
  moreover from assms(5,6) have "sql_int n = Inr n" by (simp add: sql_int_range)
  ultimately show ?thesis
    using add_review_added[OF _ assms(1-3), of n uid now]
    by (simp add: insert_review_eq new_review_def)
qed

text \<open>
  What \<open>add_review\<close> can raise, and that it then has written nothing: the
  \<open>ValueError\<close> of a rating that is no integer literal, the \<open>OverflowError\<close>
  of a rating outside the 64-bit range, and what the list of books raises.
\<close>

theorem add_review_failures:
  assumes "add_review uid now verb form st = (Inl e, st')"
  shows "db st' = db st
       \<and> (e = ValueError \<or> e = OverflowError \<or> e = AttributeError \<or> e = TypeError)"
proof (cases "verb = POST")
  case False
  with assms show ?thesis
    by (auto simp: add_review_def bnd_def ret_def split: prod.splits sum.splits
        dest: all_books_ui_Inl all_books_ui_db)
next
  case True
  from assms[unfolded True] show ?thesis
    by (cases rule: add_review_POST_cases) (auto dest: all_books_ui_Inl all_books_ui_db)
qed

text \<open>
  C31 (functional). The page of all reviews of a book is the page of the
  first listed book whose title equals the given one up to case; it lists
  exactly the reviews stored under that book's title, newest first, with
  their count; the average shown is their mean, and 0 when there is none.
  The page writes nothing.
\<close>

theorem book_reviews_page:
  assumes "book_reviews title st = (Inr (Page p), st')"
  shows "(\<exists>rows. all_books_ui st = (Inr rows, st') \<and> find_by_title title rows = Some (rl_book p))
       \<and> map ri_created (rl_reviews p) = map r_created (reviews_of (ub_title (rl_book p)) (db st))
       \<and> map ri_rating (rl_reviews p) = map r_rating (reviews_of (ub_title (rl_book p)) (db st))
       \<and> sorted (rev (map ri_created (rl_reviews p)))
       \<and> rl_review_count p = length (rl_reviews p)
       \<and> rl_review_count p = length (filter (\<lambda>r. r_book_title r = ub_title (rl_book p))
                                         (reviews (live (db st))))
       \<and> (rl_review_count p = 0 \<longrightarrow> rl_avg_rating p = 0)
       \<and> rl_avg_rating p * of_nat (rl_review_count p)
           = of_int (sum_list (map ri_rating (rl_reviews p)))
       \<and> db st' = db st"
proof -
  from assms obtain rows bk where rows: "all_books_ui st = (Inr rows, st')"
    and bk0: "find_by_title title rows = Some bk"
    and p0: "p = \<lparr>rl_book = bk,
        rl_reviews = map (item_review (db st')) (reviews_of (ub_title bk) (db st')),
        rl_avg_rating = (case avg_rating (ub_title bk) (db st') of None \<Rightarrow> 0 | Some a \<Rightarrow> a),
        rl_review_count = length (reviews_of (ub_title bk) (db st'))\<rparr>"
    by (auto simp: book_reviews_def bnd_eq_Inr_iff gets_def ret_def Let_def split: option.splits)
  from p0 have b: "bk = rl_book p" by simp
  note bk = bk0[unfolded b] and p = p0[unfolded b]
  note db = all_books_ui_db[OF rows]
  let ?t = "ub_title (rl_book p)"
  have created: "map ri_created (rl_reviews p) = map r_created (reviews_of ?t (db st))"
    by (subst p) (simp add: db item_review_def comp_def)
  have each: "map ri_rating (rl_reviews p) = map r_rating (reviews_of ?t (db st))"
    by (subst p) (simp add: db item_review_def comp_def)
  have ratings: "sum_list (map ri_rating (rl_reviews p))
      = sum_list (map r_rating (filter (\<lambda>r. r_book_title r = ?t) (reviews (live (db st)))))"
    by (subst p) (simp add: db item_review_def comp_def reviews_of_sum)
  have count: "rl_review_count p = length (filter (\<lambda>r. r_book_title r = ?t) (reviews (live (db st))))"
    by (subst p) (simp add: db reviews_of_def)
  have len: "rl_review_count p = length (rl_reviews p)" by (subst p, subst (2) p) simp
  have avg: "rl_avg_rating p = (case avg_rating ?t (db st) of None \<Rightarrow> 0 | Some a \<Rightarrow> a)"
    by (subst p) (simp add: db)
  from rows bk created each reviews_of_newest_first[of ?t "db st"] count len avg ratings db
  show ?thesis by (auto simp: avg_rating_def Let_def)
qed

theorem book_reviews_page_witness:
  "\<exists>p. book_reviews ''1984'' reviewed_app = (Inr (Page p), reviewed_app)
      \<and> rl_review_count p = 1 \<and> rl_avg_rating p = 5 \<and> map ri_created (rl_reviews p) = [1000]"
proof -
  obtain rows where rows: "all_books_ui reviewed_app = (Inr rows, reviewed_app)"
    and bk: "find_by_title ''1984'' rows = Some orwell_row"
    using cached_list[of reviewed_app] by (auto simp: reviewed_app_def empty_tables_def)
  then obtain p where p: "book_reviews ''1984'' reviewed_app = (Inr (Page p), reviewed_app)"
    by (simp add: book_reviews_def bnd_def gets_def Let_def)
  from book_reviews_page[OF p] rows bk have "rl_book p = orwell_row" by simp
  with book_reviews_page[OF p] show ?thesis
    unfolding p
    by (auto simp: reviewed_app_def empty_tables_def stars_review_def reviews_of_def
        orwell_row_def)
qed

text \<open>
  C30 (safety). The page of a book writes: for a listed book with a title
  and an author, \<open>book_details\<close> leaves a committed row of \<open>Book\<close> with the
  stripped title and author, also when the page itself fails afterwards (the
  description lookup can raise), because \<open>get_or_create_book_row\<close> commits
  before the description is fetched.
\<close>

theorem book_details_stores_the_book:
  assumes "all_books_ui st = (Inr rows, st1)" and "find_by_title title rows = Some bk"
    and "strip (ub_title bk) \<noteq> []" and "strip (ub_author bk) \<noteq> []"
    and "live (db st) = durable (db st)" and "book_details now title st = (r, st')"
  shows "(strip (ub_title bk), strip (ub_author bk)) \<in> book_key ` set (books (durable (db st')))"
proof -
  from assms(1,2,6) obtain r1 where "book_page now bk st1 = (r1, st')"
    by (auto simp: book_details_def bnd_def ret_def split: prod.splits sum.splits)
  from book_page_stored[OF this assms(3,4)] assms(5) all_books_ui_db[OF assms(1)]
  show ?thesis by (simp add: stored_def)
qed

theorem book_details_stores_the_book_witness:
  "(''1984'', ''George Orwell'')
     \<in> book_key ` set (books (durable (db (snd (book_details 1000 ''1984'' cached_app)))))"
proof -
  obtain rows where rows: "all_books_ui cached_app = (Inr rows, cached_app)"
    and bk: "find_by_title ''1984'' rows = Some orwell_row"
    by (rule cached_app_list)
  from book_details_stores_the_book[OF rows bk _ _ _ surjective_pairing, of 1000]
  show ?thesis by (simp add: orwell_row_def cached_app_def pystr_eval)
qed

text \<open>
  A consequence for the demo books: once the page of a demo book has been
  opened, every list shows that book twice, as a demo book and as the row the
  page has added.
\<close>

theorem book_details_duplicates_demo_book:
  assumes "all_books_ui st = (Inr rows, st1)" and "find_by_title title rows = Some bk"
    and "d \<in> set BOOKS" and "row_key bk = demo_key d"
    and "strip (d_title d) = d_title d" and "strip (d_author d) = d_author d"
    and "d_title d \<noteq> []" and "d_author d \<noteq> []"
    and "live (db st) = durable (db st)" and "book_details now title st = (r, st')"
    and "all_books_ui st' = (Inr rows', st2)"
  shows "\<not> distinct (map row_key rows')"
proof -
  from assms(4) have k: "ub_title bk = d_title d" "ub_author bk = d_author d"
    by (simp_all add: row_key_def demo_key_def)
  from assms(1,2,10) obtain r1 where "book_page now bk st1 = (r1, st')"
    by (auto simp: book_details_def bnd_def ret_def split: prod.splits sum.splits)
  from book_page_stored[OF this] assms(5-9) all_books_ui_db[OF assms(1)]
  obtain b where "b \<in> set (books (live (db st')))" "book_key b = demo_key d"
    by (auto simp: stored_def k demo_key_def)
  with all_books_ui_of_duplicate[OF assms(11)[unfolded all_books_ui_def] assms(3)]
  show ?thesis by simp
qed

end
