(* ===== verification/Search.thy ===== *)
theory Search
  imports Matcher
begin

text \<open>
  The two search wrappers over Open Library (\<open>src/main.py\<close>, \<open>_ol_search\<close>
  and the route \<open>/api/openlibrary\<close>).

  Both send one request and turn every record of the answer into a dict of
  seven strings, keeping the records that have a title and an author. The
  loop bodies of the two are the same code: \<open>search_record\<close> is that body
  (\<open>None\<close> when the record is not appended), \<open>search_results\<close> the loop.
  \<open>ol_search\<close> has no \<open>try\<close>: a failed request leaves the function as an
  exception (\<open>TransportError\<close> stands for whatever \<open>urlopen\<close> or \<open>json.loads\<close>
  raised). \<open>api_openlibrary\<close> catches it and answers with the empty list;
  its argument is \<open>request.args.get("q")\<close>. In both, the loop is outside any
  \<open>try\<close>, so a body of the wrong shape raises.

  \<open>hit_ok\<close> states what every returned dict satisfies. The lemmas relate the
  fields to the ones the matcher reads from the same record.
\<close>

section \<open>Definitions\<close>

record search_hit =
  s_title :: string
  s_author :: string
  s_year :: string
  s_cover :: string
  s_cover_i :: string
  s_isbn :: string
  s_olid :: string

definition doc_title :: "json \<Rightarrow> string result" where
  "doc_title d = rbind (dict_get d ''title'') (\<lambda>t. str_strip (py_or t (JStr [])))"

definition doc_author :: "json \<Rightarrow> string result" where
  "doc_author d =
     rbind (dict_get d ''author_name'') (\<lambda>authors.
       if isinstance_list authors \<and> truthy authors
       then rbind (index0 authors) (\<lambda>a0. str_strip (py_or a0 (JStr [])))
       else Inr [])"

definition doc_year :: "json \<Rightarrow> string result" where
  "doc_year d =
     rbind (dict_get d ''first_publish_year'') (\<lambda>y.
       Inr (if isinstance_int y then py_str y else []))"

definition search_record :: "json \<Rightarrow> search_hit option result" where
  "search_record d =
     rbind (doc_title d) (\<lambda>title.
     rbind (doc_author d) (\<lambda>author.
     rbind (doc_year d) (\<lambda>year.
     rbind (dict_get d ''cover_i'') (\<lambda>c.
     rbind (dict_get d ''isbn'') (\<lambda>isbns.
     rbind (first_str isbns) (\<lambda>isbn.
     rbind (dict_get d ''edition_key'') (\<lambda>edition_keys.
     rbind (first_str edition_keys) (\<lambda>olid.
       let cover_i = strip (py_str (py_or c (JStr [])));
           cover = ol_cover_url cover_i isbn olid
       in Inr (if title \<noteq> [] \<and> author \<noteq> []
               then Some \<lparr>s_title = title, s_author = author, s_year = year, s_cover = cover,
                          s_cover_i = cover_i, s_isbn = isbn, s_olid = olid\<rparr>
               else None)))))))))"

definition search_results :: "json \<Rightarrow> search_hit list result" where
  "search_results data =
     rbind (dict_get data ''docs'') (\<lambda>d.
     rbind (py_iter (py_or d (JArr []))) (\<lambda>docs.
     rbind (rmap search_record docs) (\<lambda>hits. Inr (List.map_filter id hits))))"

definition ol_search :: "string \<Rightarrow> int \<Rightarrow> int \<Rightarrow> (search_hit list, world) prog" where
  "ol_search term limit page w =
     (let url = search_url term (''&limit='' @ str_of_int limit @ ''&page='' @ str_of_int page);
          (resp, w') = urlopen_json url w
      in case resp of
           None \<Rightarrow> (Inl TransportError, w')
         | Some data \<Rightarrow> (search_results data, w'))"

definition api_openlibrary :: "string option \<Rightarrow> (search_hit list, world) prog" where
  "api_openlibrary arg w =
     (let q = strip (case arg of None \<Rightarrow> [] | Some s \<Rightarrow> s)
      in if q = [] then (Inr [], w)
         else let url = search_url q ''&limit=10'';
                  (resp, w') = urlopen_json url w
              in case resp of
                   None \<Rightarrow> (Inr [], w')
                 | Some data \<Rightarrow> (search_results data, w'))"

text \<open>What every returned dict satisfies.\<close>

definition hit_ok :: "search_hit \<Rightarrow> bool" where
  "hit_ok h \<longleftrightarrow>
     s_title h \<noteq> [] \<and> s_author h \<noteq> []
     \<and> strip (s_title h) = s_title h \<and> strip (s_author h) = s_author h
     \<and> s_cover h = ol_cover_url (s_cover_i h) (s_isbn h) (s_olid h)"

text \<open>The identifiers of a hit, as the record the matcher returns.\<close>

definition meta_of_hit :: "search_hit \<Rightarrow> ol_meta" where
  "meta_of_hit h = \<lparr>m_cover = s_cover h, m_cover_i = s_cover_i h, m_isbn = s_isbn h,
     m_olid = s_olid h, m_year = s_year h\<rparr>"

text \<open>The dict appended for a record, if any, from what was read of it.\<close>

definition mk_hit :: "ol_meta \<Rightarrow> string \<Rightarrow> string \<Rightarrow> search_hit option" where
  "mk_hit m title author =
     (if title \<noteq> [] \<and> author \<noteq> []
      then Some \<lparr>s_title = title, s_author = author, s_year = m_year m, s_cover = m_cover m,
             s_cover_i = m_cover_i m, s_isbn = m_isbn m, s_olid = m_olid m\<rparr>
      else None)"

text \<open>A body with a record that has no author, between two that have one.\<close>

definition anon_doc :: json where
  "anon_doc = JObj [(''title'', JStr ''Beowulf''), (''cover_i'', JInt 5)]"

definition search_body :: json where
  "search_body = JObj [(''docs'', JArr [demo_doc, anon_doc, twin_doc])]"

definition search_world :: world where
  "search_world = \<lparr>calls = [], respond = (\<lambda>n url. Some search_body)\<rparr>"

section \<open>Lemmas: one record\<close>

lemmas search_eval = matcher_eval doc_title_def doc_author_def doc_year_def search_record_def
  search_results_def ol_search_def api_openlibrary_def first_str_def List.map_filter_def
  anon_doc_def search_body_def search_world_def demo_doc_def twin_doc_def

lemma doc_title_low_doc_title: "doc_title_low d = rbind (doc_title d) (\<lambda>s. Inr (lower s))"
  by (simp add: doc_title_low_def doc_title_def rbind_assoc)

lemma first_author_low_doc_author:
  "first_author_low d = rbind (doc_author d) (\<lambda>s. Inr (lower s))"
  by (cases d) (simp_all add: first_author_low_def doc_author_def rbind_assoc lower_def)

lemma doc_title_Inr: "doc_title d = Inr t \<Longrightarrow> strip t = t"
  by (auto simp: doc_title_def rbind_eq_Inr_iff str_strip_Inr_iff)

lemma doc_author_Inr: "doc_author d = Inr a \<Longrightarrow> strip a = a"
  by (auto simp: doc_author_def rbind_eq_Inr_iff str_strip_Inr_iff split: if_splits)

lemma doc_title_Inl: "doc_title d = Inl e \<Longrightarrow> e = AttributeError"
  by (auto simp: doc_title_def rbind_eq_Inl_iff dest: dict_get_Inl str_strip_Inl)

lemma doc_author_Inl: "doc_author d = Inl e \<Longrightarrow> e = AttributeError"
  using index0_nonempty_list
  by (fastforce simp: doc_author_def rbind_eq_Inl_iff dest: dict_get_Inl str_strip_Inl
      split: if_splits)

lemma doc_year_Inl: "doc_year d = Inl e \<Longrightarrow> e = AttributeError"
  by (auto simp: doc_year_def rbind_eq_Inl_iff dest: dict_get_Inl)

text \<open>
  On an object, the identifiers are always read; only the title and the
  author can raise. \<open>mk_hit\<close> is the dict built from them.
\<close>

lemma search_record_not_dict: "\<not> isinstance_dict d \<Longrightarrow> search_record d = Inl AttributeError"
  by (cases d) (simp_all add: search_record_def doc_title_def)

lemma search_record_dict:
  assumes "isinstance_dict d"
  obtains m where "extract_meta d = Inr m"
    and "search_record d =
           rbind (doc_title d) (\<lambda>title. rbind (doc_author d) (\<lambda>author.
             Inr (mk_hit m title author)))"
proof -
  from assms obtain kvs where d: "d = JObj kvs" by (cases d) auto
  obtain isbn olid where
    "first_str (case map_of kvs ''isbn'' of None \<Rightarrow> JNull | Some v \<Rightarrow> v) = Inr isbn"
    "first_str (case map_of kvs ''edition_key'' of None \<Rightarrow> JNull | Some v \<Rightarrow> v) = Inr olid"
    using first_str_ok by blast
  with d that show thesis
    by (simp add: search_record_def extract_meta_def doc_year_def mk_hit_def Let_def
        cong: if_cong)
qed

lemma search_record_Inl: 
  assumes "search_record d = Inl e"
  shows "e = AttributeError"
proof (cases "isinstance_dict d")
  case True
  then obtain m where r: "search_record d =
      rbind (doc_title d) (\<lambda>title. rbind (doc_author d) (\<lambda>author. Inr (mk_hit m title author)))"
    by (rule search_record_dict)
  from assms[unfolded r] show ?thesis
    by (auto simp: rbind_eq_Inl_iff dest: doc_title_Inl doc_author_Inl)
qed (use assms in \<open>simp add: search_record_not_dict\<close>)

lemma search_record_ok_iff:
  "is_ok (search_record d) \<longleftrightarrow> is_ok (doc_title d) \<and> is_ok (doc_author d)"
proof (cases "isinstance_dict d")
  case True
  then obtain m where r: "search_record d =
      rbind (doc_title d) (\<lambda>title. rbind (doc_author d) (\<lambda>author. Inr (mk_hit m title author)))"
    by (rule search_record_dict)
  show ?thesis unfolding r by (cases "doc_title d"; cases "doc_author d") auto
next
  case False
  then show ?thesis by (cases d) (simp_all add: search_record_not_dict doc_title_def)
qed

lemma search_record_Inr:
  assumes "search_record d = Inr r"
  obtains m title author where "extract_meta d = Inr m" "doc_title d = Inr title"
    "doc_author d = Inr author" "r = mk_hit m title author"
proof (cases "isinstance_dict d")
  case True
  then obtain m where m: "extract_meta d = Inr m" and r: "search_record d =
      rbind (doc_title d) (\<lambda>title. rbind (doc_author d) (\<lambda>author. Inr (mk_hit m title author)))"
    by (rule search_record_dict)
  from assms[unfolded r] m that show ?thesis by (auto simp: rbind_eq_Inr_iff)
qed (use assms in \<open>simp add: search_record_not_dict\<close>)

lemma mk_hit_Some:
  "mk_hit m t a = Some h \<longleftrightarrow>
     t \<noteq> [] \<and> a \<noteq> [] \<and> h = \<lparr>s_title = t, s_author = a, s_year = m_year m, s_cover = m_cover m,
        s_cover_i = m_cover_i m, s_isbn = m_isbn m, s_olid = m_olid m\<rparr>"
  by (auto simp: mk_hit_def)

lemma mk_hit_None: "mk_hit m t a = None \<longleftrightarrow> t = [] \<or> a = []"
  by (auto simp: mk_hit_def)

lemma search_record_Some:
  assumes "search_record d = Inr (Some h)"
  shows "hit_ok h \<and> doc_title d = Inr (s_title h) \<and> doc_author d = Inr (s_author h)"
proof -
  from assms obtain m t a where *: "extract_meta d = Inr m" "doc_title d = Inr t"
    "doc_author d = Inr a" "Some h = mk_hit m t a" by (rule search_record_Inr)
  from *(1) have "meta_ok m" by (rule extract_meta_Inr_meta_ok)
  with * doc_title_Inr[of d t] doc_author_Inr[of d a] show ?thesis
    by (auto simp: mk_hit_Some[of m t a h, unfolded eq_commute[of "mk_hit m t a"]] hit_ok_def
        meta_ok_def)
qed

lemma search_record_None:
  assumes "search_record d = Inr None"
  shows "doc_title d = Inr [] \<or> doc_author d = Inr []"
proof -
  from assms obtain m t a where *: "doc_title d = Inr t" "doc_author d = Inr a"
    "None = mk_hit m t a" by (rule search_record_Inr)
  from *(3) have "t = [] \<or> a = []" by (auto simp: mk_hit_def split: if_splits)
  with * show ?thesis by auto
qed

lemma search_record_meta:
  assumes "search_record d = Inr (Some h)"
  shows "extract_meta d = Inr (meta_of_hit h)"
proof -
  from assms obtain m t a where *: "extract_meta d = Inr m" "Some h = mk_hit m t a"
    by (rule search_record_Inr)
  from *(2) have "meta_of_hit h = m" by (auto simp: mk_hit_def meta_of_hit_def split: if_splits)
  with * show ?thesis by simp
qed

section \<open>Lemmas: the loop\<close>

lemma set_map_filter_id: "set (List.map_filter id xs) = {x. Some x \<in> set xs}"
  by (induction xs) (auto simp: List.map_filter_def)

lemma length_map_filter_le: "length (List.map_filter f xs) \<le> length xs"
  by (simp add: List.map_filter_def)

lemma search_results_Inr_iff:
  "search_results data = Inr hs \<longleftrightarrow>
     (\<exists>d docs hits. dict_get data ''docs'' = Inr d \<and> py_iter (py_or d (JArr [])) = Inr docs
        \<and> rmap search_record docs = Inr hits \<and> hs = List.map_filter id hits)"
  by (auto simp: search_results_def rbind_eq_Inr_iff)

lemma search_results_source:
  assumes "search_results data = Inr hs" and "h \<in> set hs"
  shows "\<exists>d docs x. dict_get data ''docs'' = Inr d \<and> py_iter (py_or d (JArr [])) = Inr docs
           \<and> x \<in> set docs \<and> search_record x = Inr (Some h)"
proof -
  from assms(1) obtain d docs hits where
    d: "dict_get data ''docs'' = Inr d" "py_iter (py_or d (JArr [])) = Inr docs"
    and hits: "rmap search_record docs = Inr hits" "hs = List.map_filter id hits"
    by (auto simp: search_results_Inr_iff)
  from assms(2) hits(2) have "Some h \<in> set hits" by (simp add: set_map_filter_id)
  then obtain i where "i < length hits" "hits ! i = Some h" by (auto simp: in_set_conv_nth)
  with hits(1) have "docs ! i \<in> set docs" "search_record (docs ! i) = Inr (Some h)"
    using rmap_length[OF hits(1)] rmap_nth[OF hits(1), of i] by simp_all
  with d show ?thesis by blast
qed

lemma search_results_Inl:
  "search_results data = Inl e \<Longrightarrow> e = AttributeError \<or> e = TypeError"
  by (auto simp: search_results_def rbind_eq_Inl_iff rmap_first_error
      dest: dict_get_Inl py_iter_Inl search_record_Inl)

lemma search_results_no_docs:
  "dict_get data ''docs'' = Inr d \<Longrightarrow> \<not> truthy d \<Longrightarrow> search_results data = Inr []"
  by (simp add: search_results_def List.map_filter_def)

section \<open>Lemmas: the two functions\<close>

lemma ol_search_calls:
  "calls (snd (ol_search term limit page w)) =
     calls w @ [search_url term (''&limit='' @ str_of_int limit @ ''&page='' @ str_of_int page)]"
  by (simp add: ol_search_def urlopen_json_def Let_def split: option.splits)

lemma api_openlibrary_calls:
  "calls (snd (api_openlibrary arg w)) =
     (let q = strip (case arg of None \<Rightarrow> [] | Some s \<Rightarrow> s)
      in if q = [] then calls w else calls w @ [search_url q ''&limit=10''])"
  by (simp add: api_openlibrary_def urlopen_json_def Let_def split: option.splits)

lemma ol_search_Inr:
  "ol_search term limit page w = (Inr hs, w') \<Longrightarrow> \<exists>data. search_results data = Inr hs"
  by (auto simp: ol_search_def urlopen_json_def Let_def split: option.splits)

lemma api_openlibrary_Inr:
  "api_openlibrary arg w = (Inr hs, w') \<Longrightarrow> hs = [] \<or> (\<exists>data. search_results data = Inr hs)"
  by (auto simp: api_openlibrary_def urlopen_json_def Let_def split: option.splits if_splits)

lemma search_body_results:
  "search_results search_body =
     Inr [\<lparr>s_title = ''1984'', s_author = ''George Orwell'', s_year = ''1949'',
            s_cover = ''https://covers.openlibrary.org/b/id/123-L.jpg'', s_cover_i = ''123'',
            s_isbn = ''9780141182636'', s_olid = ''OL1M''\<rparr>,
          \<lparr>s_title = ''1984'', s_author = ''George Orwell'', s_year = [],
            s_cover = ''https://covers.openlibrary.org/b/id/999-L.jpg'', s_cover_i = ''999'',
            s_isbn = ''222'', s_olid = []\<rparr>]"
  by (simp add: search_eval)

section \<open>Properties\<close>

text \<open>
  C37 (invariant). Every dict that \<open>_ol_search\<close> or \<open>/api/openlibrary\<close> builds from a body
  has a non-empty title and author without white space at their ends, and a
  cover that is the URL built from the dict's own identifiers; there are at
  most as many dicts as the body has records, since a record without title or
  author is dropped.
\<close>

theorem search_results_hits_ok:
  assumes "search_results data = Inr hs"
  shows "list_all hit_ok hs
       \<and> (\<exists>d docs. dict_get data ''docs'' = Inr d \<and> py_iter (py_or d (JArr [])) = Inr docs
             \<and> length hs \<le> length docs)"
proof -
  have "hit_ok h" if "h \<in> set hs" for h
    using search_results_source[OF assms that] search_record_Some by blast
  moreover from assms obtain d docs hits where
    "dict_get data ''docs'' = Inr d" "py_iter (py_or d (JArr [])) = Inr docs"
    "rmap search_record docs = Inr hits" "hs = List.map_filter id hits"
    by (auto simp: search_results_Inr_iff)
  moreover from this have "length hs \<le> length docs"
    using rmap_length[of search_record docs hits] length_map_filter_le[of id hits] by simp
  ultimately show ?thesis by (auto simp: list_all_iff)
qed

theorem search_results_hits_ok_witness:
  "(\<exists>hs. search_results search_body = Inr hs \<and> length hs = 2 \<and> list_all hit_ok hs)"
  using search_results_hits_ok[OF search_body_results] by (simp add: search_body_results)

text \<open>
  The search wrappers and the matcher read a record the same way: for a
  record that the search keeps, the matcher's extraction succeeds and returns
  exactly the identifiers, the year and the cover of the search result.
\<close>

theorem search_record_agrees_with_matcher:
  assumes "search_record d = Inr (Some h)"
  shows "extract_meta d = Inr (meta_of_hit h) \<and> meta_ok (meta_of_hit h)"
  using search_record_meta[OF assms] extract_meta_Inr_meta_ok by blast

theorem search_record_agrees_with_matcher_witness:
  "\<exists>h. search_record demo_doc = Inr (Some h) \<and> extract_meta demo_doc = Inr (meta_of_hit h)
       \<and> m_cover_i (meta_of_hit h) = ''123''"
proof -
  have r: "search_record demo_doc = Inr (Some \<lparr>s_title = ''1984'', s_author = ''George Orwell'',
      s_year = ''1949'', s_cover = ''https://covers.openlibrary.org/b/id/123-L.jpg'',
      s_cover_i = ''123'', s_isbn = ''9780141182636'', s_olid = ''OL1M''\<rparr>)"
    by (simp add: search_eval)
  from search_record_agrees_with_matcher[OF r] r show ?thesis by (simp add: meta_of_hit_def)
qed

text \<open>
  A request that fails is an exception of \<open>_ol_search\<close>, which has no
  \<open>try\<close>, and an empty list of \<open>/api/openlibrary\<close>, which catches it; a body
  that is not an object raises \<open>AttributeError\<close> in both, since the loop is
  outside the \<open>try\<close>. Either way exactly one request was sent.
\<close>

theorem search_failures:
  assumes "strip q \<noteq> []"
  shows "(respond w (length (calls w)) (search_url (strip q) ''&limit=10'') = None
            \<longrightarrow> fst (api_openlibrary (Some q) w) = Inr [])
       \<and> (respond w (length (calls w))
             (search_url q (''&limit='' @ str_of_int l @ ''&page='' @ str_of_int p)) = None
            \<longrightarrow> fst (ol_search q l p w) = Inl TransportError)
       \<and> (\<forall>data. respond w (length (calls w)) (search_url (strip q) ''&limit=10'') = Some data
            \<and> \<not> isinstance_dict data \<longrightarrow> fst (api_openlibrary (Some q) w) = Inl AttributeError)
       \<and> length (calls (snd (api_openlibrary (Some q) w))) = Suc (length (calls w))
       \<and> length (calls (snd (ol_search q l p w))) = Suc (length (calls w))"
  using assms
  by (auto simp: api_openlibrary_def ol_search_def urlopen_json_def Let_def search_results_def
      split: option.splits elim: isinstance_dict.elims)

theorem search_failures_witness:
  "fst (api_openlibrary (Some ''dune'') down_world) = Inr []
   \<and> fst (ol_search ''dune'' 50 1 down_world) = Inl TransportError
   \<and> fst (api_openlibrary (Some ''dune'') array_world) = Inl AttributeError"
  using search_failures[of "''dune''" down_world 50 1] search_failures[of "''dune''" array_world 50 1]
  by (simp add: down_world_def array_world_def pystr_eval)

end
