(* ===== verification/Shelves.thy ===== *)
theory Shelves
  imports Complex_Main BookRoutes PyInt Store
begin

text \<open>
  Favourites and reading history (\<open>src/main.py\<close>: the pages \<open>favourites\<close> and
  \<open>history\<close>, and the JSON routes \<open>api_favourites_toggle\<close>,
  \<open>api_favourites_list\<close> and \<open>api_history_add\<close>).

  The routes run over the session; the user who is logged in and the clock
  are arguments. The body of a POST is a \<open>json option\<close>: \<open>None\<close> is a body
  that is not JSON, which \<open>get_json(force=True)\<close> answers with status 400.
  \<open>book_id_of\<close> is \<open>int(data.get("book_id") or 0)\<close> on
  \<open>data = get_json(force=True) or {}\<close>; it raises what Python raises on a
  body that is not an object and on a value that \<open>int\<close> refuses.

  The pages join the user's rows with \<open>Book\<close>, newest first; rows of equal
  time keep their table order (SQL leaves their order open).
\<close>

section \<open>The body of a request\<close>

datatype shelf_reply = BadRequest | MissingBookId | Favourited bool | Viewed

definition book_id_of :: "json \<Rightarrow> int result" where
  "book_id_of body = rbind (dict_get (py_or body (JObj [])) ''book_id'') int_or_0"

section \<open>Favourites\<close>

record shelf_row =
  sr_title :: string
  sr_author :: string
  sr_cover :: string
  sr_rating :: rat

definition shelf_match :: "string \<Rightarrow> book \<Rightarrow> bool" where
  "shelf_match q b \<longleftrightarrow> \<not> (q \<noteq> [] \<and> \<not> py_in q (lower (b_title b)) \<and> \<not> py_in q (lower (b_author b)))"

definition shelf_row_of :: "book \<Rightarrow> shelf_row" where
  "shelf_row_of b = \<lparr>sr_title = b_title b, sr_author = b_author b,
     sr_cover = or_default (b_cover b) PLACEHOLDER_COVER, sr_rating = 0\<rparr>"

definition books_with_id :: "int \<Rightarrow> session \<Rightarrow> book list" where
  "books_with_id i s = filter (\<lambda>b. int (b_id b) = i) (books (live s))"

definition favourites_of :: "nat \<Rightarrow> session \<Rightarrow> favourite list" where
  "favourites_of uid s = filter (\<lambda>f. f_user_id f = uid) (favourites (live s))"

definition favourite_books :: "nat \<Rightarrow> session \<Rightarrow> book list" where
  "favourite_books uid s =
     concat (map (\<lambda>f. books_with_id (f_book_id f) s)
               (sort_key (\<lambda>f. - int (f_created_at f)) (favourites_of uid s)))"

definition favourites_page :: "nat \<Rightarrow> string option \<Rightarrow> session \<Rightarrow> shelf_row list" where
  "favourites_page uid q_arg s =
     (let q = lower (form_field q_arg)
      in map shelf_row_of (filter (shelf_match q) (favourite_books uid s)))"

definition api_favourites_toggle :: "nat \<Rightarrow> nat \<Rightarrow> json option \<Rightarrow> (shelf_reply, session) prog" where
  "api_favourites_toggle uid now body =
     (case body of
        None \<Rightarrow> ret BadRequest
      | Some data \<Rightarrow>
          bnd (\<lambda>s. (book_id_of data, s)) (\<lambda>book_id.
            if book_id = 0 then ret MissingBookId
            else bnd (\<lambda>s. (sql_int book_id, s)) (\<lambda>_.
                 bnd (gets (find_favourite uid book_id)) (\<lambda>fav.
                   case fav of
                     Some f \<Rightarrow>
                       bnd (delete_favourite f) (\<lambda>_.
                       bnd do_commit (\<lambda>_. ret (Favourited False)))
                   | None \<Rightarrow>
                       bnd (insert_favourite \<lparr>f_id = 0, f_user_id = uid, f_book_id = book_id,
                                                f_created_at = now\<rparr>) (\<lambda>_.
                       bnd do_commit (\<lambda>_. ret (Favourited True)))))))"

definition api_favourites_list :: "nat \<Rightarrow> session \<Rightarrow> int list" where
  "api_favourites_list uid s = map f_book_id (favourites_of uid s)"

section \<open>History\<close>

record history_row =
  hr_title :: string
  hr_author :: string
  hr_cover :: string
  hr_viewed_at :: nat
  hr_rating :: rat

definition history_row_of :: "book \<times> nat \<Rightarrow> history_row" where
  "history_row_of bv = \<lparr>hr_title = b_title (fst bv), hr_author = b_author (fst bv),
     hr_cover = or_default (b_cover (fst bv)) PLACEHOLDER_COVER, hr_viewed_at = snd bv,
     hr_rating = 0\<rparr>"

definition histories_of :: "nat \<Rightarrow> session \<Rightarrow> history list" where
  "histories_of uid s = filter (\<lambda>h. h_user_id h = uid) (histories (live s))"

definition history_books :: "nat \<Rightarrow> session \<Rightarrow> (book \<times> nat) list" where
  "history_books uid s =
     take 100
       (concat (map (\<lambda>h. map (\<lambda>b. (b, h_viewed_at h)) (books_with_id (h_book_id h) s))
                  (sort_key (\<lambda>h. - int (h_viewed_at h)) (histories_of uid s))))"

definition history_page :: "nat \<Rightarrow> string option \<Rightarrow> session \<Rightarrow> history_row list" where
  "history_page uid q_arg s =
     (let q = lower (form_field q_arg)
      in map history_row_of (filter (\<lambda>bv. shelf_match q (fst bv)) (history_books uid s)))"

definition api_history_add :: "nat \<Rightarrow> nat \<Rightarrow> json option \<Rightarrow> (shelf_reply, session) prog" where
  "api_history_add uid now body =
     (case body of
        None \<Rightarrow> ret BadRequest
      | Some data \<Rightarrow>
          bnd (\<lambda>s. (book_id_of data, s)) (\<lambda>book_id.
            if book_id = 0 then ret MissingBookId
            else bnd (\<lambda>s. (sql_int book_id, s)) (\<lambda>_.
                 bnd (gets (find_history uid book_id)) (\<lambda>row.
                 bnd (case row of
                        Some h \<Rightarrow> touch_history h now
                      | None \<Rightarrow>
                          bnd (insert_history \<lparr>h_id = 0, h_user_id = uid, h_book_id = book_id,
                                                 h_viewed_at = now\<rparr>) (\<lambda>_. ret ())) (\<lambda>_.
                 bnd do_commit (\<lambda>_. ret Viewed))))))"

section \<open>What the properties speak of\<close>

definition fav_keys :: "session \<Rightarrow> (nat \<times> int) set" where
  "fav_keys s = fav_key ` set (favourites (live s))"

definition hist_keys :: "session \<Rightarrow> (nat \<times> int) set" where
  "hist_keys s = hist_key ` set (histories (live s))"

section \<open>Example inputs\<close>

definition id_body :: "int \<Rightarrow> json option" where
  "id_body i = Some (JObj [(''book_id'', JInt i)])"

definition one_book :: session where
  "one_book = new_session (empty_tables\<lparr>books := [demo_book]\<rparr>)"

definition one_fav :: session where
  "one_fav = new_session (empty_tables\<lparr>books := [demo_book],
     favourites := [\<lparr>f_id = 1, f_user_id = 7, f_book_id = 1, f_created_at = 50\<rparr>]\<rparr>)"

definition ghost_fav :: session where
  "ghost_fav = new_session (empty_tables\<lparr>books := [demo_book],
     favourites := [\<lparr>f_id = 1, f_user_id = 7, f_book_id = 99, f_created_at = 60\<rparr>]\<rparr>)"

definition one_view :: session where
  "one_view = new_session (empty_tables\<lparr>books := [demo_book],
     histories := [\<lparr>h_id = 1, h_user_id = 7, h_book_id = 1, h_viewed_at = 60\<rparr>]\<rparr>)"

section \<open>Lemmas: the body\<close>

lemma book_id_of_id_body [simp]: "book_id_of (the (id_body i)) = Inr i"
  by (simp add: book_id_of_def id_body_def py_or_def rbind_def)

lemma book_id_of_Inl:
  "book_id_of body = Inl e \<Longrightarrow>
     e = AttributeError \<or> e = TypeError \<or> e = ValueError \<or> e = OverflowError"
  by (cases "py_or body (JObj [])")
     (auto simp: book_id_of_def rbind_def dest: int_or_0_Inl split: sum.splits)

lemma book_id_of_falsy: "\<not> truthy body \<Longrightarrow> book_id_of body = Inr 0"
  by (simp add: book_id_of_def rbind_def int_or_0_falsy)

section \<open>Lemmas: toggling\<close>

lemma toggle_bad_request [simp]: "api_favourites_toggle uid now None s = (Inr BadRequest, s)"
  by (simp add: api_favourites_toggle_def ret_def)

lemma toggle_eq:
  "api_favourites_toggle uid now (Some data) s =
     (case book_id_of data of
        Inl e \<Rightarrow> (Inl e, s)
      | Inr book_id \<Rightarrow>
          if book_id = 0 then (Inr MissingBookId, s)
          else case sql_int book_id of
                 Inl e \<Rightarrow> (Inl e, s)
               | Inr _ \<Rightarrow>
                   (case find_favourite uid book_id s of
                      Some f \<Rightarrow> (Inr (Favourited False), commit (snd (delete_favourite f s)))
                    | None \<Rightarrow>
                        (Inr (Favourited True),
                         commit (snd (insert_favourite \<lparr>f_id = 0, f_user_id = uid,
                                   f_book_id = book_id, f_created_at = now\<rparr> s))))) "
  by (simp add: api_favourites_toggle_def bnd_def ret_def gets_def do_commit_def
      insert_favourite_fresh delete_favourite_def split: sum.splits option.splits)

lemma toggle_cases [consumes 1, case_names failed missing removed added]:
  assumes "api_favourites_toggle uid now (Some data) s = (r, s')"
  obtains e where "r = Inl e" "s' = s"
      "e = AttributeError \<or> e = TypeError \<or> e = ValueError \<or> e = OverflowError"
  | "r = Inr MissingBookId" "s' = s" "book_id_of data = Inr 0"
  | i f where "r = Inr (Favourited False)" "book_id_of data = Inr i" "i \<noteq> 0"
      "find_favourite uid i s = Some f" "s' = commit (snd (delete_favourite f s))"
      "sql_int i = Inr i"
  | i where "r = Inr (Favourited True)" "book_id_of data = Inr i" "i \<noteq> 0"
      "find_favourite uid i s = None"
      "s' = commit (snd (insert_favourite \<lparr>f_id = 0, f_user_id = uid, f_book_id = i,
                f_created_at = now\<rparr> s))"
      "sql_int i = Inr i"
proof (cases "book_id_of data")
  case (Inl e)
  with assms that(1)[of e] show thesis by (auto simp: toggle_eq dest: book_id_of_Inl)
next
  case (Inr i)
  show thesis
  proof (cases "i = 0")
    case True
    with assms Inr that(2) show thesis by (simp add: toggle_eq)
  next
    case False
    show thesis
    proof (cases "sql_int i")
      case (Inl e)
      then have "e = OverflowError" by (simp add: sql_int_def split: if_splits)
      with assms Inr False Inl that(1)[of e] show thesis by (simp add: toggle_eq)
    next
      case ok: (Inr j)
      then have j: "sql_int i = Inr i" by (simp add: sql_int_def split: if_splits)
      show thesis
      proof (cases "find_favourite uid i s")
        case None
        with assms Inr False j that(4)[of i] show thesis by (simp add: toggle_eq)
      next
        case (Some f)
        with assms Inr False j that(3)[of i f] show thesis by (simp add: toggle_eq)
      qed
    qed
  qed
qed

lemma fav_keys_commit [simp]: "fav_keys (commit s) = fav_keys s"
  by (simp add: fav_keys_def)

lemma fav_keys_delete:
  assumes "tables_ok (live s)" and "f \<in> set (favourites (live s))"
  shows "fav_keys (snd (delete_favourite f s)) = fav_keys s - {fav_key f}"
proof -
  let ?fs = "favourites (live s)"
  from assms(1) have ids: "inj_on f_id (set ?fs)" and ks: "inj_on fav_key (set ?fs)"
    by (simp_all add: tables_ok_def distinct_map)
  from ids assms(2) have "set (filter (\<lambda>g. f_id g \<noteq> f_id f) ?fs) = set ?fs - {f}"
    by (auto simp: inj_on_def)
  then have "fav_keys (snd (delete_favourite f s)) = fav_key ` (set ?fs - {f})"
    by (simp add: fav_keys_def delete_favourite_def)
  also from ks assms(2) have "\<dots> = fav_key ` set ?fs - {fav_key f}"
    by (auto simp: inj_on_def)
  finally show ?thesis by (simp add: fav_keys_def)
qed

lemma fav_keys_insert:
  "find_favourite (f_user_id f) (f_book_id f) s = None \<Longrightarrow>
     fav_keys (snd (insert_favourite f s)) = insert (fav_key f) (fav_keys s)"
  by (auto simp: insert_favourite_fresh fav_keys_def fav_key_def)

section \<open>Lemmas: what the routes keep\<close>

lemma keeps_api_favourites_toggle [keeps_intros]:
  "db_closed P \<Longrightarrow> keeps P (api_favourites_toggle uid now body)"
  unfolding api_favourites_toggle_def
  by (auto intro!: keeps_intros keeps_const split: option.splits)

lemma keeps_api_history_add [keeps_intros]:
  "db_closed P \<Longrightarrow> keeps P (api_history_add uid now body)"
  unfolding api_history_add_def
  by (auto intro!: keeps_intros keeps_const split: option.splits)

lemma toggle_store_ok:
  "store_ok s \<Longrightarrow> api_favourites_toggle uid now body s = (r, s') \<Longrightarrow> store_ok s'"
  by (rule keepsD[OF keeps_api_favourites_toggle[OF db_closed_store_ok]])

lemma history_add_store_ok:
  "store_ok s \<Longrightarrow> api_history_add uid now body s = (r, s') \<Longrightarrow> store_ok s'"
  by (rule keepsD[OF keeps_api_history_add[OF db_closed_store_ok]])

lemma favourites_of_set:
  "set (favourites_of uid s) = {f \<in> set (favourites (live s)). f_user_id f = uid}"
  by (auto simp: favourites_of_def)

lemma api_favourites_list_iff:
  "i \<in> set (api_favourites_list uid s) \<longleftrightarrow> (uid, i) \<in> fav_keys s"
  by (auto simp: api_favourites_list_def favourites_of_set fav_keys_def fav_key_def image_iff)

lemma fav_keys_iff: "(uid, i) \<in> fav_keys s \<longleftrightarrow> find_favourite uid i s \<noteq> None"
  by (simp add: find_favourite_None_iff fav_keys_def)

lemma hist_keys_iff: "(uid, i) \<in> hist_keys s \<longleftrightarrow> find_history uid i s \<noteq> None"
  by (simp add: find_history_None_iff hist_keys_def)

lemma toggle_effect:
  assumes "store_ok s" and "api_favourites_toggle uid now (Some data) s = (Inr (Favourited b), s')"
  obtains i where "book_id_of data = Inr i" "i \<noteq> 0" "sql_int i = Inr i"
    "(uid, i) \<in> fav_keys s \<longleftrightarrow> \<not> b"
    "fav_keys s' = (if b then insert (uid, i) (fav_keys s) else fav_keys s - {(uid, i)})"
    "live s' = durable s'" "books (live s') = books (live s)"
  using assms(2)
proof (cases rule: toggle_cases)
  case (removed i f)
  from find_favourite_Some[OF removed(4)] have f: "f \<in> set (favourites (live s))"
    "fav_key f = (uid, i)" by (simp_all add: fav_key_def)
  with assms(1) have "fav_keys s' = fav_keys s - {(uid, i)}"
    unfolding removed(5) by (simp add: fav_keys_delete store_ok_def)
  moreover from removed(4) have "(uid, i) \<in> fav_keys s" by (simp add: fav_keys_iff)
  ultimately show thesis using removed that[of i] by (simp add: delete_favourite_def)
next
  case (added i)
  then have "fav_keys s' = insert (uid, i) (fav_keys s)"
    by (simp add: fav_keys_insert fav_key_def)
  moreover from added(4) have "(uid, i) \<notin> fav_keys s" by (simp add: fav_keys_iff)
  ultimately show thesis using added that[of i] by (simp add: insert_favourite_fresh)
qed simp_all

lemma toggle_again:
  assumes "book_id_of data = Inr i" and "i \<noteq> 0" and "sql_int i = Inr i"
  shows "fst (api_favourites_toggle uid now (Some data) t)
           = Inr (Favourited ((uid, i) \<notin> fav_keys t))"
  using assms by (cases "find_favourite uid i t") (simp_all add: toggle_eq fav_keys_iff)

section \<open>Lemmas: the pages\<close>

lemma books_with_id_le_1:
  "distinct (map b_id (books (live s))) \<Longrightarrow> length (books_with_id i s) \<le> 1"
proof -
  assume d: "distinct (map b_id (books (live s)))"
  have "length (filter (\<lambda>b. int (b_id b) = i) bs) \<le> 1" if "distinct (map b_id bs)" for bs
    using that by (induction bs) (auto simp: filter_empty_conv image_iff)
  from this[OF d] show ?thesis by (simp add: books_with_id_def)
qed

lemma set_favourite_books:
  "set (favourite_books uid s)
     = {b \<in> set (books (live s)). (uid, int (b_id b)) \<in> fav_keys s}"
  by (auto simp: favourite_books_def books_with_id_def favourites_of_set fav_keys_def
      fav_key_def image_iff)

lemma distinct_concat_map:
  assumes "distinct xs" and "\<And>x. x \<in> set xs \<Longrightarrow> distinct (g x)"
    and "\<And>x y. x \<in> set xs \<Longrightarrow> y \<in> set xs \<Longrightarrow> x \<noteq> y \<Longrightarrow> set (g x) \<inter> set (g y) = {}"
  shows "distinct (concat (map g xs))"
  using assms
proof (induction xs)
  case Nil
  then show ?case by simp
next
  case (Cons a xs)
  have "set (g a) \<inter> set (g x) = {}" if "x \<in> set xs" for x
    using Cons.prems(1) Cons.prems(3)[of a x] that by auto
  with Cons show ?case by auto
qed

lemma distinct_favourite_books:
  assumes "tables_ok (live s)"
  shows "distinct (favourite_books uid s)"
  unfolding favourite_books_def
proof (rule distinct_concat_map)
  let ?fs = "sort_key (\<lambda>f. - int (f_created_at f)) (favourites_of uid s)"
  from assms have d: "distinct (map fav_key (favourites (live s)))"
    and b: "distinct (map b_id (books (live s)))"
    by (simp_all add: tables_ok_def books_ok_def)
  from d have d0: "distinct (favourites (live s))" by (rule distinct_map[THEN iffD1, THEN conjunct1])
  then show "distinct ?fs" by (simp add: favourites_of_def)
  from b have "distinct (books (live s))" by (rule distinct_map[THEN iffD1, THEN conjunct1])
  then show "distinct (books_with_id (f_book_id f) s)" for f by (simp add: books_with_id_def)
  show "set (books_with_id (f_book_id x) s) \<inter> set (books_with_id (f_book_id y) s) = {}"
    if "x \<in> set ?fs" "y \<in> set ?fs" "x \<noteq> y" for x y
  proof -
    from that(1,2) have "x \<in> set (favourites (live s))" "y \<in> set (favourites (live s))"
      "f_user_id x = uid" "f_user_id y = uid"
      by (simp_all add: favourites_of_set)
    with d that(3) have "f_book_id x \<noteq> f_book_id y"
      by (auto simp: distinct_map inj_on_def fav_key_def)
    then show ?thesis by (auto simp: books_with_id_def)
  qed
qed

lemma sorted_wrt_concat_map:
  assumes "sorted_wrt (\<lambda>a b. k a \<ge> (k b :: nat)) xs"
  shows "sorted_wrt (\<lambda>a b. snd a \<ge> snd b) (concat (map (\<lambda>x. map (\<lambda>b. (b, k x)) (g x)) xs))"
  using assms by (induction xs) (auto simp: sorted_wrt_append sorted_wrt_map)

lemma sort_key_desc:
  "sorted_wrt (\<lambda>a b. k a \<ge> (k b :: nat)) (sort_key (\<lambda>x. - int (k x)) xs)"
proof -
  have "sorted (map (\<lambda>x. - int (k x)) (sort_key (\<lambda>x. - int (k x)) xs))" by simp
  then show ?thesis by (simp add: sorted_map sorted_wrt_iff_nth_less)
qed

lemma history_books_desc: "sorted_wrt (\<lambda>a b. snd a \<ge> snd b) (history_books uid s)"
  unfolding history_books_def
  by (intro sorted_wrt_take sorted_wrt_concat_map sort_key_desc)

section \<open>Lemmas: history\<close>

lemma history_add_eq:
  "api_history_add uid now (Some data) s =
     (case book_id_of data of
        Inl e \<Rightarrow> (Inl e, s)
      | Inr book_id \<Rightarrow>
          if book_id = 0 then (Inr MissingBookId, s)
          else case sql_int book_id of
                 Inl e \<Rightarrow> (Inl e, s)
               | Inr _ \<Rightarrow>
                   (case find_history uid book_id s of
                      Some h \<Rightarrow> (Inr Viewed, commit (snd (touch_history h now s)))
                    | None \<Rightarrow>
                        (Inr Viewed,
                         commit (snd (insert_history \<lparr>h_id = 0, h_user_id = uid,
                                   h_book_id = book_id, h_viewed_at = now\<rparr> s)))))"
  by (simp add: api_history_add_def bnd_def ret_def gets_def do_commit_def
      insert_history_fresh touch_history_def split: sum.splits option.splits)

lemma hist_keys_commit [simp]: "hist_keys (commit s) = hist_keys s"
  by (simp add: hist_keys_def)

lemma map_hist_key_touch:
  "map hist_key (histories (live (snd (touch_history h now s))))
     = map hist_key (histories (live s))"
proof -
  have "map (hist_key \<circ> (\<lambda>g. if h_id g = h_id h then g\<lparr>h_viewed_at := now\<rparr> else g)) hs
      = map hist_key hs" for hs
    by (induction hs) (auto simp: hist_key_def)
  then show ?thesis by (simp add: touch_history_def)
qed

lemma hist_keys_touch [simp]: "hist_keys (snd (touch_history h now s)) = hist_keys s"
  unfolding hist_keys_def set_map[symmetric] map_hist_key_touch ..

lemma hist_keys_insert:
  "find_history (h_user_id h) (h_book_id h) s = None \<Longrightarrow>
     hist_keys (snd (insert_history h s)) = insert (hist_key h) (hist_keys s)"
  by (auto simp: insert_history_fresh hist_keys_def hist_key_def)

lemma history_add_cases [consumes 1, case_names failed missing touched added]:
  assumes "api_history_add uid now (Some data) s = (r, s')"
  obtains e where "r = Inl e" "s' = s"
  | "r = Inr MissingBookId" "s' = s"
  | i h where "r = Inr Viewed" "book_id_of data = Inr i" "i \<noteq> 0"
      "find_history uid i s = Some h" "s' = commit (snd (touch_history h now s))"
  | i where "r = Inr Viewed" "book_id_of data = Inr i" "i \<noteq> 0"
      "find_history uid i s = None"
      "s' = commit (snd (insert_history \<lparr>h_id = 0, h_user_id = uid, h_book_id = i,
                h_viewed_at = now\<rparr> s))"
proof (cases "book_id_of data")
  case (Inl e)
  with assms that(1)[of e] show thesis by (simp add: history_add_eq)
next
  case (Inr i)
  show thesis
  proof (cases "i = 0")
    case True
    with assms Inr that(2) show thesis by (simp add: history_add_eq)
  next
    case False
    show thesis
    proof (cases "sql_int i")
      case (Inl e)
      with assms Inr False that(1)[of e] show thesis by (simp add: history_add_eq)
    next
      case ok: (Inr j)
      show thesis
      proof (cases "find_history uid i s")
        case None
        with assms Inr False ok that(4)[of i] show thesis by (simp add: history_add_eq)
      next
        case (Some h)
        with assms Inr False ok that(3)[of i h] show thesis by (simp add: history_add_eq)
      qed
    qed
  qed
qed

lemma one_fav_ok: "store_ok one_fav"
  by (simp add: one_fav_def store_ok_def tables_ok_def empty_tables_def books_ok_def
      demo_book_def)

lemma one_view_ok: "store_ok one_view"
  by (simp add: one_view_def store_ok_def tables_ok_def empty_tables_def books_ok_def
      demo_book_def)

lemma one_book_ok: "store_ok one_book"
  by (simp add: one_book_def store_ok_def tables_ok_def empty_tables_def books_ok_def
      demo_book_def)

text \<open>The two writes of \<open>api_history_add\<close>, each with what it does to the table.\<close>

lemma history_touched:
  assumes "store_ok s" and "find_history uid i s = Some h"
    and "s' = commit (snd (touch_history h now s))"
  shows "hist_keys s' = insert (uid, i) (hist_keys s)
       \<and> (\<forall>x \<in> set (histories (live s')). hist_key x = (uid, i) \<longrightarrow> h_viewed_at x = now)
       \<and> length (histories (live s'))
           = length (histories (live s)) + (if (uid, i) \<in> hist_keys s then 0 else 1)"
proof (intro conjI ballI impI)
  from find_history_Some[OF assms(2)] have h: "h \<in> set (histories (live s))"
    "hist_key h = (uid, i)" by (simp_all add: hist_key_def)
  from assms(2) have in_keys: "(uid, i) \<in> hist_keys s" by (simp add: hist_keys_iff)
  from assms(1) have "inj_on hist_key (set (histories (live s)))"
    by (simp add: store_ok_def tables_ok_def distinct_map)
  with h have only: "g \<in> set (histories (live s)) \<Longrightarrow> hist_key g = (uid, i) \<Longrightarrow> g = h" for g
    by (auto simp: inj_on_def)
  show "hist_keys s' = insert (uid, i) (hist_keys s)"
    using in_keys unfolding assms(3) by (simp add: insert_absorb)
  show "h_viewed_at x = now" if "x \<in> set (histories (live s'))" "hist_key x = (uid, i)" for x
  proof -
    from that(1) obtain y where y: "y \<in> set (histories (live s))"
      "x = (if h_id y = h_id h then y\<lparr>h_viewed_at := now\<rparr> else y)"
      unfolding assms(3) by (auto simp: touch_history_def)
    with that(2) have "hist_key y = (uid, i)" by (simp add: hist_key_def split: if_splits)
    from only[OF y(1) this] y(2) show ?thesis by simp
  qed
  show "length (histories (live s'))
      = length (histories (live s)) + (if (uid, i) \<in> hist_keys s then 0 else 1)"
    using in_keys unfolding assms(3) by (simp add: touch_history_def)
qed

lemma history_added:
  assumes "find_history uid i s = None"
    and "s' = commit (snd (insert_history \<lparr>h_id = 0, h_user_id = uid, h_book_id = i,
                h_viewed_at = now\<rparr> s))"
  shows "hist_keys s' = insert (uid, i) (hist_keys s)
       \<and> (\<forall>x \<in> set (histories (live s')). hist_key x = (uid, i) \<longrightarrow> h_viewed_at x = now)
       \<and> length (histories (live s'))
           = length (histories (live s)) + (if (uid, i) \<in> hist_keys s then 0 else 1)"
proof (intro conjI ballI impI)
  from assms(1) have new: "(uid, i) \<notin> hist_keys s" by (simp add: hist_keys_iff)
  have eq: "histories (live s') = histories (live s)
      @ [\<lparr>h_id = next_id (map h_id (histories (live s))), h_user_id = uid, h_book_id = i,
          h_viewed_at = now\<rparr>]"
    unfolding assms(2) using assms(1) by (simp add: insert_history_fresh)
  show "hist_keys s' = insert (uid, i) (hist_keys s)"
    unfolding assms(2) using assms(1) by (simp add: hist_keys_insert hist_key_def)
  show "h_viewed_at x = now" if "x \<in> set (histories (live s'))" "hist_key x = (uid, i)" for x
  proof (cases "x \<in> set (histories (live s))")
    case True
    with that(2) new show ?thesis by (auto simp: hist_keys_def image_iff)
  next
    case False
    with that(1) show ?thesis unfolding eq by simp
  qed
  show "length (histories (live s'))
      = length (histories (live s)) + (if (uid, i) \<in> hist_keys s then 0 else 1)"
    using new unfolding eq by simp
qed

section \<open>Properties\<close>

text \<open>
  C32 (functional). The toggle flips membership and nothing else: when
  \<open>api_favourites_toggle\<close> answers \<open>favourited: b\<close>, the body carried a
  non-zero book id \<open>i\<close>, the pair (user, \<open>i\<close>) was a favourite exactly when
  \<open>b\<close> is false and is one afterwards exactly when \<open>b\<close> is true, every other
  favourite of every user is as before, the change is committed, the list
  that \<open>api_favourites_list\<close> returns agrees, and \<open>Book\<close> is untouched.
\<close>

theorem toggle_flips_membership:
  assumes "store_ok s" and "api_favourites_toggle uid now (Some data) s = (Inr (Favourited b), s')"
  shows "\<exists>i. book_id_of data = Inr i \<and> i \<noteq> 0
           \<and> ((uid, i) \<in> fav_keys s \<longleftrightarrow> \<not> b)
           \<and> fav_keys s' = (if b then insert (uid, i) (fav_keys s) else fav_keys s - {(uid, i)})
           \<and> (i \<in> set (api_favourites_list uid s') \<longleftrightarrow> b)
           \<and> live s' = durable s' \<and> books (live s') = books (live s)"
  using assms by (rule toggle_effect) (auto simp: api_favourites_list_iff)

theorem toggle_flips_membership_witness:
  "api_favourites_toggle 7 70 (id_body 1) one_fav = (Inr (Favourited False), one_book)
   \<and> fav_keys one_fav = {(7, 1)} \<and> fav_keys one_book = {}"
proof -
  have t: "api_favourites_toggle 7 70 (Some (the (id_body 1))) one_fav = (Inr (Favourited False), one_book)"
    by (simp add: toggle_eq one_fav_def one_book_def store_eval empty_tables_def commit_def
        new_session_def)
  from toggle_flips_membership[OF one_fav_ok t] t show ?thesis
    by (auto simp: id_body_def fav_keys_def one_fav_def one_book_def empty_tables_def fav_key_def)
qed

text \<open>
  C33 (roundtrip). Toggling twice restores the favourites: after a toggle
  that answered, the same request again answers the opposite and leaves the
  set of (user, book) pairs as it was before the first.
\<close>

theorem toggle_twice_restores:
  assumes "store_ok s" and "api_favourites_toggle uid now (Some data) s = (Inr (Favourited b), s1)"
    and "api_favourites_toggle uid now2 (Some data) s1 = (r, s2)"
  shows "r = Inr (Favourited (\<not> b)) \<and> fav_keys s2 = fav_keys s"
proof -
  from assms(1,2) obtain i where i: "book_id_of data = Inr i" "i \<noteq> 0" "sql_int i = Inr i"
    and b: "(uid, i) \<in> fav_keys s \<longleftrightarrow> \<not> b"
    and k1: "fav_keys s1 = (if b then insert (uid, i) (fav_keys s) else fav_keys s - {(uid, i)})"
    by (rule toggle_effect)
  from toggle_again[OF i, of uid now2 s1] assms(3) k1
  have r: "r = Inr (Favourited (\<not> b))" by auto
  from toggle_store_ok[OF assms(1,2)] assms(3)[unfolded r] obtain j
    where "book_id_of data = Inr j"
      and "fav_keys s2 = (if \<not> b then insert (uid, j) (fav_keys s1) else fav_keys s1 - {(uid, j)})"
    by (rule toggle_effect)
  with i(1) k1 b r show ?thesis by auto
qed

theorem toggle_twice_restores_witness:
  "fst (api_favourites_toggle 7 80 (id_body 1) (snd (api_favourites_toggle 7 70 (id_body 1) one_fav)))
     = Inr (Favourited True)
   \<and> fav_keys (snd (api_favourites_toggle 7 80 (id_body 1)
                    (snd (api_favourites_toggle 7 70 (id_body 1) one_fav)))) = {(7, 1)}"
proof -
  have t: "api_favourites_toggle 7 70 (Some (the (id_body 1))) one_fav = (Inr (Favourited False), one_book)"
    by (simp add: toggle_eq one_fav_def one_book_def store_eval empty_tables_def commit_def
        new_session_def)
  from toggle_twice_restores[OF one_fav_ok t surjective_pairing, of 80] t show ?thesis
    by (simp add: id_body_def fav_keys_def one_fav_def empty_tables_def fav_key_def)
qed

text \<open>
  The toggle fails only on the body, and then changes nothing: the exception
  is what \<open>data.get\<close> raises on a body that is not an object, what \<open>int\<close>
  raises on the value, or the overflow of an id outside the 64-bit range;
  never the unique constraint.
\<close>

theorem toggle_failures:
  assumes "api_favourites_toggle uid now body s = (Inl e, s')"
  shows "s' = s \<and> (e = AttributeError \<or> e = TypeError \<or> e = ValueError \<or> e = OverflowError)"
proof (cases body)
  case None
  with assms show ?thesis by simp
next
  case (Some data)
  from assms[unfolded Some] show ?thesis by (cases rule: toggle_cases) auto
qed

text \<open>
  No route checks that the book exists, and the database does not either: a
  favourite of an id without a row in \<open>Book\<close> is stored and is reported by
  \<open>api_favourites_list\<close>, and the favourites page never shows it.
\<close>

theorem favourite_of_unknown_book_is_hidden:
  assumes "i \<noteq> 0" and "sql_int i = Inr i" and "(uid, i) \<notin> fav_keys s"
    and "books_with_id i s = []"
  shows "\<exists>s'. api_favourites_toggle uid now (id_body i) s = (Inr (Favourited True), s')
           \<and> i \<in> set (api_favourites_list uid s')
           \<and> set (favourite_books uid s') = set (favourite_books uid s)"
proof -
  from assms(3) have none: "find_favourite uid i s = None" by (simp add: fav_keys_iff)
  let ?s' = "commit (snd (insert_favourite \<lparr>f_id = 0, f_user_id = uid, f_book_id = i,
      f_created_at = now\<rparr> s))"
  from assms(1,2) none have t: "api_favourites_toggle uid now (id_body i) s = (Inr (Favourited True), ?s')"
    by (simp add: toggle_eq id_body_def book_id_of_def py_or_def rbind_def)
  from none have k: "fav_keys ?s' = insert (uid, i) (fav_keys s)"
    by (simp add: fav_keys_insert fav_key_def)
  from none have b: "books (live ?s') = books (live s)" by (simp add: insert_favourite_fresh)
  from assms(4) have "\<forall>b \<in> set (books (live s)). int (b_id b) \<noteq> i"
    by (auto simp: books_with_id_def filter_empty_conv)
  with k b have "set (favourite_books uid ?s') = set (favourite_books uid s)"
    by (auto simp: set_favourite_books)
  with t k show ?thesis by (simp add: api_favourites_list_iff)
qed

text \<open>
  C35 (refinement). The favourites page is the join it is meant to be: the
  books it is built from are exactly the rows of \<open>Book\<close> whose id the user
  has favourited, each once, and the page shows those that match the query.
\<close>

theorem favourites_page_is_the_join:
  assumes "store_ok s"
  shows "set (favourite_books uid s) = {b \<in> set (books (live s)). (uid, int (b_id b)) \<in> fav_keys s}
       \<and> distinct (favourite_books uid s)
       \<and> set (favourites_page uid q s)
           = shelf_row_of ` {b \<in> set (books (live s)).
                (uid, int (b_id b)) \<in> fav_keys s \<and> shelf_match (lower (form_field q)) b}"
proof -
  have "set (favourites_page uid q s)
      = shelf_row_of ` {b \<in> set (favourite_books uid s). shelf_match (lower (form_field q)) b}"
    by (simp add: favourites_page_def Let_def)
  also have "{b \<in> set (favourite_books uid s). shelf_match (lower (form_field q)) b}
      = {b \<in> set (books (live s)).
           (uid, int (b_id b)) \<in> fav_keys s \<and> shelf_match (lower (form_field q)) b}"
    unfolding set_favourite_books by blast
  finally show ?thesis
    using assms distinct_favourite_books[of s uid]
    by (simp add: set_favourite_books store_ok_def)
qed

theorem favourites_page_is_the_join_witness:
  "distinct (favourite_books 7 one_fav)
   \<and> favourites_page 7 (Some ''ORWELL'') one_fav
       = [\<lparr>sr_title = ''1984'', sr_author = ''George Orwell'',
           sr_cover = ''https://covers.openlibrary.org/b/id/123-L.jpg'', sr_rating = 0\<rparr>]
   \<and> favourites_page 7 (Some ''ORWELL'') ghost_fav = []"
proof -
  have "favourites_page 7 (Some ''ORWELL'') ghost_fav = []"
    by (simp add: favourites_page_def favourite_books_def favourites_of_def books_with_id_def
        ghost_fav_def empty_tables_def demo_book_def)
  moreover have "favourites_page 7 (Some ''ORWELL'') one_fav
       = [\<lparr>sr_title = ''1984'', sr_author = ''George Orwell'',
           sr_cover = ''https://covers.openlibrary.org/b/id/123-L.jpg'', sr_rating = 0\<rparr>]"
    by (simp add: favourites_page_def favourite_books_def favourites_of_def books_with_id_def
        one_fav_def empty_tables_def demo_book_def shelf_match_def shelf_row_of_def
        form_field_def or_default_def pystr_eval)
  ultimately show ?thesis
    using favourites_page_is_the_join[OF one_fav_ok, of 7 None] by simp
qed

text \<open>
  C34 (functional). \<open>api_history_add\<close> keeps one row per user and book:
  when it answers, the body carried a non-zero id \<open>i\<close>; the pair (user, \<open>i\<close>)
  is in the history with the time of the request, no other pair has been
  added or removed, the table has grown by one row exactly when the pair is
  new, and the change is committed.
\<close>

theorem history_add_upserts:
  assumes "store_ok s" and "api_history_add uid now (Some data) s = (Inr Viewed, s')"
  shows "\<exists>i. book_id_of data = Inr i \<and> i \<noteq> 0
           \<and> hist_keys s' = insert (uid, i) (hist_keys s)
           \<and> (\<forall>h \<in> set (histories (live s')). hist_key h = (uid, i) \<longrightarrow> h_viewed_at h = now)
           \<and> length (histories (live s'))
               = length (histories (live s)) + (if (uid, i) \<in> hist_keys s then 0 else 1)
           \<and> live s' = durable s'"
  using assms(2)
proof (cases rule: history_add_cases)
  case (touched i h)
  from history_touched[OF assms(1) touched(4,5)] touched(2,3,5) show ?thesis
    by (intro exI[of _ i]) simp
next
  case (added i)
  from history_added[OF added(4,5)] added(2,3,5) show ?thesis
    by (intro exI[of _ i]) simp
qed simp_all

theorem history_add_upserts_witness:
  "\<exists>s'. api_history_add 7 90 (id_body 1) one_view = (Inr Viewed, s')
      \<and> map h_viewed_at (histories (live s')) = [90] \<and> hist_keys s' = {(7, 1)}"
proof -
  obtain s' where t: "api_history_add 7 90 (Some (the (id_body 1))) one_view = (Inr Viewed, s')"
    and v: "map h_viewed_at (histories (live s')) = [90]"
    by (simp add: history_add_eq one_view_def store_eval empty_tables_def commit_def
        new_session_def)
  from history_add_upserts[OF one_view_ok t] t v show ?thesis
    by (auto simp: id_body_def hist_keys_def one_view_def empty_tables_def hist_key_def)
qed

text \<open>
  The history page shows at most a hundred rows, the most
  recently viewed first.
\<close>

theorem history_page_bounds:
  "length (history_page uid q s) \<le> 100
   \<and> sorted_wrt (\<lambda>a b. a \<ge> b) (map hr_viewed_at (history_page uid q s))"
proof -
  have "length (history_books uid s) \<le> 100" by (simp add: history_books_def)
  moreover have "length (filter P (history_books uid s)) \<le> length (history_books uid s)" for P
    by (rule length_filter_le)
  ultimately have len: "length (history_page uid q s) \<le> 100"
    unfolding history_page_def Let_def length_map by (rule order_trans[rotated])
  have "sorted_wrt (\<lambda>a b. snd a \<ge> snd b) (filter P (history_books uid s))" for P
    by (rule sorted_wrt_filter[OF history_books_desc])
  then have "sorted_wrt (\<lambda>a b. a \<ge> b) (map hr_viewed_at (history_page uid q s))"
    by (simp add: history_page_def Let_def sorted_wrt_map history_row_of_def comp_def)
  with len show ?thesis ..
qed

end
