(* ===== verification/Social.thy ===== *)
theory Social
  imports BookRoutes
begin

text \<open>
  The following and followers lists (\<open>src/main.py\<close>: the module-level lists
  \<open>FOLLOWING\<close> and \<open>FOLLOWERS\<close>, the pages \<open>following\<close> and \<open>followers\<close>, and
  the JSON routes \<open>api_following_toggle\<close> and \<open>api_followers_remove\<close>).

  The two lists live in the memory of the process: they are one state for
  every visitor, are changed in place, and are not part of any transaction.
  \<open>social\<close> is that state and \<open>social0\<close> its value when the module is loaded.
  A route takes the state and returns its reply with the new state.

  \<open>title\<close> is \<open>str.title()\<close>: the first cased character of every run of cased
  characters in title case, the others in lower case. On the code points of
  the model it is exact except for the micro sign (181) and the y with
  diaeresis (255) at the start of a run, whose title case lies beyond code
  point 255; they are left as they are.
\<close>

section \<open>People\<close>

record person =
  p_name :: string
  p_handle :: string

record social =
  following :: "person list"
  followers :: "person list"

definition FOLLOWING :: "person list" where
  "FOLLOWING =
    [\<lparr>p_name = ''John Smith'', p_handle = ''@johnsmith34''\<rparr>,
     \<lparr>p_name = ''Emma Davis'', p_handle = ''@emmadavis''\<rparr>,
     \<lparr>p_name = ''Sophia Nguyen'', p_handle = ''@sophiareads''\<rparr>,
     \<lparr>p_name = ''Oliver Brown'', p_handle = ''@olibrown''\<rparr>,
     \<lparr>p_name = ''Lucas Garcia'', p_handle = ''@l_garcia55''\<rparr>,
     \<lparr>p_name = ''Lily Gordon'', p_handle = ''@lilygordon01''\<rparr>]"

definition FOLLOWERS :: "person list" where
  "FOLLOWERS =
    [\<lparr>p_name = ''Ava Patel'', p_handle = ''@avap_''\<rparr>,
     \<lparr>p_name = ''Ben Carter'', p_handle = ''@bencarter''\<rparr>,
     \<lparr>p_name = ''Chen Wei'', p_handle = ''@chenreads''\<rparr>,
     \<lparr>p_name = ''Diana Lopez'', p_handle = ''@dianalpz''\<rparr>,
     \<lparr>p_name = ''Ethan Murphy'', p_handle = ''@ethanm''\<rparr>,
     \<lparr>p_name = ''Fatima Khan'', p_handle = ''@fatimakhan''\<rparr>]"

definition social0 :: social where
  "social0 = \<lparr>following = FOLLOWING, followers = FOLLOWERS\<rparr>"

section \<open>The pages\<close>

definition person_match :: "string \<Rightarrow> person \<Rightarrow> bool" where
  "person_match q p \<longleftrightarrow> py_in q (lower (p_name p)) \<or> py_in q (lower (p_handle p))"

definition people_page :: "string option \<Rightarrow> person list \<Rightarrow> person list" where
  "people_page q_arg people =
     (let q = lower (form_field q_arg)
      in if q \<noteq> [] then filter (person_match q) people else people)"

definition following_page :: "string option \<Rightarrow> social \<Rightarrow> person list" where
  "following_page q_arg soc = people_page q_arg (following soc)"

definition followers_page :: "string option \<Rightarrow> social \<Rightarrow> person list" where
  "followers_page q_arg soc = people_page q_arg (followers soc)"

section \<open>The name guessed from a handle\<close>

definition is_lower_code :: "nat \<Rightarrow> bool" where
  "is_lower_code n \<longleftrightarrow>
     (97 \<le> n \<and> n \<le> 122) \<or> n = 170 \<or> n = 181 \<or> n = 186
     \<or> (223 \<le> n \<and> n \<le> 246) \<or> (248 \<le> n \<and> n \<le> 255)"

definition is_cased :: "char \<Rightarrow> bool" where
  "is_cased c \<longleftrightarrow> is_upper_code (of_char c) \<or> is_lower_code (of_char c)"

definition title_char :: "char \<Rightarrow> string" where
  "title_char c =
     (let n = (of_char c :: nat)
      in if (97 \<le> n \<and> n \<le> 122) \<or> (224 \<le> n \<and> n \<le> 246) \<or> (248 \<le> n \<and> n \<le> 254)
         then [char_of (n - 32)]
         else if n = 223 then ''Ss''
         else [c])"

fun title_from :: "bool \<Rightarrow> string \<Rightarrow> string" where
  "title_from previous_is_cased [] = []"
| "title_from previous_is_cased (c # cs) =
     (if previous_is_cased then [lower_char c] else title_char c) @ title_from (is_cased c) cs"

definition title :: "string \<Rightarrow> string" where
  "title s = title_from False s"

definition lstrip_at :: "string \<Rightarrow> string" where
  "lstrip_at s = dropWhile (\<lambda>c. c = CHR ''@'') s"

definition replace_underscore :: "string \<Rightarrow> string" where
  "replace_underscore s = map (\<lambda>c. if c = CHR ''_'' then CHR '' '' else c) s"

definition name_guess :: "string \<Rightarrow> string" where
  "name_guess hdl = or_default (title (replace_underscore (lstrip_at hdl))) ''User''"

section \<open>The routes that change the lists\<close>

datatype social_reply = BadBody | MissingHandle | Followed | Unfollowed | NotFound | Removed

definition handle_of :: "json \<Rightarrow> string result" where
  "handle_of body =
     rbind (dict_get (py_or body (JObj [])) ''handle'') (\<lambda>v. str_strip (py_or v (JStr [])))"

definition first_index :: "('a \<Rightarrow> bool) \<Rightarrow> 'a list \<Rightarrow> nat option" where
  "first_index P xs =
     (if list_ex P xs then Some (length (takeWhile (\<lambda>x. \<not> P x) xs)) else None)"

definition pop :: "nat \<Rightarrow> 'a list \<Rightarrow> 'a list" where
  "pop i xs = take i xs @ drop (Suc i) xs"

definition api_following_toggle :: "json option \<Rightarrow> (social_reply, social) prog" where
  "api_following_toggle body soc =
     (case body of
        None \<Rightarrow> (Inr BadBody, soc)
      | Some data \<Rightarrow>
          (case handle_of data of
             Inl e \<Rightarrow> (Inl e, soc)
           | Inr hdl \<Rightarrow>
               if hdl = [] then (Inr MissingHandle, soc)
               else case first_index (\<lambda>p. p_handle p = hdl) (following soc) of
                      Some idx \<Rightarrow> (Inr Unfollowed, soc\<lparr>following := pop idx (following soc)\<rparr>)
                    | None \<Rightarrow>
                        (Inr Followed,
                         soc\<lparr>following := following soc
                                @ [\<lparr>p_name = name_guess hdl, p_handle = hdl\<rparr>]\<rparr>)))"

definition api_followers_remove :: "json option \<Rightarrow> (social_reply, social) prog" where
  "api_followers_remove body soc =
     (case body of
        None \<Rightarrow> (Inr BadBody, soc)
      | Some data \<Rightarrow>
          (case handle_of data of
             Inl e \<Rightarrow> (Inl e, soc)
           | Inr hdl \<Rightarrow>
               if hdl = [] then (Inr MissingHandle, soc)
               else case first_index (\<lambda>p. p_handle p = hdl) (followers soc) of
                      None \<Rightarrow> (Inr NotFound, soc)
                    | Some idx \<Rightarrow> (Inr Removed, soc\<lparr>followers := pop idx (followers soc)\<rparr>)))"

section \<open>What the properties speak of\<close>

definition handles :: "person list \<Rightarrow> string set" where
  "handles ps = p_handle ` set ps"

definition social_ok :: "social \<Rightarrow> bool" where
  "social_ok soc \<longleftrightarrow>
     distinct (map p_handle (following soc)) \<and> distinct (map p_handle (followers soc))
     \<and> set (followers soc) \<subseteq> set FOLLOWERS
     \<and> list_all (\<lambda>p. p_name p \<noteq> [] \<and> p_handle p \<noteq> []) (following soc)"

section \<open>Example inputs\<close>

definition handle_body :: "string \<Rightarrow> json option" where
  "handle_body h = Some (JObj [(''handle'', JStr h)])"

section \<open>Lemmas: lists\<close>

lemma first_index_None_iff: "first_index P xs = None \<longleftrightarrow> (\<forall>x \<in> set xs. \<not> P x)"
  by (simp add: first_index_def list_ex_iff)

lemma first_index_split:
  assumes "first_index P xs = Some i"
  obtains pre x post where "xs = pre @ x # post" "\<forall>y \<in> set pre. \<not> P y" "P x"
    "i = length pre" "pop i xs = pre @ post"
proof -
  define pre where "pre = takeWhile (\<lambda>x. \<not> P x) xs"
  from assms have ex: "list_ex P xs" and i: "i = length pre"
    by (simp_all add: first_index_def pre_def split: if_splits)
  from ex have "dropWhile (\<lambda>x. \<not> P x) xs \<noteq> []"
    by (simp add: dropWhile_eq_Nil_conv list_ex_iff)
  then obtain x post where dw: "dropWhile (\<lambda>x. \<not> P x) xs = x # post"
    by (cases "dropWhile (\<lambda>x. \<not> P x) xs") auto
  with hd_dropWhile[of "\<lambda>x. \<not> P x" xs] have Px: "P x" by simp
  from takeWhile_dropWhile_id[of "\<lambda>x. \<not> P x" xs] dw have xs: "xs = pre @ x # post"
    by (simp add: pre_def)
  have pre: "\<forall>y \<in> set pre. \<not> P y" by (auto simp: pre_def dest: set_takeWhileD)
  have "pop (length pre) (pre @ x # post) = pre @ post" by (simp add: pop_def)
  with xs i have "pop i xs = pre @ post" by simp
  with xs pre Px i show thesis by (rule that)
qed

lemma pop_snoc_fresh:
  assumes "\<forall>y \<in> set xs. \<not> P y" and "P x"
  shows "first_index P (xs @ [x]) = Some (length xs)" and "pop (length xs) (xs @ [x]) = xs"
  using assms by (simp_all add: first_index_def pop_def list_ex_iff)

lemma pop_Cons: "pop i (x # xs) = (case i of 0 \<Rightarrow> xs | Suc j \<Rightarrow> x # pop j xs)"
  by (simp add: pop_def split: nat.splits)

lemma set_pop_subset: "set (pop i xs) \<subseteq> set xs"
  by (auto simp: pop_def dest: in_set_takeD in_set_dropD)

lemma distinct_map_pop: "distinct (map k xs) \<Longrightarrow> distinct (map k (pop i xs))"
proof (induction xs arbitrary: i)
  case Nil
  then show ?case by (simp add: pop_def)
next
  case (Cons x xs)
  with set_pop_subset[of _ xs] show ?case
    by (auto simp: pop_Cons split: nat.splits)
qed

lemma handles_pop:
  assumes "distinct (map p_handle ps)" and "first_index (\<lambda>p. p_handle p = h) ps = Some i"
  shows "handles (pop i ps) = handles ps - {h}"
proof -
  from assms(2) obtain pre x post where ps: "ps = pre @ x # post" and x: "p_handle x = h"
    and pop: "pop i ps = pre @ post"
    by (rule first_index_split)
  from assms(1) have "h \<notin> handles pre" "h \<notin> handles post"
    unfolding ps by (auto simp: handles_def x)
  then show ?thesis unfolding pop by (auto simp: ps handles_def x)
qed

section \<open>Lemmas: names\<close>

lemma title_from_nonempty: "s \<noteq> [] \<Longrightarrow> title_from b s \<noteq> []"
  by (cases s) (auto simp: title_char_def Let_def)

lemma name_guess_nonempty [simp]: "name_guess h \<noteq> []"
  by (simp add: name_guess_def)

lemmas social_eval = name_guess_def title_def title_char_def is_cased_def is_lower_code_def
  lstrip_at_def replace_underscore_def or_default_def handle_of_def handle_body_def
  first_index_def pop_def py_or_def rbind_def

lemma name_guess_examples:
  "name_guess ''@l_garcia55'' = ''L Garcia55''" "name_guess ''@@'' = ''User''"
  "name_guess ''@mcDONALD's'' = ''Mcdonald'S''"
  by (simp_all add: social_eval pystr_eval)

lemma handle_of_handle_body: "handle_of (the (handle_body h)) = Inr (strip h)"
  by (simp add: handle_of_def handle_body_def py_or_def rbind_def)

lemma handle_of_Inl: "handle_of body = Inl e \<Longrightarrow> e = AttributeError"
  by (cases "py_or body (JObj [])")
     (auto simp: handle_of_def rbind_def py_or_def split: sum.splits option.splits if_splits
       elim!: str_strip.elims)

section \<open>Lemmas: the routes\<close>

lemma following_toggle_cases [consumes 1, case_names bad failed missing unfollowed followed]:
  assumes "api_following_toggle body soc = (r, soc')"
  obtains "body = None" "r = Inr BadBody" "soc' = soc"
  | data where "body = Some data" "handle_of data = Inl AttributeError"
      "r = Inl AttributeError" "soc' = soc"
  | data where "body = Some data" "handle_of data = Inr []" "r = Inr MissingHandle" "soc' = soc"
  | data h i where "body = Some data" "handle_of data = Inr h" "h \<noteq> []" "r = Inr Unfollowed"
      "first_index (\<lambda>p. p_handle p = h) (following soc) = Some i"
      "soc' = soc\<lparr>following := pop i (following soc)\<rparr>"
  | data h where "body = Some data" "handle_of data = Inr h" "h \<noteq> []" "r = Inr Followed"
      "h \<notin> handles (following soc)"
      "soc' = soc\<lparr>following := following soc @ [\<lparr>p_name = name_guess h, p_handle = h\<rparr>]\<rparr>"
proof (cases body)
  case None
  with assms that(1) show thesis by (simp add: api_following_toggle_def)
next
  case (Some data)
  show thesis
  proof (cases "handle_of data")
    case (Inl e)
    with assms Some that(2)[of data] handle_of_Inl[OF Inl] show thesis
      by (simp add: api_following_toggle_def)
  next
    case (Inr h)
    show thesis
    proof (cases "h = []")
      case True
      with assms Some Inr that(3)[of data] show thesis by (simp add: api_following_toggle_def)
    next
      case False
      show thesis
      proof (cases "first_index (\<lambda>p. p_handle p = h) (following soc)")
        case None
        then have "h \<notin> handles (following soc)"
          by (auto simp: first_index_None_iff handles_def)
        with assms Some Inr False None that(5)[of data h] show thesis
          by (simp add: api_following_toggle_def)
      next
        case (Some i)
        with assms \<open>body = Some data\<close> Inr False that(4)[of data h i] show thesis
          by (simp add: api_following_toggle_def)
      qed
    qed
  qed
qed

lemma followers_remove_cases [consumes 1, case_names bad failed missing absent removed]:
  assumes "api_followers_remove body soc = (r, soc')"
  obtains "body = None" "r = Inr BadBody" "soc' = soc"
  | data where "body = Some data" "handle_of data = Inl AttributeError"
      "r = Inl AttributeError" "soc' = soc"
  | data where "body = Some data" "handle_of data = Inr []" "r = Inr MissingHandle" "soc' = soc"
  | data h where "body = Some data" "handle_of data = Inr h" "h \<noteq> []" "r = Inr NotFound"
      "h \<notin> handles (followers soc)" "soc' = soc"
  | data h i where "body = Some data" "handle_of data = Inr h" "h \<noteq> []" "r = Inr Removed"
      "first_index (\<lambda>p. p_handle p = h) (followers soc) = Some i"
      "soc' = soc\<lparr>followers := pop i (followers soc)\<rparr>"
proof (cases body)
  case None
  with assms that(1) show thesis by (simp add: api_followers_remove_def)
next
  case (Some data)
  show thesis
  proof (cases "handle_of data")
    case (Inl e)
    with assms Some that(2)[of data] handle_of_Inl[OF Inl] show thesis
      by (simp add: api_followers_remove_def)
  next
    case (Inr h)
    show thesis
    proof (cases "h = []")
      case True
      with assms Some Inr that(3)[of data] show thesis by (simp add: api_followers_remove_def)
    next
      case False
      show thesis
      proof (cases "first_index (\<lambda>p. p_handle p = h) (followers soc)")
        case None
        then have absent: "h \<notin> handles (followers soc)"
          by (auto simp: first_index_None_iff handles_def)
        from assms Some Inr False None have "r = Inr NotFound" "soc' = soc"
          by (simp_all add: api_followers_remove_def)
        with Some Inr False absent that(4)[of data h] show thesis by blast
      next
        case found: (Some i)
        with assms Some Inr False have "r = Inr Removed"
          "soc' = soc\<lparr>followers := pop i (followers soc)\<rparr>"
          by (simp_all add: api_followers_remove_def)
        with Some Inr False found that(5)[of data h i] show thesis by blast
      qed
    qed
  qed
qed

lemma social_ok_social0: "social_ok social0"
  by (simp add: social_ok_def social0_def FOLLOWING_def FOLLOWERS_def)

lemma keeps_api_following_toggle [keeps_intros]: "keeps social_ok (api_following_toggle body)"
proof (rule keepsI)
  fix soc r soc'
  assume ok: "social_ok soc" and run: "api_following_toggle body soc = (r, soc')"
  from run show "social_ok soc'"
  proof (cases rule: following_toggle_cases)
    case (unfollowed data h i)
    from ok have "list_all (\<lambda>p. p_name p \<noteq> [] \<and> p_handle p \<noteq> []) (pop i (following soc))"
      using set_pop_subset[of i "following soc"] by (auto simp: social_ok_def list_all_iff)
    with ok show ?thesis unfolding unfollowed(6) by (simp add: social_ok_def distinct_map_pop)
  next
    case (followed data h)
    with ok show ?thesis unfolding followed(6) by (simp add: social_ok_def handles_def)
  qed (use ok in simp_all)
qed

lemma keeps_api_followers_remove [keeps_intros]: "keeps social_ok (api_followers_remove body)"
proof (rule keepsI)
  fix soc r soc'
  assume ok: "social_ok soc" and run: "api_followers_remove body soc = (r, soc')"
  from run show "social_ok soc'"
  proof (cases rule: followers_remove_cases)
    case (removed data h i)
    from ok set_pop_subset[of i "followers soc"]
    have "set (pop i (followers soc)) \<subseteq> set FOLLOWERS" by (auto simp: social_ok_def)
    with ok show ?thesis unfolding removed(6) by (simp add: social_ok_def distinct_map_pop)
  qed (use ok in simp_all)
qed

lemma people_page_subset: "set (people_page q ps) \<subseteq> set ps"
  by (auto simp: people_page_def Let_def)

lemma people_page_blank: "lower (form_field q) = [] \<Longrightarrow> people_page q ps = ps"
  by (simp add: people_page_def)

section \<open>Properties\<close>

text \<open>
  C36 (functional). The toggle of the following list: a body that is an
  object with a non-blank string as handle is answered with \<open>followed\<close>
  exactly when the handle was not in the list, and then the list has one more
  entry, at its end, with that handle and the guessed name; otherwise with
  \<open>unfollowed\<close>, and then the first entry with that handle is gone. The list
  of followers never changes, and the other entries stay in order.
\<close>

theorem following_toggle_effect:
  assumes "handle_of data = Inr h" and "h \<noteq> []"
    and "api_following_toggle (Some data) soc = (r, soc')"
  shows "(r = Inr Followed \<longleftrightarrow> h \<notin> handles (following soc))
       \<and> (r = Inr Unfollowed \<longleftrightarrow> h \<in> handles (following soc))
       \<and> (h \<notin> handles (following soc) \<longrightarrow>
            following soc' = following soc @ [\<lparr>p_name = name_guess h, p_handle = h\<rparr>])
       \<and> (h \<in> handles (following soc) \<longrightarrow>
            (\<exists>pre x post. following soc = pre @ x # post \<and> p_handle x = h
               \<and> h \<notin> handles pre \<and> following soc' = pre @ post))
       \<and> followers soc' = followers soc"
  using assms(3)
proof (cases rule: following_toggle_cases)
  case (unfollowed data' h' i)
  with assms(1) have h': "h' = h" by simp
  from unfollowed(5)[unfolded h'] obtain pre x post
    where split: "following soc = pre @ x # post" "\<forall>y \<in> set pre. p_handle y \<noteq> h"
      "p_handle x = h" "pop i (following soc) = pre @ post"
    by (rule first_index_split)
  then have "h \<in> handles (following soc)" "h \<notin> handles pre" by (auto simp: handles_def)
  moreover from split unfollowed(6)
  have "\<exists>pre x post. following soc = pre @ x # post \<and> p_handle x = h
           \<and> h \<notin> handles pre \<and> following soc' = pre @ post"
    using \<open>h \<notin> handles pre\<close> by (intro exI[of _ pre] exI[of _ x] exI[of _ post]) simp
  ultimately show ?thesis using unfollowed(4,6) by simp
next
  case (followed data' h')
  with assms(1) show ?thesis by auto
qed (use assms in simp_all)

theorem following_toggle_effect_witness:
  "api_following_toggle (handle_body '' @emmadavis '') social0
     = (Inr Unfollowed, social0\<lparr>following := pop 1 FOLLOWING\<rparr>)
   \<and> ''@emmadavis'' \<in> handles (following social0)"
proof -
  have h: "handle_of (the (handle_body '' @emmadavis '')) = Inr ''@emmadavis''"
    by (simp add: handle_of_handle_body pystr_eval)
  have t: "api_following_toggle (Some (the (handle_body '' @emmadavis ''))) social0
     = (Inr Unfollowed, social0\<lparr>following := pop 1 FOLLOWING\<rparr>)"
    by (simp add: api_following_toggle_def h social0_def FOLLOWING_def first_index_def)
  from following_toggle_effect[OF h _ t] t show ?thesis by (simp add: handle_body_def)
qed

text \<open>
  Following and at once unfollowing leaves the lists
  exactly as they were: after a toggle that answered \<open>followed\<close>, the same
  request again answers \<open>unfollowed\<close> and restores the state.
\<close>

theorem follow_then_unfollow_restores:
  assumes "api_following_toggle body soc = (Inr Followed, soc1)"
  shows "api_following_toggle body soc1 = (Inr Unfollowed, soc)"
  using assms
proof (cases rule: following_toggle_cases)
  case (followed data h)
  from followed(5) have "\<forall>y \<in> set (following soc). p_handle y \<noteq> h" by (auto simp: handles_def)
  from pop_snoc_fresh[of "following soc" "\<lambda>p. p_handle p = h"
      "\<lparr>p_name = name_guess h, p_handle = h\<rparr>", OF this]
  show ?thesis using followed by (simp add: api_following_toggle_def)
qed simp_all

theorem follow_then_unfollow_restores_witness:
  "api_following_toggle (handle_body ''@new_reader'') social0
     = (Inr Followed, social0\<lparr>following := FOLLOWING
          @ [\<lparr>p_name = ''New Reader'', p_handle = ''@new_reader''\<rparr>]\<rparr>)
   \<and> api_following_toggle (handle_body ''@new_reader'')
        (social0\<lparr>following := FOLLOWING @ [\<lparr>p_name = ''New Reader'', p_handle = ''@new_reader''\<rparr>]\<rparr>)
     = (Inr Unfollowed, social0)"
proof -
  have t: "api_following_toggle (handle_body ''@new_reader'') social0
     = (Inr Followed, social0\<lparr>following := FOLLOWING
          @ [\<lparr>p_name = ''New Reader'', p_handle = ''@new_reader''\<rparr>]\<rparr>)"
    by (simp add: api_following_toggle_def social0_def FOLLOWING_def social_eval pystr_eval)
  from follow_then_unfollow_restores[OF t] t show ?thesis by simp
qed

text \<open>
  The other order loses the name: unfollowing a person and following the
  same handle again puts the person at the end of the list under the name
  guessed from the handle.
\<close>

theorem unfollow_then_follow_renames:
  "api_following_toggle (handle_body ''@johnsmith34'')
     (snd (api_following_toggle (handle_body ''@johnsmith34'') social0))
   = (Inr Followed,
      social0\<lparr>following := tl FOLLOWING @ [\<lparr>p_name = ''Johnsmith34'', p_handle = ''@johnsmith34''\<rparr>]\<rparr>)"
  by (simp add: api_following_toggle_def social0_def FOLLOWING_def social_eval pystr_eval)

text \<open>
  Followers can only be removed: \<open>api_followers_remove\<close>
  answers \<open>not found\<close> for a handle that is not in the list and changes
  nothing; otherwise it removes the first entry with that handle and no
  other, and it never touches the following list.
\<close>

theorem followers_remove_effect:
  assumes "handle_of data = Inr h" and "h \<noteq> []"
    and "api_followers_remove (Some data) soc = (r, soc')"
  shows "(r = Inr NotFound \<longleftrightarrow> h \<notin> handles (followers soc))
       \<and> (r = Inr Removed \<longleftrightarrow> h \<in> handles (followers soc))
       \<and> (h \<notin> handles (followers soc) \<longrightarrow> soc' = soc)
       \<and> (h \<in> handles (followers soc) \<longrightarrow>
            (\<exists>pre x post. followers soc = pre @ x # post \<and> p_handle x = h
               \<and> h \<notin> handles pre \<and> followers soc' = pre @ post))
       \<and> following soc' = following soc"
  using assms(3)
proof (cases rule: followers_remove_cases)
  case (removed data' h' i)
  with assms(1) have h': "h' = h" by simp
  from removed(5)[unfolded h'] obtain pre x post
    where split: "followers soc = pre @ x # post" "\<forall>y \<in> set pre. p_handle y \<noteq> h"
      "p_handle x = h" "pop i (followers soc) = pre @ post"
    by (rule first_index_split)
  then have "h \<in> handles (followers soc)" "h \<notin> handles pre" by (auto simp: handles_def)
  moreover from split removed(6)
  have "\<exists>pre x post. followers soc = pre @ x # post \<and> p_handle x = h
           \<and> h \<notin> handles pre \<and> followers soc' = pre @ post"
    using \<open>h \<notin> handles pre\<close> by (intro exI[of _ pre] exI[of _ x] exI[of _ post]) simp
  ultimately show ?thesis using removed(4,6) by simp
next
  case (absent data' h')
  with assms(1) show ?thesis by auto
qed (use assms in simp_all)

theorem followers_remove_effect_witness:
  "api_followers_remove (handle_body ''@avap_'') social0
     = (Inr Removed, social0\<lparr>followers := tl FOLLOWERS\<rparr>)
   \<and> ''@avap_'' \<in> handles (followers social0)"
proof -
  have h: "handle_of (the (handle_body ''@avap_'')) = Inr ''@avap_''"
    by (simp add: handle_of_handle_body pystr_eval)
  have t: "api_followers_remove (Some (the (handle_body ''@avap_''))) social0
     = (Inr Removed, social0\<lparr>followers := tl FOLLOWERS\<rparr>)"
    by (simp add: api_followers_remove_def h social0_def FOLLOWERS_def first_index_def pop_def)
  from followers_remove_effect[OF h _ t] t show ?thesis by (simp add: handle_body_def)
qed

end
