(* ===== verification/Prefs.thy ===== *)
theory Prefs
  imports BookRoutes
begin

text \<open>
  The visitor's session and the preferences kept in it (\<open>src/main.py\<close>:
  \<open>LANGS\<close>, \<open>get_pref\<close>, \<open>set_pref\<close> and the routes \<open>privacy_settings\<close>,
  \<open>notifications_settings\<close>, \<open>theme_settings\<close> and \<open>language_settings\<close>).

  Flask's \<open>session\<close> is a signed cookie: it belongs to one visitor and
  travels with every request of that visitor. \<open>cookie\<close> is its content, one
  field per key the code uses, \<open>None\<close> for a key that is not set;
  \<open>c_user_id\<close> is the key under which Flask-Login keeps the id of the user
  who is logged in. A route takes the cookie and returns its reply with the
  cookie it sends back.

  \<open>prefs_ok\<close> is the invariant of the preferences: a theme that is set is
  \<open>light\<close> or \<open>dark\<close>, a language that is set is one of \<open>LANGS\<close>.
\<close>

section \<open>The session of a visitor\<close>

record cookie =
  c_user_id :: "nat option"
  c_profile_private :: "bool option"
  c_show_activity :: "bool option"
  c_notifications_enabled :: "bool option"
  c_theme :: "string option"
  c_lang :: "string option"

definition empty_cookie :: cookie where
  "empty_cookie = \<lparr>c_user_id = None, c_profile_private = None, c_show_activity = None,
     c_notifications_enabled = None, c_theme = None, c_lang = None\<rparr>"

definition LANGS :: "string list" where
  "LANGS = [''English'', ''Espa'' @ [CHR 0xF1] @ ''ol'', ''Fran'' @ [CHR 0xE7] @ ''ais'',
     ''Deutsch'', ''Italiano'']"

definition get_pref :: "'a option \<Rightarrow> 'a \<Rightarrow> 'a" where
  "get_pref stored fallback = (case stored of None \<Rightarrow> fallback | Some v \<Rightarrow> v)"

definition form_bool :: "string option \<Rightarrow> bool" where
  "form_bool v = (case v of None \<Rightarrow> False | Some s \<Rightarrow> s \<noteq> [])"

section \<open>The settings routes\<close>

datatype 'a settings_page = Saved | Shown 'a

definition privacy_settings ::
    "http_method \<Rightarrow> string option \<Rightarrow> string option \<Rightarrow> ((bool \<times> bool) settings_page, cookie) prog" where
  "privacy_settings verb profile_private_arg show_activity_arg c =
     (if verb = POST
      then (Inr Saved, c\<lparr>c_profile_private := Some (form_bool profile_private_arg),
                           c_show_activity := Some (form_bool show_activity_arg)\<rparr>)
      else (Inr (Shown (get_pref (c_profile_private c) False, get_pref (c_show_activity c) True)), c))"

definition notifications_settings ::
    "http_method \<Rightarrow> string option \<Rightarrow> (bool settings_page, cookie) prog" where
  "notifications_settings verb enabled_arg c =
     (if verb = POST
      then (Inr Saved, c\<lparr>c_notifications_enabled := Some (form_bool enabled_arg)\<rparr>)
      else (Inr (Shown (get_pref (c_notifications_enabled c) True)), c))"

definition chosen_theme :: "string option \<Rightarrow> string" where
  "chosen_theme theme_arg =
     (let theme = lower (case theme_arg of None \<Rightarrow> ''light'' | Some s \<Rightarrow> or_default s ''light'')
      in if theme \<notin> set [''light'', ''dark''] then ''light'' else theme)"

definition theme_settings :: "http_method \<Rightarrow> string option \<Rightarrow> (string settings_page, cookie) prog" where
  "theme_settings verb theme_arg c =
     (if verb = POST then (Inr Saved, c\<lparr>c_theme := Some (chosen_theme theme_arg)\<rparr>)
      else (Inr (Shown (get_pref (c_theme c) ''light'')), c))"

definition chosen_lang :: "string option \<Rightarrow> string" where
  "chosen_lang lang_arg =
     (let lang = (case lang_arg of None \<Rightarrow> ''English'' | Some s \<Rightarrow> or_default s ''English'')
      in if lang \<notin> set LANGS then ''English'' else lang)"

definition language_settings ::
    "http_method \<Rightarrow> string option \<Rightarrow> ((string list \<times> string) settings_page, cookie) prog" where
  "language_settings verb lang_arg c =
     (if verb = POST then (Inr Saved, c\<lparr>c_lang := Some (chosen_lang lang_arg)\<rparr>)
      else (Inr (Shown (LANGS, get_pref (c_lang c) ''English'')), c))"

section \<open>Invariant\<close>

definition prefs_ok :: "cookie \<Rightarrow> bool" where
  "prefs_ok c \<longleftrightarrow>
     (case c_theme c of None \<Rightarrow> True | Some t \<Rightarrow> t = ''light'' \<or> t = ''dark'')
     \<and> (case c_lang c of None \<Rightarrow> True | Some l \<Rightarrow> l \<in> set LANGS)"

section \<open>Lemmas\<close>

lemmas prefs_eval = privacy_settings_def notifications_settings_def theme_settings_def
  language_settings_def chosen_theme_def chosen_lang_def get_pref_def form_bool_def
  empty_cookie_def LANGS_def or_default_def

lemma chosen_theme_valid: "chosen_theme a = ''light'' \<or> chosen_theme a = ''dark''"
  by (auto simp: chosen_theme_def Let_def)

lemma chosen_lang_valid: "chosen_lang a \<in> set LANGS"
  by (auto simp: chosen_lang_def Let_def LANGS_def)

lemma chosen_lang_id: "l \<in> set LANGS \<Longrightarrow> chosen_lang (Some l) = l"
  by (auto simp: chosen_lang_def Let_def LANGS_def or_default_def)

lemma prefs_ok_empty [simp]: "prefs_ok empty_cookie"
  by (simp add: prefs_ok_def empty_cookie_def)

lemma keeps_privacy_settings [keeps_intros]: "keeps prefs_ok (privacy_settings verb a b)"
  by (rule keepsI) (auto simp: privacy_settings_def prefs_ok_def split: if_splits)

lemma keeps_notifications_settings [keeps_intros]: "keeps prefs_ok (notifications_settings verb a)"
  by (rule keepsI) (auto simp: notifications_settings_def prefs_ok_def split: if_splits)

lemma keeps_theme_settings [keeps_intros]: "keeps prefs_ok (theme_settings verb a)"
  using chosen_theme_valid[of a]
  by (intro keepsI) (auto simp: theme_settings_def prefs_ok_def split: if_splits)

lemma keeps_language_settings [keeps_intros]: "keeps prefs_ok (language_settings verb a)"
  using chosen_lang_valid[of a]
  by (intro keepsI) (auto simp: language_settings_def prefs_ok_def split: if_splits)

lemma settings_keep_user:
  "keeps (\<lambda>c. c_user_id c = x) (privacy_settings verb a b)"
  "keeps (\<lambda>c. c_user_id c = x) (notifications_settings verb a)"
  "keeps (\<lambda>c. c_user_id c = x) (theme_settings verb a)"
  "keeps (\<lambda>c. c_user_id c = x) (language_settings verb a)"
  by (auto simp: keeps_def privacy_settings_def notifications_settings_def theme_settings_def
      language_settings_def split: if_splits)

section \<open>Properties\<close>

text \<open>
  C38 (type). The theme and the language that a settings page shows are
  always valid values: whatever was posted before, a cookie that satisfies
  \<open>prefs_ok\<close> still does after any settings route, the theme page shows
  \<open>light\<close> or \<open>dark\<close>, and the language page shows one of \<open>LANGS\<close>.
\<close>

theorem settings_show_valid_values:
  assumes "prefs_ok c"
  shows "(theme_settings verb a c = (Inr (Shown t), c') \<longrightarrow> t = ''light'' \<or> t = ''dark'')
       \<and> (language_settings verb a c = (Inr (Shown (ls, l)), c') \<longrightarrow> l \<in> set LANGS \<and> ls = LANGS)
       \<and> prefs_ok (snd (theme_settings verb a c)) \<and> prefs_ok (snd (language_settings verb a c))
       \<and> prefs_ok (snd (privacy_settings verb a b c))
       \<and> prefs_ok (snd (notifications_settings verb a c))"
proof -
  from assms have shown: "get_pref (c_theme c) ''light'' = ''light'' \<or> get_pref (c_theme c) ''light'' = ''dark''"
    "get_pref (c_lang c) ''English'' \<in> set LANGS"
    by (auto simp: prefs_ok_def get_pref_def LANGS_def split: option.splits)
  have kept: "prefs_ok (snd (p c))" if "keeps prefs_ok p" for p :: "('x, cookie) prog"
    using keepsD[OF that assms surjective_pairing] .
  have "theme_settings verb a c = (Inr (Shown t), c') \<longrightarrow> t = ''light'' \<or> t = ''dark''"
    using shown(1) by (auto simp: theme_settings_def split: if_splits)
  moreover have "language_settings verb a c = (Inr (Shown (ls, l)), c') \<longrightarrow> l \<in> set LANGS \<and> ls = LANGS"
    using shown(2) by (auto simp: language_settings_def split: if_splits)
  ultimately show ?thesis
    by (intro conjI kept keeps_intros)
qed

theorem settings_show_valid_values_witness:
  "theme_settings GET None (snd (theme_settings POST (Some ''Solarized'') empty_cookie))
     = (Inr (Shown ''light''), empty_cookie\<lparr>c_theme := Some ''light''\<rparr>)
   \<and> prefs_ok (snd (theme_settings POST (Some ''Solarized'') empty_cookie))"
  using settings_show_valid_values[OF prefs_ok_empty, of POST "Some ''Solarized''"]
  by (simp add: prefs_eval pystr_eval)

text \<open>
  A posted theme is normalised: upper case is accepted, anything else than
  the two themes becomes \<open>light\<close>; posting the theme that is shown changes
  nothing more.
\<close>

theorem theme_post_normalises:
  "chosen_theme (Some ''DARK'') = ''dark''" "chosen_theme (Some ''blue'') = ''light''"
  "chosen_theme None = ''light''" "chosen_theme (Some (chosen_theme a)) = chosen_theme a"
  using chosen_theme_valid[of a]
  by (auto simp: chosen_theme_def or_default_def pystr_eval)

end
