(* ===== verification/Accounts.thy ===== *)
theory Accounts
  imports Prefs Store
begin

text \<open>
  Accounts (\<open>src/main.py\<close>: \<open>User.set_password\<close>, \<open>User.check_password\<close>,
  \<open>load_user\<close>, the reset tokens, and the routes \<open>signup\<close>, \<open>login\<close>, \<open>logout\<close>,
  \<open>forgot_password\<close>, \<open>reset_password\<close>, \<open>change_password\<close>, \<open>edit_profile\<close>,
  \<open>profile_page\<close>, \<open>my_reviews\<close>, \<open>settings\<close> and \<open>public_profile\<close>).

  \<^item> The password hash of \<open>werkzeug\<close> is a parameter: a \<open>crypto\<close> holds
    \<open>generate_password_hash\<close> (with the random salt as an argument) and
    \<open>check_password_hash\<close>. \<open>hash_sound\<close> is what the library promises: a
    hash checks against the password it was made from and against no other.
    Theorems that need it assume it; \<open>toy_crypto\<close> is an instance.
  \<^item> A reset token is the signed pair of an email and the time of signing,
    in seconds. Signatures are taken to be unforgeable: the state holds the
    pairs that \<open>generate_reset_token\<close> has signed (\<open>a_mail\<close>, the links
    printed to the terminal), and \<open>verify_reset_token\<close> accepts exactly a
    pair of that list that is not older than the maximal age and not signed
    in the future (the two tests of \<open>itsdangerous\<close> on the age). The
    assumption is the one the source makes: it holds for a secret key, not
    for the default key of the source, which everybody can read.
  \<^item> An \<open>acct\<close> is what these routes read and write: the session of the
    database, the visitor's cookie and the signed tokens. \<open>current_user\<close> is
    the user Flask-Login loads for a cookie, and \<open>login_required\<close> the
    decorator of that name.

  The upload of a profile picture writes a file and sets an attribute that
  is no column of \<open>User\<close>; it is not modelled.
\<close>

section \<open>Passwords and tokens\<close>

record crypto =
  gen_hash :: "nat \<Rightarrow> string \<Rightarrow> string"
  check_hash :: "string \<Rightarrow> string \<Rightarrow> bool"

definition hash_sound :: "crypto \<Rightarrow> bool" where
  "hash_sound H \<longleftrightarrow> (\<forall>salt pw pw'. check_hash H (gen_hash H salt pw) pw' \<longleftrightarrow> pw' = pw)"

definition set_password :: "crypto \<Rightarrow> nat \<Rightarrow> string \<Rightarrow> user \<Rightarrow> user" where
  "set_password H salt pw u = u\<lparr>u_password_hash := gen_hash H salt pw\<rparr>"

definition check_password :: "crypto \<Rightarrow> user \<Rightarrow> string \<Rightarrow> bool" where
  "check_password H u pw = check_hash H (u_password_hash u) pw"

type_synonym reset_token = "string \<times> nat"

definition verify_reset_token :: "reset_token list \<Rightarrow> nat \<Rightarrow> reset_token \<Rightarrow> nat \<Rightarrow> string option" where
  "verify_reset_token signed now token max_age_seconds =
     (let age = int now - int (snd token)
      in if token \<in> set signed \<and> age \<le> int max_age_seconds \<and> 0 \<le> age
         then Some (fst token) else None)"

section \<open>The state of the account routes\<close>

record acct =
  a_db :: session
  a_cookie :: cookie
  a_mail :: "reset_token list"

definition on_db :: "('a, session) prog \<Rightarrow> ('a, acct) prog" where
  "on_db p a = (case p (a_db a) of (r, s') \<Rightarrow> (r, a\<lparr>a_db := s'\<rparr>))"

definition current_user :: "cookie \<Rightarrow> session \<Rightarrow> user option" where
  "current_user c s = (case c_user_id c of None \<Rightarrow> None | Some i \<Rightarrow> load_user i s)"

datatype 'a gated = LoginRedirect | Served 'a

definition login_required :: "user option \<Rightarrow> (user \<Rightarrow> ('a, 's) prog) \<Rightarrow> ('a gated, 's) prog" where
  "login_required who p =
     (case who of
        None \<Rightarrow> ret LoginRedirect
      | Some u \<Rightarrow> bnd (p u) (\<lambda>x. ret (Served x)))"

definition login_user :: "user \<Rightarrow> (unit, acct) prog" where
  "login_user u a = (Inr (), a\<lparr>a_cookie := (a_cookie a)\<lparr>c_user_id := Some (u_id u)\<rparr>\<rparr>)"

definition current_user_name :: "user option \<Rightarrow> string" where
  "current_user_name who = (case who of None \<Rightarrow> [] | Some u \<Rightarrow> u_name u)"

definition current_user_handle :: "user option \<Rightarrow> string" where
  "current_user_handle who = (case who of None \<Rightarrow> [] | Some u \<Rightarrow> u_handle u)"

section \<open>Sign up, sign in, sign out\<close>

record signup_form =
  sf_email :: "string option"
  sf_password :: "string option"
  sf_name :: "string option"
  sf_handle :: "string option"

datatype signup_reply = SignupForm | SignupMissing | AlreadyRegistered | Welcome

definition raw_field :: "string option \<Rightarrow> string" where
  "raw_field v = (case v of None \<Rightarrow> [] | Some s \<Rightarrow> s)"

definition with_at :: "string \<Rightarrow> string" where
  "with_at h = (if startswith h ''@'' then h else ''@'' @ h)"

definition signup_handle :: "string \<Rightarrow> string" where
  "signup_handle handle_raw =
     (if startswith handle_raw ''@'' then handle_raw
      else if handle_raw \<noteq> [] then ''@'' @ handle_raw else [])"

definition new_user :: "crypto \<Rightarrow> nat \<Rightarrow> signup_form \<Rightarrow> user" where
  "new_user H salt form =
     set_password H salt (raw_field (sf_password form))
       \<lparr>u_id = 0, u_email = lower (form_field (sf_email form)), u_password_hash = [],
        u_name = or_default (form_field (sf_name form)) ''New Reader'',
        u_handle = signup_handle (form_field (sf_handle form)), u_bio = []\<rparr>"

definition signup :: "crypto \<Rightarrow> nat \<Rightarrow> http_method \<Rightarrow> signup_form \<Rightarrow> (signup_reply, acct) prog" where
  "signup H salt verb form =
     (if verb = POST
      then let email = lower (form_field (sf_email form));
               password = raw_field (sf_password form)
           in if email = [] \<or> password = [] then ret SignupMissing
              else bnd (gets (\<lambda>a. find_user_by_email email (a_db a))) (\<lambda>existing.
                   case existing of
                     Some _ \<Rightarrow> ret AlreadyRegistered
                   | None \<Rightarrow>
                       bnd (on_db (insert_user (new_user H salt form))) (\<lambda>user.
                       bnd (on_db do_commit) (\<lambda>_.
                       bnd (login_user user) (\<lambda>_. ret Welcome))))
      else ret SignupForm)"

datatype login_reply = LoginForm | LoginInvalid | LoggedIn

definition login :: "crypto \<Rightarrow> http_method \<Rightarrow> string option \<Rightarrow> string option \<Rightarrow> (login_reply, acct) prog" where
  "login H verb email_arg password_arg =
     (if verb = POST
      then let email = lower (form_field email_arg);
               password = raw_field password_arg
           in bnd (gets (\<lambda>a. find_user_by_email email (a_db a))) (\<lambda>user.
              case user of
                None \<Rightarrow> ret LoginInvalid
              | Some u \<Rightarrow>
                  if \<not> check_password H u password then ret LoginInvalid
                  else bnd (login_user u) (\<lambda>_. ret LoggedIn))
      else ret LoginForm)"

definition logout :: "(unit, acct) prog" where
  "logout a = (Inr (), a\<lparr>a_cookie := (a_cookie a)\<lparr>c_user_id := None\<rparr>\<rparr>)"

section \<open>Resetting and changing the password\<close>

datatype forgot_reply = ForgotForm | ResetSent

definition forgot_password :: "nat \<Rightarrow> http_method \<Rightarrow> string option \<Rightarrow> (forgot_reply, acct) prog" where
  "forgot_password now verb email_arg a =
     (if verb = POST
      then let email = lower (form_field email_arg)
           in case find_user_by_email email (a_db a) of
                Some u \<Rightarrow> (Inr ResetSent, a\<lparr>a_mail := a_mail a @ [(u_email u, now)]\<rparr>)
              | None \<Rightarrow> (Inr ResetSent, a)
      else (Inr ForgotForm, a))"

datatype password_reply =
  InvalidLink | PasswordForm | WrongCurrent | TooShort | Mismatch | PasswordUpdated

definition reset_password ::
    "crypto \<Rightarrow> nat \<Rightarrow> nat \<Rightarrow> reset_token \<Rightarrow> http_method \<Rightarrow> string option \<Rightarrow> string option
       \<Rightarrow> (password_reply, acct) prog" where
  "reset_password H salt now token verb new_arg confirm_arg a =
     (case verify_reset_token (a_mail a) now token (60 * 60) of
        None \<Rightarrow> (Inr InvalidLink, a)
      | Some email \<Rightarrow>
          if email = [] then (Inr InvalidLink, a)
          else case find_user_by_email email (a_db a) of
                 None \<Rightarrow> (Inr InvalidLink, a)
               | Some user \<Rightarrow>
                   if verb = POST
                   then let new_pw = form_field new_arg;
                            confirm = form_field confirm_arg
                        in if new_pw = [] \<or> length new_pw < 6 then (Inr TooShort, a)
                           else if new_pw \<noteq> confirm then (Inr Mismatch, a)
                           else bnd (on_db (update_user (set_password H salt new_pw user))) (\<lambda>_.
                                bnd (on_db do_commit) (\<lambda>_. ret PasswordUpdated)) a
                   else (Inr PasswordForm, a))"

definition change_password ::
    "crypto \<Rightarrow> nat \<Rightarrow> user \<Rightarrow> http_method \<Rightarrow> string option \<Rightarrow> string option \<Rightarrow> string option
       \<Rightarrow> (password_reply, acct) prog" where
  "change_password H salt user verb current_arg new_arg confirm_arg =
     (if verb = POST
      then let current = raw_field current_arg;
               new = raw_field new_arg;
               confirm = raw_field confirm_arg
           in if \<not> check_password H user current then ret WrongCurrent
              else if new = [] \<or> length new < 6 then ret TooShort
              else if new \<noteq> confirm then ret Mismatch
              else bnd (on_db (update_user (set_password H salt new user))) (\<lambda>_.
                   bnd (on_db do_commit) (\<lambda>_. ret PasswordUpdated))
      else ret PasswordForm)"

section \<open>Profile\<close>

record profile_form =
  pf_name :: "string option"
  pf_handle :: "string option"
  pf_bio :: "string option"

record profile_view =
  pv_name :: string
  pv_handle :: string
  pv_bio :: string

datatype profile_reply = ProfileUpdated | ProfileForm profile_view

definition edited_user :: "profile_form \<Rightarrow> user \<Rightarrow> user" where
  "edited_user form user =
     (let new_name = form_field (pf_name form);
          new_handle = form_field (pf_handle form);
          new_bio = form_field (pf_bio form);
          u1 = (if new_name \<noteq> [] then user\<lparr>u_name := new_name\<rparr> else user);
          u2 = (if new_handle \<noteq> [] then u1\<lparr>u_handle := with_at new_handle\<rparr> else u1)
      in u2\<lparr>u_bio := take 200 new_bio\<rparr>)"

definition edit_profile :: "user \<Rightarrow> http_method \<Rightarrow> profile_form \<Rightarrow> (profile_reply, acct) prog" where
  "edit_profile user verb form =
     (if verb = POST
      then bnd (on_db (update_user (edited_user form user))) (\<lambda>_.
           bnd (on_db do_commit) (\<lambda>_. ret ProfileUpdated))
      else ret (ProfileForm \<lparr>pv_name = current_user_name (Some user),
                               pv_handle = current_user_handle (Some user), pv_bio = u_bio user\<rparr>))"

definition reviews_by :: "nat \<Rightarrow> session \<Rightarrow> review list" where
  "reviews_by uid s =
     sort_key (\<lambda>r. - int (r_created r)) (filter (\<lambda>r. r_user_id r = uid) (reviews (live s)))"

definition profile_page :: "user \<Rightarrow> session \<Rightarrow> profile_view \<times> review list" where
  "profile_page user s =
     (\<lparr>pv_name = u_name user, pv_handle = u_handle user, pv_bio = u_bio user\<rparr>,
      take 6 (reviews_by (u_id user) s))"

definition my_reviews :: "user \<Rightarrow> session \<Rightarrow> review list" where
  "my_reviews user s = reviews_by (u_id user) s"

definition settings :: "user \<Rightarrow> string \<times> string" where
  "settings user = (u_name user, u_handle user)"

definition public_profile :: "user option \<Rightarrow> string \<Rightarrow> string \<times> string" where
  "public_profile who hdl =
     (current_user_name who, if \<not> startswith hdl ''@'' then ''@'' @ hdl else hdl)"

section \<open>Invariant\<close>

definition cookie_ok :: "session \<Rightarrow> cookie \<Rightarrow> bool" where
  "cookie_ok s c \<longleftrightarrow>
     prefs_ok c \<and> (case c_user_id c of None \<Rightarrow> True | Some i \<Rightarrow> i \<in> u_id ` set (users (durable s)))"

definition cookie_step :: "acct \<Rightarrow> acct \<Rightarrow> bool" where
  "cookie_step a a' \<longleftrightarrow>
     (\<exists>x. a_cookie a' = (a_cookie a)\<lparr>c_user_id := x\<rparr>
          \<and> (x = c_user_id (a_cookie a) \<or> x = None
               \<or> (\<exists>u \<in> set (users (durable (a_db a'))). x = Some (u_id u))))"

section \<open>Example inputs\<close>

definition toy_crypto :: crypto where
  "toy_crypto = \<lparr>gen_hash = (\<lambda>salt pw. ''plain$'' @ pw),
     check_hash = (\<lambda>h pw. h = ''plain$'' @ pw)\<rparr>"

definition ann_form :: signup_form where
  "ann_form = \<lparr>sf_email = Some '' Ann@Example.org '', sf_password = Some ''s3cret pw'',
     sf_name = Some '''', sf_handle = Some ''ann_reads''\<rparr>"

definition ann :: user where
  "ann = \<lparr>u_id = 1, u_email = ''ann@example.org'', u_password_hash = ''plain$s3cret pw'',
     u_name = ''New Reader'', u_handle = ''@ann_reads'', u_bio = []\<rparr>"

definition visitor :: acct where
  "visitor = \<lparr>a_db = new_session empty_tables, a_cookie = empty_cookie, a_mail = []\<rparr>"

definition member :: acct where
  "member = \<lparr>a_db = new_session (empty_tables\<lparr>users := [ann]\<rparr>),
     a_cookie = empty_cookie\<lparr>c_user_id := Some 1\<rparr>, a_mail = []\<rparr>"

section \<open>Lemmas: users\<close>

lemmas accounts_eval = signup_def login_def logout_def forgot_password_def reset_password_def
  change_password_def edit_profile_def new_user_def set_password_def check_password_def
  verify_reset_token_def on_db_def login_user_def raw_field_def with_at_def signup_handle_def
  edited_user_def current_user_def login_required_def toy_crypto_def

lemma hash_sound_toy: "hash_sound toy_crypto"
  by (auto simp: hash_sound_def toy_crypto_def)

lemma find_snoc:
  "find P (xs @ [x]) = (case find P xs of Some y \<Rightarrow> Some y | None \<Rightarrow> if P x then Some x else None)"
  by (induction xs) auto

lemma check_set_password:
  "hash_sound H \<Longrightarrow> check_password H (set_password H salt pw u) pw' \<longleftrightarrow> pw' = pw"
  by (simp add: hash_sound_def check_password_def set_password_def)

lemma set_password_fields [simp]:
  "u_id (set_password H salt pw u) = u_id u" "u_email (set_password H salt pw u) = u_email u"
  "u_name (set_password H salt pw u) = u_name u" "u_handle (set_password H salt pw u) = u_handle u"
  "u_bio (set_password H salt pw u) = u_bio u"
  by (simp_all add: set_password_def)

lemma edited_user_fields [simp]:
  "u_id (edited_user form u) = u_id u" "u_email (edited_user form u) = u_email u"
  "u_password_hash (edited_user form u) = u_password_hash u"
  "length (u_bio (edited_user form u)) \<le> 200"
  by (simp_all add: edited_user_def Let_def)

lemma find_user_by_email_Some:
  "find_user_by_email e s = Some u \<Longrightarrow> u \<in> set (users (live s)) \<and> u_email u = e"
  by (auto simp: find_user_by_email_def find_Some_iff)

lemma insert_user_fresh:
  assumes "find_user_by_email (u_email u) s = None"
  shows "insert_user u s =
     (Inr (u\<lparr>u_id := next_id (map u_id (users (live s)))\<rparr>),
      s\<lparr>live := (live s)\<lparr>users := users (live s)
            @ [u\<lparr>u_id := next_id (map u_id (users (live s)))\<rparr>]\<rparr>\<rparr>)"
  using assms by (simp add: insert_user_def Let_def)

lemma find_user_after_insert:
  assumes "find_user_by_email (u_email u) s = None"
  shows "find_user_by_email (u_email u) (snd (insert_user u s))
           = Some (u\<lparr>u_id := next_id (map u_id (users (live s)))\<rparr>)"
  using assms
  by (simp add: insert_user_fresh) (simp add: find_user_by_email_def find_snoc)

lemma find_replaced:
  assumes "distinct (map u_email us)" and "find (\<lambda>v. u_email v = e) us = Some u"
    and "u_email u' = e" and "u_id u' = u_id u"
  shows "find (\<lambda>v. u_email v = e) (map (\<lambda>v. if u_id v = u_id u' then u' else v) us) = Some u'"
  using assms
proof (induction us)
  case Nil
  then show ?case by simp
next
  case (Cons x us)
  show ?case
  proof (cases "u_email x = e")
    case True
    with Cons.prems show ?thesis by simp
  next
    case False
    with Cons.prems have "u_id x \<noteq> u_id u' \<or> u_email u' = e" by simp
    with False Cons show ?thesis by (auto split: if_splits)
  qed
qed

lemma update_user_same_email:
  assumes "tables_ok (live s)" and "find_user_by_email e s = Some u"
    and "u_email u' = e" and "u_id u' = u_id u"
  shows "update_user u' s =
     (Inr (), s\<lparr>live := (live s)\<lparr>users :=
                 map (\<lambda>v. if u_id v = u_id u' then u' else v) (users (live s))\<rparr>\<rparr>)"
    and "find_user_by_email e (snd (update_user u' s)) = Some u'"
proof -
  from assms(1) have d: "distinct (map u_email (users (live s)))" "distinct (map u_id (users (live s)))"
    by (simp_all add: tables_ok_def)
  from find_user_by_email_Some[OF assms(2)] have u: "u \<in> set (users (live s))" "u_email u = e"
    by simp_all
  have "\<not> list_ex (\<lambda>v. u_id v \<noteq> u_id u' \<and> u_email v = u_email u') (users (live s))"
  proof -
    have "v = u" if "v \<in> set (users (live s))" "u_email v = e" for v
      using d(1) that u by (auto simp: distinct_map inj_on_def)
    with assms(3,4) show ?thesis by (auto simp: list_ex_iff)
  qed
  then show upd: "update_user u' s =
     (Inr (), s\<lparr>live := (live s)\<lparr>users :=
                 map (\<lambda>v. if u_id v = u_id u' then u' else v) (users (live s))\<rparr>\<rparr>)"
    by (simp add: update_user_def)
  from find_replaced[OF d(1) assms(2)[unfolded find_user_by_email_def] assms(3,4)]
  show "find_user_by_email e (snd (update_user u' s)) = Some u'"
    by (simp add: upd find_user_by_email_def)
qed

section \<open>Lemmas: what the routes keep\<close>

lemma keeps_on_db [keeps_intros]: "keeps P p \<Longrightarrow> keeps (\<lambda>a. P (a_db a)) (on_db p)"
  by (auto simp: keeps_def on_db_def split: prod.splits)

lemma keeps_login_user [keeps_intros]: "keeps (\<lambda>a. P (a_db a)) (login_user u)"
  by (simp add: keeps_def login_user_def)

lemma keeps_logout [keeps_intros]: "keeps (\<lambda>a. P (a_db a)) logout"
  by (simp add: keeps_def logout_def)

lemma keeps_signup [keeps_intros]:
  "db_closed P \<Longrightarrow> keeps (\<lambda>a. P (a_db a)) (signup H salt verb form)"
  unfolding signup_def Let_def by (auto intro!: keeps_intros split: option.splits)

lemma keeps_login [keeps_intros]: "keeps (\<lambda>a. P (a_db a)) (login H verb e p)"
  unfolding login_def Let_def by (auto intro!: keeps_intros split: option.splits)

lemma keeps_forgot_password [keeps_intros]: "keeps (\<lambda>a. P (a_db a)) (forgot_password now verb e)"
  by (rule keepsI) (auto simp: forgot_password_def Let_def split: if_splits option.splits)

lemma keeps_reset_password [keeps_intros]:
  assumes "db_closed P"
  shows "keeps (\<lambda>a. P (a_db a)) (reset_password H salt now token verb n c)"
proof (rule keepsI)
  fix a r a'
  assume P: "P (a_db a)" and run: "reset_password H salt now token verb n c a = (r, a')"
  have k: "keeps (\<lambda>a. P (a_db a)) (bnd (on_db (update_user u)) (\<lambda>_.
             bnd (on_db do_commit) (\<lambda>_. ret PasswordUpdated)))" for u
    by (intro keeps_intros assms)
  from run P keepsD[OF k P] show "P (a_db a')"
    unfolding reset_password_def Let_def
    by (auto split: option.splits if_splits)
qed

lemma keeps_change_password [keeps_intros]:
  "db_closed P \<Longrightarrow> keeps (\<lambda>a. P (a_db a)) (change_password H salt u verb cur n c)"
  unfolding change_password_def Let_def by (auto intro!: keeps_intros)

lemma keeps_edit_profile [keeps_intros]:
  "db_closed P \<Longrightarrow> keeps (\<lambda>a. P (a_db a)) (edit_profile u verb form)"
  unfolding edit_profile_def by (auto intro!: keeps_intros)

lemma keeps_login_required [keeps_intros]:
  "(\<And>u. keeps I (p u)) \<Longrightarrow> keeps I (login_required who p)"
  unfolding login_required_def by (auto intro!: keeps_intros split: option.splits)

section \<open>Lemmas: the routes\<close>

lemma signup_welcome:
  assumes "signup H salt verb form a = (Inr Welcome, a1)"
  shows "verb = POST" and "lower (form_field (sf_email form)) \<noteq> []"
    and "raw_field (sf_password form) \<noteq> []"
    and "find_user_by_email (lower (form_field (sf_email form))) (a_db a) = None"
    and "a1 = a\<lparr>a_db := commit (snd (insert_user (new_user H salt form) (a_db a))),
                 a_cookie := (a_cookie a)\<lparr>c_user_id :=
                    Some (next_id (map u_id (users (live (a_db a)))))\<rparr>\<rparr>"
proof -
  from assms show v: "verb = POST" by (auto simp: signup_def ret_def split: if_splits)
  from assms v show ne: "lower (form_field (sf_email form)) \<noteq> []"
    "raw_field (sf_password form) \<noteq> []"
    by (auto simp: signup_def Let_def ret_def split: if_splits)
  from assms v ne show none: "find_user_by_email (lower (form_field (sf_email form))) (a_db a) = None"
    by (auto simp: signup_def Let_def ret_def split: option.splits)
  then have "find_user_by_email (u_email (new_user H salt form)) (a_db a) = None"
    by (simp add: new_user_def)
  from insert_user_fresh[OF this] assms v ne none
  show "a1 = a\<lparr>a_db := commit (snd (insert_user (new_user H salt form) (a_db a))),
                 a_cookie := (a_cookie a)\<lparr>c_user_id :=
                    Some (next_id (map u_id (users (live (a_db a)))))\<rparr>\<rparr>"
    by (simp add: signup_def Let_def bnd_def ret_def gets_def on_db_def do_commit_def login_user_def)
qed

lemma login_eq:
  "login H POST e p a =
     (case find_user_by_email (lower (form_field e)) (a_db a) of
        None \<Rightarrow> (Inr LoginInvalid, a)
      | Some u \<Rightarrow>
          if check_password H u (raw_field p)
          then (Inr LoggedIn, a\<lparr>a_cookie := (a_cookie a)\<lparr>c_user_id := Some (u_id u)\<rparr>\<rparr>)
          else (Inr LoginInvalid, a))"
  by (simp add: login_def Let_def bnd_def ret_def gets_def login_user_def split: option.splits)

lemma reset_password_updated:
  assumes "reset_password H salt now token verb n c a = (Inr PasswordUpdated, a')"
  obtains u where "token \<in> set (a_mail a)" "int now - int (snd token) \<le> 3600"
    "snd token \<le> now" "verb = POST"
    "find_user_by_email (fst token) (a_db a) = Some u" "6 \<le> length (form_field n)"
    "form_field c = form_field n"
    "a' = a\<lparr>a_db := commit (snd (update_user (set_password H salt (form_field n) u) (a_db a)))\<rparr>"
    "fst (update_user (set_password H salt (form_field n) u) (a_db a)) = Inr ()"
proof -
  from assms have tok: "token \<in> set (a_mail a)" "int now - int (snd token) \<le> 3600"
    "snd token \<le> now"
    by (auto simp: reset_password_def verify_reset_token_def Let_def
        split: if_splits option.splits)
  then have v: "verify_reset_token (a_mail a) now token (60 * 60) = Some (fst token)"
    by (simp add: verify_reset_token_def)
  from assms v obtain u where u: "find_user_by_email (fst token) (a_db a) = Some u"
    by (auto simp: reset_password_def split: if_splits option.splits)
  from assms v u have post: "verb = POST" and len: "6 \<le> length (form_field n)"
    and same: "form_field c = form_field n"
    by (auto simp: reset_password_def Let_def split: if_splits)
  obtain r0 s0 where upd: "update_user (set_password H salt (form_field n) u) (a_db a) = (r0, s0)"
    by fastforce
  from assms v u post len same upd have "r0 = Inr ()" "a' = a\<lparr>a_db := commit s0\<rparr>"
    by (auto simp: reset_password_def Let_def bnd_def ret_def on_db_def do_commit_def
        split: if_splits sum.splits)
  with tok post u len same upd show thesis by (intro that[of u]) simp_all
qed

section \<open>Lemmas: what the routes do to the cookie\<close>

lemma cookie_step_same: "a_cookie a' = a_cookie a \<Longrightarrow> cookie_step a a'"
  by (auto simp: cookie_step_def intro: exI[of _ "c_user_id (a_cookie a)"])

lemma cookie_step_user:
  "a_cookie a' = (a_cookie a)\<lparr>c_user_id := Some (u_id u)\<rparr> \<Longrightarrow>
     u \<in> set (users (durable (a_db a'))) \<Longrightarrow> cookie_step a a'"
  unfolding cookie_step_def by (intro exI[of _ "Some (u_id u)"]) auto

lemma signup_other:
  assumes "signup H salt verb form a = (r, a')" and "r \<noteq> Inr Welcome"
  shows "a' = a"
proof (cases "verb = POST \<and> lower (form_field (sf_email form)) \<noteq> []
    \<and> raw_field (sf_password form) \<noteq> []
    \<and> find_user_by_email (lower (form_field (sf_email form))) (a_db a) = None")
  case True
  then have "find_user_by_email (u_email (new_user H salt form)) (a_db a) = None"
    by (simp add: new_user_def)
  from insert_user_fresh[OF this] True assms show ?thesis
    by (simp add: signup_def Let_def bnd_def ret_def gets_def on_db_def do_commit_def
        login_user_def)
next
  case False
  with assms(1) show ?thesis
    by (auto simp: signup_def Let_def ret_def split: if_splits option.splits)
qed

lemma signup_step:
  assumes "signup H salt verb form a = (r, a')"
  shows "cookie_step a a'"
proof (cases "r = Inr Welcome")
  case True
  note w = signup_welcome[OF assms[unfolded True]]
  from w(4) have "find_user_by_email (u_email (new_user H salt form)) (a_db a) = None"
    by (simp add: new_user_def)
  from insert_user_fresh[OF this] w(5) show ?thesis
    by (intro cookie_step_user[where
          u = "(new_user H salt form)\<lparr>u_id := next_id (map u_id (users (live (a_db a))))\<rparr>"])
       simp_all
next
  case False
  from signup_other[OF assms False] show ?thesis by (simp add: cookie_step_same)
qed

lemma login_GET: "verb \<noteq> POST \<Longrightarrow> login H verb e p a = (Inr LoginForm, a)"
  by (simp add: login_def ret_def)

lemma login_step:
  assumes "login H verb e p a = (r, a')" and "live (a_db a) = durable (a_db a)"
  shows "cookie_step a a'"
proof (cases "verb = POST")
  case True
  show ?thesis
  proof (cases "find_user_by_email (lower (form_field e)) (a_db a)")
    case None
    with assms(1) True show ?thesis by (simp add: login_eq cookie_step_same)
  next
    case (Some u)
    from find_user_by_email_Some[OF Some] assms(2)
    have "u \<in> set (users (durable (a_db a)))" by simp
    with assms(1) True Some show ?thesis
      by (auto simp: login_eq cookie_step_same split: if_splits intro: cookie_step_user[where u = u])
  qed
next
  case False
  with assms(1) show ?thesis by (simp add: login_GET cookie_step_same)
qed

lemma logout_step: "logout a = (r, a') \<Longrightarrow> cookie_step a a'"
  by (auto simp: logout_def cookie_step_def)

lemma forgot_password_step: "forgot_password now verb e a = (r, a') \<Longrightarrow> cookie_step a a'"
  by (rule cookie_step_same)
     (auto simp: forgot_password_def Let_def split: if_splits option.splits)

lemma on_db_cookie: "on_db p a = (r, a') \<Longrightarrow> a_cookie a' = a_cookie a"
  by (auto simp: on_db_def split: prod.splits)

lemma save_cookie:
  assumes "bnd (on_db p) (\<lambda>_. bnd (on_db q) (\<lambda>_. ret x)) a = (r, a')"
  shows "a_cookie a' = a_cookie a"
  using assms
  by (auto simp: bnd_def ret_def split: prod.splits sum.splits dest!: on_db_cookie)

lemma reset_password_step:
  "reset_password H salt now token verb n c a = (r, a') \<Longrightarrow> cookie_step a a'"
  by (rule cookie_step_same)
     (auto simp: reset_password_def Let_def split: if_splits option.splits dest: save_cookie)

lemma change_password_step:
  "change_password H salt u verb cur n c a = (r, a') \<Longrightarrow> cookie_step a a'"
  by (rule cookie_step_same)
     (auto simp: change_password_def Let_def ret_def split: if_splits dest: save_cookie)

lemma edit_profile_step: "edit_profile u verb form a = (r, a') \<Longrightarrow> cookie_step a a'"
  by (rule cookie_step_same)
     (auto simp: edit_profile_def ret_def split: if_splits dest: save_cookie)

section \<open>Properties\<close>

text \<open>
  C13 (roundtrip). Who has signed up can sign in: after \<open>signup\<close> has
  answered with the welcome redirect there is a committed user under the
  stripped, lower-cased email, the visitor's cookie names that user, and from
  any cookie a \<open>login\<close> with the same email and password signs that user in,
  while every other password is refused. The hash is assumed sound.
\<close>

theorem signup_then_login:
  assumes "hash_sound H" and "signup H salt verb form a = (Inr Welcome, a1)"
  shows "\<exists>u. u \<in> set (users (durable (a_db a1)))
           \<and> u_email u = lower (form_field (sf_email form))
           \<and> c_user_id (a_cookie a1) = Some (u_id u)
           \<and> login H POST (sf_email form) (sf_password form) (a1\<lparr>a_cookie := c\<rparr>)
               = (Inr LoggedIn, a1\<lparr>a_cookie := c\<lparr>c_user_id := Some (u_id u)\<rparr>\<rparr>)
           \<and> (\<forall>pw. pw \<noteq> raw_field (sf_password form) \<longrightarrow>
                 login H POST (sf_email form) (Some pw) (a1\<lparr>a_cookie := c\<rparr>)
                   = (Inr LoginInvalid, a1\<lparr>a_cookie := c\<rparr>))"
proof -
  let ?e = "lower (form_field (sf_email form))"
  let ?u = "(new_user H salt form)\<lparr>u_id := next_id (map u_id (users (live (a_db a))))\<rparr>"
  note w = signup_welcome[OF assms(2)]
  from w(4) have none: "find_user_by_email (u_email (new_user H salt form)) (a_db a) = None"
    by (simp add: new_user_def)
  from find_user_after_insert[OF none]
  have found: "find_user_by_email ?e (a_db a1) = Some ?u"
    unfolding w(5) by (simp add: new_user_def find_user_by_email_def)
  have chk: "check_password H ?u pw \<longleftrightarrow> pw = raw_field (sf_password form)" for pw
    using assms(1) by (auto simp: new_user_def check_password_def set_password_def hash_sound_def)
  have "?u \<in> set (users (durable (a_db a1)))"
    unfolding w(5) by (simp add: insert_user_fresh[OF none])
  moreover have "u_email ?u = ?e" by (simp add: new_user_def)
  moreover have "c_user_id (a_cookie a1) = Some (u_id ?u)" unfolding w(5) by simp
  moreover have "login H POST (sf_email form) (sf_password form) (a1\<lparr>a_cookie := c\<rparr>)
      = (Inr LoggedIn, a1\<lparr>a_cookie := c\<lparr>c_user_id := Some (u_id ?u)\<rparr>\<rparr>)"
    using found chk[of "raw_field (sf_password form)"] by (simp add: login_eq raw_field_def)
  moreover have "login H POST (sf_email form) (Some pw) (a1\<lparr>a_cookie := c\<rparr>)
      = (Inr LoginInvalid, a1\<lparr>a_cookie := c\<rparr>)" if "pw \<noteq> raw_field (sf_password form)" for pw
    using found chk[of pw] that by (simp add: login_eq raw_field_def)
  ultimately show ?thesis by blast
qed

theorem signup_then_login_witness:
  "signup toy_crypto 42 POST ann_form visitor = (Inr Welcome, member)
   \<and> login toy_crypto POST (Some '' Ann@Example.org '') (Some ''s3cret pw'')
        (member\<lparr>a_cookie := empty_cookie\<rparr>) = (Inr LoggedIn, member)"
proof -
  have s: "signup toy_crypto 42 POST ann_form visitor = (Inr Welcome, member)"
    by (simp add: accounts_eval store_eval catalog_eval visitor_def member_def ann_form_def
        ann_def bnd_def ret_def gets_def form_field_def or_default_def empty_cookie_def
        pystr_eval)
  from signup_then_login[OF hash_sound_toy s, of empty_cookie] s show ?thesis
    by (auto simp: ann_form_def member_def ann_def empty_cookie_def)
qed

text \<open>
  C14 (safety). Nobody is signed in without the password: when \<open>login\<close>
  answers with the redirect to the home page, the first user with the given
  email (stripped, in lower case) exists, the stored hash checks against the
  password as typed, and the only change is that the cookie names that user.
\<close>

theorem login_needs_the_password:
  assumes "login H verb e p a = (Inr LoggedIn, a')"
  shows "\<exists>u. find_user_by_email (lower (form_field e)) (a_db a) = Some u
           \<and> check_password H u (raw_field p)
           \<and> a' = a\<lparr>a_cookie := (a_cookie a)\<lparr>c_user_id := Some (u_id u)\<rparr>\<rparr>"
proof -
  from assms have "verb = POST" by (cases "verb = POST") (simp_all add: login_GET)
  with assms show ?thesis by (auto simp: login_eq split: option.splits if_splits)
qed

theorem login_needs_the_password_witness:
  "login toy_crypto POST (Some ''ANN@example.org'') (Some ''s3cret pw'')
      (member\<lparr>a_cookie := empty_cookie\<rparr>) = (Inr LoggedIn, member)
   \<and> check_password toy_crypto ann ''s3cret pw''"
proof -
  have l: "login toy_crypto POST (Some ''ANN@example.org'') (Some ''s3cret pw'')
      (member\<lparr>a_cookie := empty_cookie\<rparr>) = (Inr LoggedIn, member)"
    by (simp add: accounts_eval store_eval member_def ann_def empty_tables_def
        new_session_def form_field_def empty_cookie_def pystr_eval bnd_def ret_def gets_def
        login_user_def)
  from login_needs_the_password[OF l] l show ?thesis
    by (auto simp: accounts_eval store_eval member_def ann_def empty_tables_def
        new_session_def form_field_def pystr_eval)
qed

text \<open>
  C15 (safety). A password is reset only with a token that the server has
  signed for that user's email less than an hour ago (the hour included):
  when \<open>reset_password\<close> answers that the password is updated, the token is
  one of the signed ones, it is at most 3600 seconds old and not from the
  future, the request was a
  POST with a new password of at least six characters that equals its
  confirmation, and the user with the token's email has the new hash; no
  other user, no cookie and no token has changed.
\<close>

theorem reset_needs_a_signed_token:
  assumes "tables_ok (live (a_db a))"
    and "reset_password H salt now token verb n c a = (Inr PasswordUpdated, a')"
  shows "token \<in> set (a_mail a) \<and> int now - int (snd token) \<le> 3600 \<and> snd token \<le> now
       \<and> verb = POST \<and> 6 \<le> length (form_field n) \<and> form_field c = form_field n
       \<and> (\<exists>u \<in> set (users (live (a_db a))). u_email u = fst token
             \<and> users (durable (a_db a'))
                 = map (\<lambda>v. if u_id v = u_id u then set_password H salt (form_field n) u else v)
                     (users (live (a_db a))))
       \<and> a_cookie a' = a_cookie a \<and> a_mail a' = a_mail a"
  using assms(2)
proof (rule reset_password_updated)
  fix u
  assume tok: "token \<in> set (a_mail a)" "int now - int (snd token) \<le> 3600"
      "snd token \<le> now" "verb = POST"
    and u: "find_user_by_email (fst token) (a_db a) = Some u"
    and pw: "6 \<le> length (form_field n)" "form_field c = form_field n"
    and a': "a' = a\<lparr>a_db := commit (snd (update_user (set_password H salt (form_field n) u) (a_db a)))\<rparr>"
  from find_user_by_email_Some[OF u] have in_users: "u \<in> set (users (live (a_db a)))"
    "u_email u = fst token" by simp_all
  from update_user_same_email(1)[OF assms(1) u, of "set_password H salt (form_field n) u"] in_users
  have "users (durable (a_db a'))
      = map (\<lambda>v. if u_id v = u_id u then set_password H salt (form_field n) u else v)
          (users (live (a_db a)))"
    unfolding a' by simp
  with tok pw in_users a' show ?thesis by auto
qed

theorem reset_needs_a_signed_token_witness:
  "fst (reset_password toy_crypto 7 4000 (''ann@example.org'', 400) POST (Some '' longer pw '')
          (Some ''longer pw'') (member\<lparr>a_mail := [(''ann@example.org'', 400)]\<rparr>))
     = Inr PasswordUpdated
   \<and> fst (reset_password toy_crypto 7 4001 (''ann@example.org'', 400) POST (Some '' longer pw '')
          (Some ''longer pw'') (member\<lparr>a_mail := [(''ann@example.org'', 400)]\<rparr>))
     = Inr InvalidLink
   \<and> fst (reset_password toy_crypto 7 399 (''ann@example.org'', 400) POST (Some '' longer pw '')
          (Some ''longer pw'') (member\<lparr>a_mail := [(''ann@example.org'', 400)]\<rparr>))
     = Inr InvalidLink"
proof -
  have ok: "tables_ok (live (a_db (member\<lparr>a_mail := [(''ann@example.org'', 400)]\<rparr>)))"
    by (simp add: member_def tables_ok_def empty_tables_def)
  obtain a' where r: "reset_password toy_crypto 7 4000 (''ann@example.org'', 400) POST
      (Some '' longer pw '') (Some ''longer pw'') (member\<lparr>a_mail := [(''ann@example.org'', 400)]\<rparr>)
      = (Inr PasswordUpdated, a')"
    by (simp add: accounts_eval store_eval member_def ann_def empty_tables_def new_session_def
        form_field_def bnd_def ret_def pystr_eval)
  have "fst (reset_password toy_crypto 7 4001 (''ann@example.org'', 400) POST (Some '' longer pw '')
          (Some ''longer pw'') (member\<lparr>a_mail := [(''ann@example.org'', 400)]\<rparr>))
     = Inr InvalidLink"
    by (simp add: reset_password_def verify_reset_token_def)
  moreover have "fst (reset_password toy_crypto 7 399 (''ann@example.org'', 400) POST
          (Some '' longer pw '') (Some ''longer pw'')
          (member\<lparr>a_mail := [(''ann@example.org'', 400)]\<rparr>))
     = Inr InvalidLink"
    by (simp add: reset_password_def verify_reset_token_def)
  ultimately show ?thesis using reset_needs_a_signed_token[OF ok r] r by simp
qed

text \<open>
  \<open>reset_password\<close> strips the new password and \<open>login\<close> does not strip what
  is typed: after a reset to a password written with white space around it,
  that password as typed is refused and the stripped one is accepted.
\<close>

theorem reset_strips_the_password:
  assumes "hash_sound H" and "tables_ok (live (a_db a))"
    and "reset_password H salt now token verb (Some pw) (Some pw) a = (Inr PasswordUpdated, a')"
    and "lower (form_field e) = fst token"
  shows "fst (login H POST e (Some pw) a') = (if strip pw = pw then Inr LoggedIn else Inr LoginInvalid)"
    and "fst (login H POST e (Some (strip pw)) a') = Inr LoggedIn"
proof -
  from assms(3) obtain u where u: "find_user_by_email (fst token) (a_db a) = Some u"
    and a': "a' = a\<lparr>a_db := commit (snd (update_user (set_password H salt (form_field (Some pw)) u) (a_db a)))\<rparr>"
    by (rule reset_password_updated)
  from find_user_by_email_Some[OF u] have e: "u_email u = fst token" by simp
  from update_user_same_email(2)[OF assms(2) u, of "set_password H salt (form_field (Some pw)) u"] e
  have found: "find_user_by_email (fst token) (a_db a')
      = Some (set_password H salt (strip pw) u)"
    unfolding a' by (simp add: find_user_by_email_def form_field_def)
  with assms(1,4) show "fst (login H POST e (Some pw) a')
      = (if strip pw = pw then Inr LoggedIn else Inr LoginInvalid)"
    by (auto simp: login_eq check_set_password raw_field_def)
  from found assms(1,4) show "fst (login H POST e (Some (strip pw)) a') = Inr LoggedIn"
    by (simp add: login_eq check_set_password raw_field_def)
qed

end
