(* ===== verification/App.thy ===== *)
theory App
  imports Reviews Search Shelves Social Accounts
begin

text \<open>
  The application as a transition system (\<open>src/main.py\<close>: the module's
  start-up and the routes registered with \<open>@app.route\<close>).

  \<^item> A \<open>site\<close> is what the server and its visitors hold between two
    requests: the \<open>app_state\<close> of the catalogue (database session, network,
    demo cache), the in-memory lists \<open>FOLLOWING\<close> and \<open>FOLLOWERS\<close>, the
    signed session cookie of every browser (\<open>jar\<close>, by a number that names
    the browser), and the reset links that were signed.
  \<^item> \<open>on_core\<close>, \<open>on_store\<close>, \<open>on_people\<close>, \<open>on_cookie\<close> and \<open>on_acct\<close> run a
    handler of a component on its part of the site; \<open>gated\<close> is the
    decorator \<open>@login_required\<close> applied to the user that Flask-Login loads
    for the browser's cookie.
  \<^item> \<open>request\<close> names the routes with their arguments; \<open>handle H v rq\<close>
    runs the handler of \<open>rq\<close> for browser \<open>v\<close> and then leaves the request
    context, which rolls back whatever the handler left pending. Its result
    is the exception that escaped, if any. \<open>needs_login\<close> lists the
    decorated routes.
  \<^item> \<open>boot\<close> is the import of the module: the seeding pass on the tables
    found on disk, the lists at their initial value and an empty cache;
    cookies and reset links survive a restart, since they are signed with
    the configured key. \<open>reachable e\<close> are the states the application can be
    in when it was started in the environment \<open>e\<close> and the start-up
    returned.

  The invariants are proved by rule induction over \<open>reachable\<close>: properties
  of the database from the \<open>keeps\<close> facts of the components and the closure
  under the operations of \<open>Store\<close>, the invariant \<open>site_ok\<close> of the whole
  site from \<open>serves\<close>, the Hoare triple of a handler followed by the
  teardown.
\<close>

section \<open>The site\<close>

record site =
  core :: app_state
  people :: social
  jar :: "nat \<Rightarrow> cookie"
  mail :: "reset_token list"

definition on_core :: "('a, app_state) prog \<Rightarrow> ('a, site) prog" where
  "on_core p st = (case p (core st) of (r, c') \<Rightarrow> (r, st\<lparr>core := c'\<rparr>))"

definition on_store :: "('a, session) prog \<Rightarrow> ('a, site) prog" where
  "on_store p = on_core (lift_db p)"

definition on_people :: "('a, social) prog \<Rightarrow> ('a, site) prog" where
  "on_people p st = (case p (people st) of (r, soc') \<Rightarrow> (r, st\<lparr>people := soc'\<rparr>))"

definition on_cookie :: "nat \<Rightarrow> ('a, cookie) prog \<Rightarrow> ('a, site) prog" where
  "on_cookie v p st = (case p (jar st v) of (r, c') \<Rightarrow> (r, st\<lparr>jar := (jar st)(v := c')\<rparr>))"

definition acct_of :: "nat \<Rightarrow> site \<Rightarrow> acct" where
  "acct_of v st = \<lparr>a_db = db (core st), a_cookie = jar st v, a_mail = mail st\<rparr>"

definition put_acct :: "nat \<Rightarrow> acct \<Rightarrow> site \<Rightarrow> site" where
  "put_acct v a st =
     st\<lparr>core := (core st)\<lparr>db := a_db a\<rparr>, jar := (jar st)(v := a_cookie a), mail := a_mail a\<rparr>"

definition on_acct :: "nat \<Rightarrow> ('a, acct) prog \<Rightarrow> ('a, site) prog" where
  "on_acct v p st = (case p (acct_of v st) of (r, a') \<Rightarrow> (r, put_acct v a' st))"

definition who :: "nat \<Rightarrow> site \<Rightarrow> user option" where
  "who v st = current_user (jar st v) (db (core st))"

definition gated :: "nat \<Rightarrow> (user \<Rightarrow> ('a, site) prog) \<Rightarrow> ('a gated, site) prog" where
  "gated v p st = login_required (who v st) p st"

section \<open>Requests\<close>

datatype request =
    Home
  | Browse "string option" "string option"
  | TopRated "string option"
  | GenrePage string
  | ApiSearch "string option"
  | ApiOpenLibrary "string option"
  | AddBook http_method book_form
  | BookDetails nat string
  | BookReviews string
  | AddReview nat http_method review_form
  | Favourites "string option"
  | FavouritesToggle nat "json option"
  | FavouritesList
  | History "string option"
  | HistoryAdd nat "json option"
  | Following "string option"
  | Followers "string option"
  | FollowingToggle "json option"
  | FollowersRemove "json option"
  | ProfilePage
  | MyReviews
  | EditProfile http_method profile_form
  | PublicProfile string
  | Settings
  | ChangePassword nat http_method "string option" "string option" "string option"
  | Privacy http_method "string option" "string option"
  | Notifications http_method "string option"
  | Theme http_method "string option"
  | Language http_method "string option"
  | Signup nat http_method signup_form
  | Login http_method "string option" "string option"
  | Logout
  | ForgotPassword nat http_method "string option"
  | ResetPassword nat nat reset_token http_method "string option" "string option"

definition genre_page :: "string \<Rightarrow> request" where
  "genre_page name = Browse (Some name) None"

definition lift_sw :: "('a, session \<times> world) prog \<Rightarrow> ('a, app_state) prog" where
  "lift_sw p st = (case p (db st, net st) of (r, (s', w')) \<Rightarrow> (r, st\<lparr>db := s', net := w'\<rparr>))"

definition teardown :: "site \<Rightarrow> site" where
  "teardown st = st\<lparr>core := (core st)\<lparr>db := rollback (db (core st))\<rparr>\<rparr>"

definition outcome :: "('a, site) prog \<Rightarrow> site \<Rightarrow> py_error option \<times> site" where
  "outcome p st =
     (case p st of
        (Inl e, st') \<Rightarrow> (Some e, teardown st')
      | (Inr _, st') \<Rightarrow> (None, teardown st'))"

fun needs_login :: "request \<Rightarrow> bool" where
  "needs_login (AddReview now verb form) = True"
| "needs_login (Favourites q) = True"
| "needs_login (FavouritesToggle now body) = True"
| "needs_login FavouritesList = True"
| "needs_login (History q) = True"
| "needs_login (HistoryAdd now body) = True"
| "needs_login ProfilePage = True"
| "needs_login MyReviews = True"
| "needs_login (EditProfile verb form) = True"
| "needs_login Settings = True"
| "needs_login (ChangePassword salt verb cur new confirm) = True"
| "needs_login _ = False"

fun handle :: "crypto \<Rightarrow> nat \<Rightarrow> request \<Rightarrow> site \<Rightarrow> py_error option \<times> site" where
  "handle H v Home = outcome (on_core home)"
| "handle H v (Browse genre q) = outcome (on_core (browse genre q))"
| "handle H v (TopRated q) = outcome (on_core (top_rated q))"
| "handle H v (GenrePage name) = outcome (ret (genre_page name))"
| "handle H v (ApiSearch q) = outcome (on_core (api_search_books q))"
| "handle H v (ApiOpenLibrary q) = outcome (on_core (lift_net (api_openlibrary q)))"
| "handle H v (AddBook verb form) = outcome (on_core (lift_sw (add_book verb form)))"
| "handle H v (BookDetails now name) = outcome (on_core (book_details now name))"
| "handle H v (BookReviews name) = outcome (on_core (book_reviews name))"
| "handle H v (AddReview now verb form) =
     outcome (gated v (\<lambda>u. on_core (add_review (u_id u) now verb form)))"
| "handle H v (Favourites q) =
     outcome (gated v (\<lambda>u. gets (\<lambda>st. favourites_page (u_id u) q (db (core st)))))"
| "handle H v (FavouritesToggle now body) =
     outcome (gated v (\<lambda>u. on_store (api_favourites_toggle (u_id u) now body)))"
| "handle H v FavouritesList =
     outcome (gated v (\<lambda>u. gets (\<lambda>st. api_favourites_list (u_id u) (db (core st)))))"
| "handle H v (History q) =
     outcome (gated v (\<lambda>u. gets (\<lambda>st. history_page (u_id u) q (db (core st)))))"
| "handle H v (HistoryAdd now body) =
     outcome (gated v (\<lambda>u. on_store (api_history_add (u_id u) now body)))"
| "handle H v (Following q) = outcome (gets (\<lambda>st. following_page q (people st)))"
| "handle H v (Followers q) = outcome (gets (\<lambda>st. followers_page q (people st)))"
| "handle H v (FollowingToggle body) = outcome (on_people (api_following_toggle body))"
| "handle H v (FollowersRemove body) = outcome (on_people (api_followers_remove body))"
| "handle H v ProfilePage =
     outcome (gated v (\<lambda>u. gets (\<lambda>st. profile_page u (db (core st)))))"
| "handle H v MyReviews =
     outcome (gated v (\<lambda>u. gets (\<lambda>st. my_reviews u (db (core st)))))"
| "handle H v (EditProfile verb form) =
     outcome (gated v (\<lambda>u. on_acct v (edit_profile u verb form)))"
| "handle H v (PublicProfile hdl) = outcome (gets (\<lambda>st. public_profile (who v st) hdl))"
| "handle H v Settings = outcome (gated v (\<lambda>u. ret (settings u)))"
| "handle H v (ChangePassword salt verb cur new confirm) =
     outcome (gated v (\<lambda>u. on_acct v (change_password H salt u verb cur new confirm)))"
| "handle H v (Privacy verb a b) = outcome (on_cookie v (privacy_settings verb a b))"
| "handle H v (Notifications verb a) = outcome (on_cookie v (notifications_settings verb a))"
| "handle H v (Theme verb a) = outcome (on_cookie v (theme_settings verb a))"
| "handle H v (Language verb a) = outcome (on_cookie v (language_settings verb a))"
| "handle H v (Signup salt verb form) = outcome (on_acct v (signup H salt verb form))"
| "handle H v (Login verb e p) = outcome (on_acct v (login H verb e p))"
| "handle H v Logout = outcome (on_acct v logout)"
| "handle H v (ForgotPassword now verb e) = outcome (on_acct v (forgot_password now verb e))"
| "handle H v (ResetPassword salt now token verb new confirm) =
     outcome (on_acct v (reset_password H salt now token verb new confirm))"

section \<open>Start-up and the reachable states\<close>

record env =
  e_tables :: tables
  e_net :: world
  e_jar :: "nat \<Rightarrow> cookie"
  e_mail :: "reset_token list"

definition boot :: "env \<Rightarrow> py_error option \<times> site" where
  "boot e =
     (case startup_seed (new_session (e_tables e), e_net e) of
        (r, (s, w')) \<Rightarrow>
          (case r of Inl x \<Rightarrow> Some x | Inr _ \<Rightarrow> None,
           \<lparr>core = \<lparr>db = s, net = w', demo_cache = Map.empty\<rparr>, people = social0,
            jar = e_jar e, mail = e_mail e\<rparr>))"

inductive reachable :: "crypto \<Rightarrow> env \<Rightarrow> site \<Rightarrow> bool" for H e where
  start: "boot e = (None, st) \<Longrightarrow> reachable H e st"
| step: "reachable H e st \<Longrightarrow> handle H v rq st = (r, st') \<Longrightarrow> reachable H e st'"

text \<open>The state after a list of requests, each with its browser, handled in order.\<close>

fun run_requests :: "crypto \<Rightarrow> (nat \<times> request) list \<Rightarrow> site \<Rightarrow> site" where
  "run_requests H [] st = st"
| "run_requests H ((v, rq) # rqs) st = run_requests H rqs (snd (handle H v rq st))"

section \<open>Invariant\<close>

definition logged_in :: "site \<Rightarrow> nat set" where
  "logged_in st = {i. \<exists>v. c_user_id (jar st v) = Some i}"

definition site_ok :: "site \<Rightarrow> bool" where
  "site_ok st \<longleftrightarrow>
     sess_ok (db (core st)) \<and> social_ok (people st) \<and> (\<forall>v. cookie_ok (db (core st)) (jar st v))"

definition env_ok :: "env \<Rightarrow> bool" where
  "env_ok e \<longleftrightarrow> tables_ok (e_tables e) \<and> (\<forall>v. cookie_ok (new_session (e_tables e)) (e_jar e v))"

definition serves :: "('a, site) prog \<Rightarrow> bool" where
  "serves p \<longleftrightarrow> (\<forall>st r st'. site_ok st \<longrightarrow> p st = (r, st') \<longrightarrow> site_ok (teardown st'))"

section \<open>Example inputs\<close>

text \<open>
  The application started on empty tables without a network, the same
  after a visitor has added a book through the form, and a start on a table
  with one demo book.
\<close>

definition offline_env :: env where
  "offline_env = \<lparr>e_tables = empty_tables, e_net = down_world, e_jar = (\<lambda>v. empty_cookie),
     e_mail = []\<rparr>"

definition offline_app :: site where
  "offline_app = snd (boot offline_env)"

definition offline_added :: site where
  "offline_added = run_requests toy_crypto [(0, AddBook POST orwell_form), (1, Home)] offline_app"

definition stocked_env :: env where
  "stocked_env = offline_env\<lparr>e_tables := empty_tables\<lparr>books := [demo_book]\<rparr>\<rparr>"

definition stocked_app :: site where
  "stocked_app = run_requests toy_crypto
     [(0, BookDetails 1000 ''Dune''), (0, AddBook POST orwell_form)] (snd (boot stocked_env))"

section \<open>Lemmas: the lifts\<close>

named_theorems serves_intros "handlers that keep the invariant of the site"

lemma on_core_run:
  assumes "on_core p st = (r, st')"
  obtains c' where "p (core st) = (r, c')" "st' = st\<lparr>core := c'\<rparr>"
  using assms by (auto simp: on_core_def split: prod.splits)

lemma on_people_run:
  assumes "on_people p st = (r, st')"
  obtains soc' where "p (people st) = (r, soc')" "st' = st\<lparr>people := soc'\<rparr>"
  using assms by (auto simp: on_people_def split: prod.splits)

lemma on_cookie_run:
  assumes "on_cookie v p st = (r, st')"
  obtains c' where "p (jar st v) = (r, c')" "st' = st\<lparr>jar := (jar st)(v := c')\<rparr>"
  using assms by (auto simp: on_cookie_def split: prod.splits)

lemma on_acct_run:
  assumes "on_acct v p st = (r, st')"
  obtains a' where "p (acct_of v st) = (r, a')" "st' = put_acct v a' st"
  using assms by (auto simp: on_acct_def split: prod.splits)

lemma gated_cases:
  assumes "gated v p st = (r, st')"
  obtains (redirect) "who v st = None" "r = Inr LoginRedirect" "st' = st"
  | (served) u r' where "who v st = Some u" "p u st = (r', st')"
  using assms
  by (cases "who v st")
     (auto simp: gated_def login_required_def ret_def bnd_def split: prod.splits sum.splits)

lemma gated_redirect: "who v st = None \<Longrightarrow> gated v p st = (Inr LoginRedirect, st)"
  by (simp add: gated_def login_required_def ret_def)

lemma acct_of_fields [simp]:
  "a_db (acct_of v st) = db (core st)" "a_cookie (acct_of v st) = jar st v"
  "a_mail (acct_of v st) = mail st"
  by (simp_all add: acct_of_def)

lemma put_acct_fields [simp]:
  "db (core (put_acct v a st)) = a_db a" "jar (put_acct v a st) = (jar st)(v := a_cookie a)"
  "people (put_acct v a st) = people st" "mail (put_acct v a st) = a_mail a"
  by (simp_all add: put_acct_def)

lemma teardown_fields [simp]:
  "db (core (teardown st)) = rollback (db (core st))" "jar (teardown st) = jar st"
  "people (teardown st) = people st" "mail (teardown st) = mail st"
  "net (core (teardown st)) = net (core st)"
  "demo_cache (core (teardown st)) = demo_cache (core st)"
  by (simp_all add: teardown_def)

section \<open>Lemmas: what the handlers keep of the database\<close>

lemma keeps_on_core [keeps_intros]:
  "keeps (\<lambda>c. P (db c)) p \<Longrightarrow> keeps (\<lambda>st. P (db (core st))) (on_core p)"
  by (rule keepsI) (auto elim!: on_core_run dest: keepsD)

lemma keeps_on_store [keeps_intros]:
  "keeps P p \<Longrightarrow> keeps (\<lambda>st. P (db (core st))) (on_store p)"
  unfolding on_store_def by (intro keeps_on_core keeps_lift_db)

lemma keeps_on_people [keeps_intros]: "keeps (\<lambda>st. P (db (core st))) (on_people p)"
  by (rule keepsI) (auto elim!: on_people_run)

lemma keeps_on_cookie [keeps_intros]: "keeps (\<lambda>st. P (db (core st))) (on_cookie v p)"
  by (rule keepsI) (auto elim!: on_cookie_run)

lemma keeps_on_acct [keeps_intros]:
  assumes "keeps (\<lambda>a. P (a_db a)) p"
  shows "keeps (\<lambda>st. P (db (core st))) (on_acct v p)"
proof (rule keepsI)
  fix st r st'
  assume P: "P (db (core st))" and "on_acct v p st = (r, st')"
  then obtain a' where "p (acct_of v st) = (r, a')" "st' = put_acct v a' st"
    by (auto elim: on_acct_run)
  with keepsD[OF assms, of "acct_of v st" r a'] P show "P (db (core st'))" by simp
qed

lemma keeps_gated [keeps_intros]: "(\<And>u. keeps I (p u)) \<Longrightarrow> keeps I (gated v p)"
  by (rule keepsI) (auto elim!: gated_cases dest: keepsD)

lemma keeps_lift_sw [keeps_intros]:
  "keeps (\<lambda>st. P (fst st)) p \<Longrightarrow> keeps (\<lambda>st. P (db st)) (lift_sw p)"
  by (auto simp: keeps_def lift_sw_def split: prod.splits)

lemma keeps_add_book [keeps_intros]:
  assumes "db_closed P"
  shows "keeps (\<lambda>st. P (fst st)) (add_book verb form)"
proof (rule keepsI)
  fix st :: "session \<times> world" and r st'
  assume P: "P (fst st)" and run: "add_book verb form st = (r, st')"
  obtain s w s' w' where st: "st = (s, w)" "st' = (s', w')" by (cases st; cases st') auto
  from run[unfolded st] show "P (fst st')"
  proof (cases rule: add_book_cases)
    case (added meta b s1)
    with db_closed_insert_book[OF assms _ added(7)] P st show ?thesis
      by (simp add: db_closed_commit[OF assms])
  qed (use P st in simp_all)
qed

lemma keeps_seed_item [keeps_intros]:
  assumes "db_closed P"
  shows "keeps (\<lambda>st. P (fst st)) (seed_item item)"
proof (rule keepsI)
  fix st :: "session \<times> world" and r st'
  assume P: "P (fst st)" and run: "seed_item item st = (r, st')"
  obtain t0 a0 g0 where item: "item = (t0, a0, g0)" by (cases item)
  from run P show "P (fst st')"
    unfolding item seed_item_def Let_def
    by (auto split: prod.splits sum.splits if_splits dest: db_closed_insert_book[OF assms])
qed

lemma keeps_startup_seed [keeps_intros]:
  assumes "db_closed P"
  shows "keeps (\<lambda>st. P (fst st)) startup_seed"
proof (rule keepsI)
  fix st :: "session \<times> world" and r st'
  assume P: "P (fst st)" and run: "startup_seed st = (r, st')"
  have loop: "keeps (\<lambda>st. P (fst st)) (run_list seed_shelf CURATED_SHELVES)"
    unfolding seed_shelf_def by (intro keeps_intros assms)
  obtain r1 st1 where r1: "run_list seed_shelf CURATED_SHELVES st = (r1, st1)"
    by (metis surj_pair)
  from keepsD[OF loop P r1] have "P (fst st1)" .
  with run r1 P show "P (fst st')"
    by (auto simp: startup_seed_def with_app_context_def ensure_seeded_curated_def
        ensure_seeded_curated_from_def db_closed_commit[OF assms] db_closed_rollback[OF assms]
        split: prod.splits sum.splits if_splits)
qed

lemma outcome_run:
  assumes "outcome p st = (r, st')"
  obtains r0 st0 where "p st = (r0, st0)" "st' = teardown st0"
    "r = (case r0 of Inl x \<Rightarrow> Some x | Inr _ \<Rightarrow> None)"
  using assms by (auto simp: outcome_def split: prod.splits sum.splits)

lemma outcome_keeps:
  assumes "outcome p st = (r, st')" and "P (db (core st))" and "db_closed P"
    and "keeps (\<lambda>st. P (db (core st))) p"
  shows "P (db (core st'))"
  using assms(1)
proof (rule outcome_run)
  fix r0 st0
  assume "p st = (r0, st0)" and st': "st' = teardown st0"
  from keepsD[OF assms(4,2) this(1)] show ?thesis
    unfolding st' by (simp add: db_closed_rollback[OF assms(3)])
qed

lemma outcome_clean: "outcome p st = (r, st') \<Longrightarrow> live (db (core st')) = durable (db (core st'))"
  by (auto elim!: outcome_run)

lemma handle_keeps:
  assumes "db_closed P" and "P (db (core st))" and "handle H v rq st = (r, st')"
  shows "P (db (core st'))"
  using assms(2,3)
  by (cases rq) (auto elim!: outcome_keeps[where P = P] intro!: keeps_intros assms(1))

lemma handle_clean: "handle H v rq st = (r, st') \<Longrightarrow> live (db (core st')) = durable (db (core st'))"
  by (cases rq) (auto dest: outcome_clean)

lemma boot_keeps:
  assumes "db_closed P" and "P (new_session (e_tables e))" and "boot e = (r, st)"
  shows "P (db (core st))"
proof -
  obtain r0 s w' where run: "startup_seed (new_session (e_tables e), e_net e) = (r0, (s, w'))"
    by (metis surj_pair)
  from keepsD[OF keeps_startup_seed[OF assms(1)] _ run] assms(2) have "P s" by simp
  with run assms(3) show ?thesis by (auto simp: boot_def)
qed

lemma boot_clean: "boot e = (r, st) \<Longrightarrow> live (db (core st)) = durable (db (core st))"
  by (auto simp: boot_def startup_seed_def with_app_context_def split: prod.splits)

lemma boot_fields:
  assumes "boot e = (r, st)"
  shows "people st = social0" "jar st = e_jar e" "mail st = e_mail e"
  using assms by (auto simp: boot_def split: prod.splits)

section \<open>Lemmas: what the handlers keep of the site\<close>

lemma prefs_ok_user [simp]: "prefs_ok (c\<lparr>c_user_id := x\<rparr>) = prefs_ok c"
  by (simp add: prefs_ok_def)

lemma site_ok_teardown: "site_ok st \<Longrightarrow> teardown st = st"
  by (simp add: site_ok_def teardown_def sess_ok_rollback)

lemma cookie_ok_user:
  "cookie_ok s c \<Longrightarrow> c_user_id c = Some i \<Longrightarrow> i \<in> u_id ` set (users (durable s))"
  by (simp add: cookie_ok_def)

lemma members_logged_in:
  assumes "site_ok st"
  shows "members (logged_in st) (db (core st))"
proof -
  have "i \<in> u_id ` set (users (durable (db (core st))))" if "i \<in> logged_in st" for i
  proof -
    from that obtain v where "c_user_id (jar st v) = Some i" by (auto simp: logged_in_def)
    with assms show ?thesis by (auto simp: site_ok_def intro: cookie_ok_user)
  qed
  with assms show ?thesis by (auto simp: members_def site_ok_def sess_ok_def)
qed

lemma site_okI:
  assumes "store_ok (db (core st))" and "members I (db (core st))" and "social_ok (people st)"
    and "\<And>v. prefs_ok (jar st v)"
    and "\<And>v i. c_user_id (jar st v) = Some i \<Longrightarrow>
           i \<in> I \<or> i \<in> u_id ` set (users (durable (db (core st))))"
  shows "site_ok (teardown st)"
proof -
  from assms(1) have "sess_ok (rollback (db (core st)))"
    using db_closed_rollback[OF db_closed_store_ok] by (simp add: sess_ok_def rollback_def)
  moreover have "cookie_ok (rollback (db (core st))) (jar st v)" for v
    using assms(2) assms(4)[of v] assms(5)[of v]
    by (auto simp: cookie_ok_def members_def rollback_def split: option.splits)
  ultimately show ?thesis using assms(3) by (simp add: site_ok_def)
qed

lemma site_ok_parts:
  assumes "site_ok st"
  shows "store_ok (db (core st))" "live (db (core st)) = durable (db (core st))"
    "social_ok (people st)" "prefs_ok (jar st v)"
    "c_user_id (jar st v) = Some i \<Longrightarrow> i \<in> logged_in st"
  using assms by (auto simp: site_ok_def sess_ok_def cookie_ok_def logged_in_def)

lemma site_closed: "db_closed (\<lambda>s. store_ok s \<and> members I s)"
  by (intro db_closed_conj db_closed_store_ok db_closed_members)

lemma serves_ret [serves_intros]: "serves (ret x)"
  by (simp add: serves_def ret_def site_ok_teardown)

lemma serves_gets [serves_intros]: "serves (gets f)"
  by (simp add: serves_def gets_def site_ok_teardown)

lemma serves_gated [serves_intros]: "(\<And>u. serves (p u)) \<Longrightarrow> serves (gated v p)"
  unfolding serves_def by (auto elim!: gated_cases simp: site_ok_teardown)

lemma serves_on_core [serves_intros]:
  assumes "\<And>P. db_closed P \<Longrightarrow> keeps (\<lambda>c. P (db c)) p"
  shows "serves (on_core p)"
  unfolding serves_def
proof (intro allI impI)
  fix st r st'
  assume ok: "site_ok st" and "on_core p st = (r, st')"
  then obtain c' where run: "p (core st) = (r, c')" and st': "st' = st\<lparr>core := c'\<rparr>"
    by (auto elim: on_core_run)
  from keepsD[OF assms[OF site_closed] _ run, of "logged_in st"] site_ok_parts(1)[OF ok]
    members_logged_in[OF ok]
  have "store_ok (db c')" "members (logged_in st) (db c')" by simp_all
  then show "site_ok (teardown st')"
    using site_ok_parts(3-5)[OF ok] unfolding st'
    by (intro site_okI[where I = "logged_in st"]) auto
qed

lemma serves_on_store [serves_intros]:
  assumes "\<And>P. db_closed P \<Longrightarrow> keeps P p"
  shows "serves (on_store p)"
  unfolding on_store_def by (intro serves_on_core keeps_lift_db assms)

lemma serves_on_people [serves_intros]:
  assumes "keeps social_ok p"
  shows "serves (on_people p)"
  unfolding serves_def
proof (intro allI impI)
  fix st r st'
  assume ok: "site_ok st" and "on_people p st = (r, st')"
  then obtain soc' where run: "p (people st) = (r, soc')" and st': "st' = st\<lparr>people := soc'\<rparr>"
    by (auto elim: on_people_run)
  from keepsD[OF assms site_ok_parts(3)[OF ok] run] show "site_ok (teardown st')"
    using site_ok_parts(1,4,5)[OF ok] members_logged_in[OF ok] unfolding st'
    by (intro site_okI[where I = "logged_in st"]) auto
qed

lemma serves_on_cookie [serves_intros]:
  assumes "keeps prefs_ok p" and "\<And>x. keeps (\<lambda>c. c_user_id c = x) p"
  shows "serves (on_cookie v p)"
  unfolding serves_def
proof (intro allI impI)
  fix st r st'
  assume ok: "site_ok st" and "on_cookie v p st = (r, st')"
  then obtain c' where run: "p (jar st v) = (r, c')" and st': "st' = st\<lparr>jar := (jar st)(v := c')\<rparr>"
    by (auto elim: on_cookie_run)
  from keepsD[OF assms(1) site_ok_parts(4)[OF ok] run] have p: "prefs_ok c'" .
  from keepsD[OF assms(2) refl run] have u: "c_user_id c' = c_user_id (jar st v)" .
  show "site_ok (teardown st')"
    using site_ok_parts(1,3,4,5)[OF ok] members_logged_in[OF ok] p u unfolding st'
    by (intro site_okI[where I = "logged_in st"]) (auto split: if_splits)
qed

lemma serves_on_acct:
  assumes "\<And>P. db_closed P \<Longrightarrow> keeps (\<lambda>a. P (a_db a)) p"
    and "\<And>a r a'. live (a_db a) = durable (a_db a) \<Longrightarrow> p a = (r, a') \<Longrightarrow> cookie_step a a'"
  shows "serves (on_acct v p)"
  unfolding serves_def
proof (intro allI impI)
  fix st r st'
  assume ok: "site_ok st" and "on_acct v p st = (r, st')"
  then obtain a' where run: "p (acct_of v st) = (r, a')" and st': "st' = put_acct v a' st"
    by (auto elim: on_acct_run)
  from keepsD[OF assms(1)[OF site_closed] _ run, of "logged_in st"] site_ok_parts(1)[OF ok]
    members_logged_in[OF ok]
  have db: "store_ok (a_db a')" "members (logged_in st) (a_db a')" by simp_all
  from assms(2)[OF _ run] site_ok_parts(2)[OF ok] have "cookie_step (acct_of v st) a'" by simp
  then obtain x where c: "a_cookie a' = (jar st v)\<lparr>c_user_id := x\<rparr>"
    and x: "x = c_user_id (jar st v) \<or> x = None
          \<or> (\<exists>u \<in> set (users (durable (a_db a'))). x = Some (u_id u))"
    by (auto simp: cookie_step_def)
  show "site_ok (teardown st')"
  proof (rule site_okI[where I = "logged_in st"])
    fix w i
    assume "c_user_id (jar st' w) = Some i"
    with c x site_ok_parts(5)[OF ok]
    show "i \<in> logged_in st \<or> i \<in> u_id ` set (users (durable (db (core st'))))"
      unfolding st' by (cases "w = v") auto
  next
    fix w
    from c site_ok_parts(4)[OF ok] show "prefs_ok (jar st' w)" unfolding st' by simp
  qed (use db site_ok_parts(3)[OF ok] in \<open>simp_all add: st'\<close>)
qed

lemma serves_accounts [serves_intros]:
  "serves (on_acct v (signup H salt verb form))"
  "serves (on_acct v (login H verb e p))"
  "serves (on_acct v logout)"
  "serves (on_acct v (forgot_password now verb e))"
  "serves (on_acct v (reset_password H salt now token verb n c))"
  "serves (on_acct v (change_password H salt u verb cur n c))"
  "serves (on_acct v (edit_profile u verb pform))"
  by (rule serves_on_acct; (intro keeps_intros)?;
      (assumption | erule signup_step login_step logout_step forgot_password_step
          reset_password_step change_password_step edit_profile_step)?; assumption?)+

lemma outcome_serves:
  assumes "outcome p st = (r, st')" and "site_ok st" and "serves p"
  shows "site_ok st'"
  using assms by (auto elim!: outcome_run simp: serves_def)

lemma handle_site_ok:
  assumes "site_ok st" and "handle H v rq st = (r, st')"
  shows "site_ok st'"
  using assms
  by (cases rq)
     (auto elim!: outcome_serves intro!: serves_intros keeps_intros settings_keep_user)

lemma boot_site_ok:
  assumes "env_ok e" and "boot e = (r, st)"
  shows "site_ok st"
proof -
  let ?I = "{i. \<exists>v. c_user_id (e_jar e v) = Some i}"
  have "i \<in> u_id ` set (users (e_tables e))" if "i \<in> ?I" for i
  proof -
    from that obtain v where "c_user_id (e_jar e v) = Some i" by auto
    with assms(1) cookie_ok_user[of "new_session (e_tables e)" "e_jar e v" i] show ?thesis
      by (simp add: env_ok_def)
  qed
  with assms(1) have "store_ok (new_session (e_tables e)) \<and> members ?I (new_session (e_tables e))"
    by (auto simp: env_ok_def store_ok_def members_def)
  from boot_keeps[OF site_closed this assms(2)] boot_clean[OF assms(2)] assms(1)
  show ?thesis
    by (auto simp: site_ok_def sess_ok_def boot_fields[OF assms(2)] social_ok_social0
        cookie_ok_def env_ok_def members_def split: option.splits)
qed

section \<open>Lemmas: reachable states\<close>

lemma reachable_closed:
  assumes "db_closed P" and "\<And>st. boot e = (None, st) \<Longrightarrow> P (db (core st))"
    and "reachable H e st"
  shows "P (db (core st))"
  using assms(3) by induction (auto intro: assms(2) handle_keeps[OF assms(1)])

lemma reachable_clean: "reachable H e st \<Longrightarrow> live (db (core st)) = durable (db (core st))"
  by (induction rule: reachable.induct) (auto dest: boot_clean handle_clean)

lemma reachable_run: "reachable H e st \<Longrightarrow> reachable H e (run_requests H rqs st)"
proof (induction rqs arbitrary: st)
  case Nil
  then show ?case by simp
next
  case (Cons x rqs)
  obtain v rq where x: "x = (v, rq)" by (cases x)
  from reachable.step[OF Cons.prems surjective_pairing, of v rq] Cons.IH show ?case
    by (simp add: x)
qed

lemma who_None_iff:
  assumes "site_ok st"
  shows "who v st = None \<longleftrightarrow> c_user_id (jar st v) = None"
proof (cases "c_user_id (jar st v)")
  case None
  then show ?thesis by (simp add: who_def current_user_def)
next
  case (Some i)
  with assms have "i \<in> u_id ` set (users (live (db (core st))))"
    by (auto simp: site_ok_def sess_ok_def dest: cookie_ok_user)
  with Some load_user_Some_iff_member[of i "db (core st)"] show ?thesis
    by (simp add: who_def current_user_def)
qed

lemma run_requests_site_ok: "site_ok st \<Longrightarrow> site_ok (run_requests H rqs st)"
proof (induction rqs arbitrary: st)
  case Nil
  then show ?case by simp
next
  case (Cons x rqs)
  obtain v rq where x: "x = (v, rq)" by (cases x)
  from handle_site_ok[OF Cons.prems surjective_pairing, of H v rq] Cons.IH show ?case
    by (simp add: x)
qed

lemma outcome_gated_redirect:
  "who v st = None \<Longrightarrow> site_ok st \<Longrightarrow> outcome (gated v p) st = (None, st)"
  by (simp add: outcome_def gated_redirect site_ok_teardown)

section \<open>Lemmas: start-up without the network\<close>

lemma seed_item_offline:
  assumes "respond w = (\<lambda>n url. None)"
  shows "fst (seed_item item (s, w)) = Inr ()"
proof (cases "present item s")
  case True
  then show ?thesis by (simp add: seed_item_present)
next
  case False
  obtain t0 a0 g0 where item: "item = (t0, a0, g0)" by (cases item)
  from False have "strip t0 \<noteq> []" by (auto simp: present_def item)
  with assms obtain w' where "ol_best_match (strip t0) (strip a0) w = (Inr None, w')"
    by (simp add: ol_best_match_request)
  with False show ?thesis unfolding item by (simp add: seed_item_new)
qed

lemma run_seed_offline:
  assumes "respond w = (\<lambda>n url. None)"
  shows "fst (run_list seed_item items (s, w)) = Inr ()"
  using assms
proof (induction items arbitrary: s w)
  case Nil
  then show ?case by simp
next
  case (Cons item items)
  obtain r1 s1 w1 where step: "seed_item item (s, w) = (r1, (s1, w1))" by (metis surj_pair)
  with seed_item_offline[OF Cons.prems, of item s] have r1: "r1 = Inr ()" by simp
  from seed_item_net[OF step] Cons.prems have "respond w1 = (\<lambda>n url. None)" by simp
  from Cons.IH[OF this, of s1] step r1 show ?case by simp
qed

lemma boot_offline: "respond (e_net e) = (\<lambda>n url. None) \<Longrightarrow> fst (boot e) = None"
  using run_seed_offline[of "e_net e" "all_items CURATED_SHELVES" "new_session (e_tables e)"]
  by (auto simp: boot_def startup_seed_def with_app_context_def ensure_seeded_curated_def
      ensure_seeded_unfold split: prod.splits sum.splits if_splits)

lemma offline_env_ok: "env_ok offline_env" "env_ok stocked_env"
  by (simp_all add: env_ok_def offline_env_def stocked_env_def cookie_ok_def empty_cookie_def
      tables_ok_def empty_tables_def books_ok_def demo_book_def prefs_ok_def)

lemma offline_app_boot: "boot offline_env = (None, offline_app)"
  using boot_offline[of offline_env]
  by (simp add: offline_app_def offline_env_def down_world_def prod_eq_iff)

lemma offline_app_reachable: "reachable H offline_env offline_app"
  by (rule reachable.start[OF offline_app_boot])

lemma stocked_app_reachable: "reachable toy_crypto stocked_env stocked_app"
  unfolding stocked_app_def
proof (rule reachable_run[OF reachable.start])
  show "boot stocked_env = (None, snd (boot stocked_env))"
    using boot_offline[of stocked_env]
    by (simp add: stocked_env_def offline_env_def down_world_def prod_eq_iff)
qed

lemma offline_added_reachable: "reachable toy_crypto offline_env offline_added"
  unfolding offline_added_def by (rule reachable_run[OF offline_app_reachable])

lemma boot_curated:
  assumes "boot e = (None, st)" and "length (books (e_tables e)) < 250"
  shows "curated_keys (all_items CURATED_SHELVES) \<subseteq> keys (db (core st))"
proof -
  obtain s1 w1 where run: "ensure_seeded_curated 250 (new_session (e_tables e), e_net e)
        = (Inr (), (s1, w1))"
    and st: "db (core st) = rollback s1"
    using assms(1)
    by (auto simp: boot_def startup_seed_def with_app_context_def split: prod.splits sum.splits)
  from assms(2) have small: "\<not> 250 \<le> int (book_count (new_session (e_tables e)))"
    by (simp add: book_count_def)
  from run[unfolded ensure_seeded_curated_def] small obtain s0
    where s1: "s1 = commit s0"
      and loop: "run_list seed_item (all_items CURATED_SHELVES) (new_session (e_tables e), e_net e)
          = (Inr (), (s0, w1))"
    by (cases rule: ensure_seeded_cases) auto
  from run_seed_keys[OF loop] st s1 show ?thesis by (simp add: keys_def)
qed

section \<open>Properties\<close>

text \<open>
  C11 (invariant). Between two requests the site is well formed: in every
  state the application reaches from well-formed tables and cookies that
  name users of these tables, whatever the requests were, whoever sent them
  and whatever the network answered, every table still has unique ids, the
  \<open>Book\<close> rows are unique in (title, author), the emails of the users are
  unique, a user has at most one favourite and one history row per book,
  nothing is pending in the session, the handles of the two lists are
  unique, every cookie holds a valid theme and language, and every cookie
  that names a user names one that is committed.
\<close>

theorem reachable_site_ok:
  assumes "env_ok e" and "reachable H e st"
  shows "site_ok st"
  using assms(2) by induction (auto intro: boot_site_ok[OF assms(1)] handle_site_ok)

theorem reachable_site_ok_witness:
  "env_ok offline_env \<and> site_ok offline_added"
  using reachable_site_ok[OF _ offline_added_reachable] by (simp add: offline_env_ok)

text \<open>
  C16 (safety). No request removes or changes a \<open>Book\<close> row: every row that
  was in the table when the application started is in the table of every
  state it reaches.
\<close>

theorem requests_never_remove_books:
  assumes "reachable H e st"
  shows "set (books (e_tables e)) \<subseteq> set (books (live (db (core st))))"
proof -
  have "stored id (set (books (e_tables e))) (db (core st))"
  proof (rule reachable_closed[OF db_closed_stored _ assms])
    show "stored id (set (books (e_tables e))) (db (core st0))" if "boot e = (None, st0)" for st0
      using boot_keeps[OF db_closed_stored _ that, of id "set (books (e_tables e))"]
        stored_new_session[of id "e_tables e"] by simp
  qed
  then show ?thesis by (auto simp: stored_def)
qed

theorem requests_never_remove_books_witness:
  "demo_book \<in> set (books (live (db (core stocked_app))))"
  using requests_never_remove_books[OF stocked_app_reachable]
  by (simp add: stocked_env_def offline_env_def empty_tables_def)

text \<open>
  C17 (invariant). The curated books stay: when the application was started
  on fewer than 250 \<open>Book\<close> rows and the start-up returned, every state it
  reaches has a row for every curated item with a title and an author.
\<close>

theorem curated_books_stay:
  assumes "length (books (e_tables e)) < 250" and "reachable H e st"
  shows "curated_keys (all_items CURATED_SHELVES) \<subseteq> keys (db (core st))"
proof -
  let ?K = "curated_keys (all_items CURATED_SHELVES)"
  have "stored book_key ?K (db (core st))"
  proof (rule reachable_closed[OF db_closed_stored _ assms(2)])
    fix st0
    assume b: "boot e = (None, st0)"
    from boot_curated[OF b assms(1)] boot_clean[OF b] show "stored book_key ?K (db (core st0))"
      by (simp add: stored_def keys_def)
  qed
  then show ?thesis by (auto simp: stored_def keys_def)
qed

theorem curated_books_stay_witness:
  "length (books (e_tables offline_env)) < 250
   \<and> curated_keys (all_items CURATED_SHELVES) \<subseteq> keys (db (core offline_added))"
  using curated_books_stay[OF _ offline_added_reachable]
  by (simp add: offline_env_def empty_tables_def)

text \<open>
  C18 (liveness). Start-up does not need the network: when every request to
  Open Library fails, the seeding pass at start-up returns, and the
  application starts.
\<close>

theorem startup_without_network:
  assumes "respond (e_net e) = (\<lambda>n url. None)"
  shows "\<exists>st. boot e = (None, st) \<and> reachable H e st"
proof -
  from boot_offline[OF assms] have "boot e = (None, snd (boot e))"
    by (simp add: prod_eq_iff)
  then show ?thesis by (auto intro: reachable.start)
qed

theorem startup_without_network_witness:
  "respond (e_net offline_env) = (\<lambda>n url. None)
   \<and> (\<exists>st. boot offline_env = (None, st) \<and> reachable toy_crypto offline_env st)"
  using startup_without_network[of offline_env toy_crypto]
  by (simp add: offline_env_def down_world_def)

text \<open>
  C12 (safety). The routes decorated with \<open>@login_required\<close> do nothing for
  a visitor who is not signed in: when the browser's cookie loads no user,
  the request is answered with the redirect to the login page, no exception
  escapes and the site is as it was. In a reachable state that is exactly
  when the cookie names no user: a session never dangles.
\<close>

theorem login_required_routes_redirect:
  assumes "needs_login rq" and "site_ok st" and "c_user_id (jar st v) = None"
  shows "handle H v rq st = (None, st)"
proof -
  from assms(2,3) have "who v st = None" by (simp add: who_None_iff)
  with assms(1,2) show ?thesis by (cases rq) (simp_all add: outcome_gated_redirect)
qed

theorem login_required_routes_redirect_witness:
  "needs_login (FavouritesToggle 5 (id_body 1))
   \<and> handle toy_crypto 0 (FavouritesToggle 5 (id_body 1)) offline_added = (None, offline_added)"
proof -
  have "jar offline_added = (\<lambda>v. empty_cookie)"
    by (simp add: offline_added_def offline_app_def boot_fields[OF surjective_pairing]
        offline_env_def outcome_def on_core_def teardown_def split: prod.splits sum.splits)
  then have "c_user_id (jar offline_added 0) = None" by (simp add: empty_cookie_def)
  moreover have "site_ok offline_added"
    unfolding offline_added_def
    by (rule run_requests_site_ok[OF boot_site_ok[OF offline_env_ok(1) offline_app_boot]])
  ultimately show ?thesis
    using login_required_routes_redirect[of "FavouritesToggle 5 (id_body 1)" offline_added 0
        toy_crypto]
    by simp
qed


end
