(* ===== verification/Spec2Isabelle.thy ===== *)
theory Spec2Isabelle
  imports App
begin

text \<open>
  \<^bold>\<open>BookBuddy\<close> (\<open>src/main.py\<close>) is a Flask application over five SQLAlchemy
  tables. Its algorithmic core is a matcher that asks Open Library's search
  for a (title, author) pair and picks the best record with an additive
  score, a builder of cover URLs, and a seeder that fills the \<open>Book\<close> table
  from three curated shelves at start-up. Around it are the list of books
  that every page shows (demo books with cached covers, then the rows of
  \<open>Book\<close>), a description lookup with a scorer of its own, two search
  wrappers, the pages of a book and its reviews, favourites and reading
  history per user, two in-memory lists of people, preferences kept in the
  session cookie, and accounts with passwords and reset links. This
  development models all of them and the database operations they use, as
  Isabelle/HOL functions translated from the source, composes them into a
  transition system of the whole site, and proves what makes them correct.

  \<^bold>\<open>Theories, in dependency order.\<close>

  \<^item> \<open>BB_Prelude\<close>: exceptions as values (\<open>py_error\<close>, \<open>'a result\<close>, \<open>rbind\<close>,
    \<open>rmap\<close>), computations over a state that may raise (\<open>prog\<close>, \<open>bnd\<close>,
    \<open>run_list\<close> for a \<open>for\<close> loop), the invariant calculus \<open>keeps I p\<close> with
    its collection \<open>keeps_intros\<close>, and Python's \<open>max(xs, key=f)\<close> (\<open>max_loop\<close>,
    \<open>py_max\<close>, \<open>max_by_key\<close>) with the lemma that it returns the first
    element of maximal key. \<open>run_list_invariant\<close> carries every loop
    invariant of the development.
  \<^item> \<open>PyStr\<close>: the \<open>str\<close> methods the code calls (\<open>strip\<close>, \<open>lower\<close>, \<open>in\<close>,
    \<open>startswith\<close>, \<open>str\<close> of an integer). Strings are lists of \<open>char\<close>, one
    per code point, so the model covers code points 0 to 255.
  \<^item> \<open>Json\<close>: the values \<open>json.loads\<close> returns and Python's dynamically typed
    operations on them (\<open>d.get\<close>, \<open>v.strip()\<close>, \<open>v[0]\<close>, iteration, truth
    value, \<open>isinstance\<close>, \<open>str\<close> and \<open>repr\<close>), each raising what Python
    raises on a value of the wrong type.
  \<^item> \<open>PyInt\<close>: \<open>int(x)\<close> of a string (with the white space that \<open>int\<close>
    skips, which is not the white space of \<open>strip\<close>, and the limit on the
    number of digits), of a float and of a JSON value.
  \<^item> \<open>CoverUrl\<close>: \<open>PLACEHOLDER_COVER\<close> and \<open>_ol_cover_url\<close>.
  \<^item> \<open>Matcher\<close>: the network as a \<open>world\<close> (a log of requested URLs and an
    oracle for the answers), \<open>urllib.parse.quote\<close>, the nested function
    \<open>score\<close>, and \<open>_ol_best_match\<close> as \<open>ol_best_match\<close>.
  \<^item> \<open>Catalog\<close>: the model classes \<open>User\<close>, \<open>Review\<close>, \<open>Book\<close>, \<open>Favourite\<close>,
    \<open>History\<close> as records, the session with its live and committed tables,
    and the \<open>Book\<close> queries the seeder uses.
  \<^item> \<open>Store\<close>: the queries, inserts, updates and deletes on the other four
    tables; the operations on a session as a datatype \<open>db_op\<close> with the
    interpreter \<open>exec\<close>, the interface between the handlers and the
    invariants (\<open>db_closed\<close>); the invariant \<open>tables_ok\<close> of the tables.
  \<^item> \<open>Seeder\<close>: \<open>CURATED_SHELVES\<close>, \<open>_ensure_seeded_curated\<close> and the call at
    start-up.
  \<^item> \<open>BookRoutes\<close>: \<open>get_or_create_book_row\<close> and the route \<open>/add-book\<close>
    (\<open>add_book\<close>), over the session and the network.
  \<^item> \<open>BookList\<close>: \<open>BOOKS\<close>, the cache of demo covers, \<open>all_books_ui\<close> and
    the routes \<open>home\<close>, \<open>browse\<close>, \<open>top_rated\<close> and \<open>/api/search\<close> over
    an \<open>app_state\<close> of session, network and cache.
  \<^item> \<open>Description\<close>: \<open>_ol_description_for\<close> with its nested \<open>score\<close>
    (\<open>desc_score\<close>), the choice of the work key, the second request and the
    cut of a long description (\<open>tidy\<close>).
  \<^item> \<open>Search\<close>: \<open>_ol_search\<close> and the route \<open>/api/openlibrary\<close>, whose loop
    bodies are the same code (\<open>search_record\<close>).
  \<^item> \<open>TimeAgo\<close>: \<open>_time_ago\<close> over a number of seconds.
  \<^item> \<open>Reviews\<close>: the routes \<open>book_details\<close>, \<open>book_reviews\<close> and
    \<open>add_review\<close>.
  \<^item> \<open>Shelves\<close>: the pages \<open>favourites\<close> and \<open>history\<close> and the JSON routes
    \<open>api_favourites_toggle\<close>, \<open>api_favourites_list\<close>, \<open>api_history_add\<close>.
  \<^item> \<open>Social\<close>: \<open>FOLLOWING\<close>, \<open>FOLLOWERS\<close>, their pages and the routes
    \<open>api_following_toggle\<close> and \<open>api_followers_remove\<close>, with \<open>str.title\<close>.
  \<^item> \<open>Prefs\<close>: the session cookie and the four settings routes.
  \<^item> \<open>Accounts\<close>: \<open>User.set_password\<close> and \<open>check_password\<close>, the reset
    tokens, \<open>login_required\<close>, and the routes \<open>signup\<close>, \<open>login\<close>, \<open>logout\<close>,
    \<open>forgot_password\<close>, \<open>reset_password\<close>, \<open>change_password\<close>,
    \<open>edit_profile\<close>, \<open>profile_page\<close>, \<open>my_reviews\<close>, \<open>settings\<close> and
    \<open>public_profile\<close>.
  \<^item> \<open>App\<close>: the site as a transition system. A \<open>site\<close> holds the
    \<open>app_state\<close>, the two lists, the cookie of every browser and the signed
    reset links; \<open>request\<close> has one constructor per route; \<open>handle\<close> runs the
    handler of a request for a browser, behind the login gate where the
    route is decorated (\<open>needs_login\<close>), and rolls back what is pending when
    the request ends; \<open>boot\<close> is the start-up and \<open>reachable\<close> the states
    reached from it.
  \<^item> \<open>Spec2Isabelle\<close> (this theory): the scenarios that span the seeder, the
    matcher, the database and the list of books.

  \<^bold>\<open>How the model corresponds to the code.\<close> One definition per function or
  per block of a function, with the source's names (a leading underscore
  dropped, fields prefixed by their record: \<open>b_title\<close> is \<open>Book.title\<close>,
  \<open>m_cover\<close> the key \<open>cover\<close> of the matcher's dict). A function that touches
  the database, the network, the lists or the cookie takes that state and
  returns its result together with the new state; a result is \<open>Inr v\<close> or
  \<open>Inl e\<close> for an exception \<open>e\<close> that the code does not catch. A redirect, a
  flash message or a JSON answer is a constructor of the route's reply type.
  Nothing is assumed of the network: \<open>respond\<close> is any function, so every
  theorem holds for every sequence of answers, failures included. The
  database assigns ids as SQLite does, enforces the unique constraints of
  the models and not their foreign keys (SQLite's default, so a book id in
  \<open>Favourite\<close> or \<open>History\<close> is any 64-bit integer); the session shows the
  running transaction its own pending rows (autoflush) and makes them
  durable at \<open>commit\<close>. The clock, the salt of a password hash and the
  browser that sends a request are arguments.

  What the libraries promise is a parameter or an explicit part of the
  state, never an axiom: the password hash is a record \<open>crypto\<close> of the two
  werkzeug functions, and the theorems that need it assume \<open>hash_sound\<close> (a
  hash checks against the password it was made from and no other); a reset
  token is the pair of an email and the time of signing, and the state
  records which pairs were signed, so that a token is valid exactly when
  the server has issued it; a cookie is changed by the server only.

  \<^bold>\<open>What is proved.\<close>

  \<^item> Seeder: the \<open>Book\<close> table stays free of duplicates (C1); a pass is
    idempotent (C2); a pass that raises commits nothing and raises only what
    the matcher raises (C3); the threshold short-circuits the pass (C4); one
    request per new row (C5); existing items cost no request (C6); after a
    pass every curated item is in the table and committed (C7); as a set of
    (title, author) pairs, a pass is the union with the curated pairs (C21).
    As theorems without a claim id: at start-up the session is restored
    when the pass raises, stored covers agree with stored identifiers, the
    threshold is not looked at again, a blank genre is stored empty.
  \<^item> Matcher: an exact title and author match beats every record with
    another first author (C8); ties go to the first record (C9); a blank title
    sends nothing (C10), any other title sends exactly one request (C22);
    transport failures are soft (C23); well-shaped bodies never raise (C24);
    returned records are consistent (C25). Without a claim id: a body that is
    not an object raises \<open>AttributeError\<close>, scores lie in 0..113, \<open>quote\<close>
    emits only safe characters.
  \<^item> The site (\<open>App\<close>): \<open>site_ok\<close> holds in every reachable state (C11):
    the tables are well formed, nothing is pending between two requests,
    the handles of the lists are unique, every cookie holds valid
    preferences and names a committed user or none. A decorated route does
    nothing for a visitor who is not signed in (C12). No request removes a
    \<open>Book\<close> row (C16), the curated books stay (C17), and the site starts
    without a network (C18).
  \<^item> Accounts: who has signed up can sign in, and with no other password
    (C13); nobody is signed in without the password (C14); a password is
    reset only with a token that was signed for that user within the hour
    and not in the future (C15). Without a claim id: a reset password with white space at its
    ends cannot be typed at the login.
  \<^item> End to end: the one-item scenario (C19).
  \<^item> Cover URLs: the cover id has priority (C20).
  \<^item> List of books: a second call of \<open>all_books_ui\<close> costs no request and
    changes nothing (C26); every demo book that the seeder has also put into
    \<open>Book\<close> is listed twice, at its place among the demo books and as the
    row of \<open>Book\<close> behind them (C27). As lemmas: every row has a cover, the list
    has one row per demo book and per row of \<open>Book\<close>, the sort by rating is a
    stable descending sort, and the filters return rows of the list.
  \<^item> Book routes: \<open>/add-book\<close> keeps the table free of duplicates and
    changes nothing unless it adds (C28).
  \<^item> Reviews: a posted review with a rating in the 64-bit range is stored
    once, as written, and one with a rating outside it raises
    \<open>OverflowError\<close> and stores nothing (C29); the page of
    a book leaves a committed row of \<open>Book\<close>, also when it fails (C30); the
    page of the reviews lists exactly the reviews of the title with their
    count and mean (C31). Without a claim id: a rating that is no integer
    raises, \<open>add_review\<close> raises nothing but the four exceptions of
    \<open>add_review_failures\<close> and then has written nothing, a rating is not
    checked against the range of the stars, the page of a demo book makes
    the lists show it twice.
  \<^item> Favourites and history: the toggle flips the membership of one pair
    and nothing else (C32), and twice restores the favourites (C33); the
    history keeps one row per user and book (C34); the favourites page is
    the join with \<open>Book\<close> (C35). Without a claim id: the toggle fails only on
    its body, a favourite of a missing book is stored and hidden, the
    history page has at most a hundred rows, newest first.
  \<^item> Following: the effect of the toggle on the list (C36); as theorems,
    following and unfollowing restores the list, the other order loses the
    name, and followers can only be removed.
  \<^item> Search: every hit has a title, an author and a cover built from its
    own identifiers (C37).
  \<^item> Preferences: the theme and the language shown are valid values (C38).
  \<^item> Relative times: the chain of divisions agrees with thresholds on the
    seconds (C39).
  \<^item> Description: the text shown is a prefix of the stripped description of
    at most 600 characters without white space at its ends (C40).

  \<^bold>\<open>Bounds.\<close> No fuel is used: every loop of the modelled code runs over a
  finite list and is a structural recursion. Strings are over code points
  below 256; the ellipsis that \<open>_ol_description_for\<close> appends is a
  constructor of the result type, and \<open>str.title\<close> leaves the two letters
  whose title case lies beyond code point 255 as they are. Integers are
  unbounded, as in Python; an integer bound to a statement (a book id, the
  rating of a review) is checked against the 64-bit range of SQLite, and
  the check is made where the row is added, while the source makes it at
  the flush of the commit that follows at once. \<open>int\<close> of a string refuses
  more than 4300 digits, the default limit of Python 3.11 and later (and of
  the earlier releases with the same fix). \<open>int\<close> of a float is exact below
  \<open>2^53\<close>. A
  time is a number of microseconds, and the conversion of a difference to
  seconds is exact below \<open>2^32\<close> seconds; the time of a reset token is in
  seconds, and a token is valid from 0 up to and including 3600 seconds of
  age.

  \<^bold>\<open>Not modelled.\<close> The HTML of the templates and the text of flash
  messages; \<open>share_profile\<close> (a template over the user's name and \<open>BOOKS\<close>)
  and \<open>qr_profile\<close> (a PNG made by a library); the upload of a profile
  picture in \<open>edit_profile\<close>, which writes a file and sets an attribute that
  is no column of \<open>User\<close>; the schema migration at import (\<open>create_all\<close> and
  the \<open>PRAGMA\<close> block); concurrent requests (a request is handled from its
  start to its teardown before the next). Ratings are rational numbers; the
  rounding of binary floats is not modelled. The order of rows of equal
  time in a query ordered by time is the order of the table, which SQL
  leaves open.
\<close>

section \<open>The one-item scenario\<close>

text \<open>
  C19 (functional, end to end). One curated item, an empty database and a
  threshold of one: a pass that returns has sent exactly one request, the
  search for \<open>1984 George Orwell\<close>, and has committed exactly one row, with id
  1, the item's title, author and genre, and a cover that is never empty: the
  cover-id URL when the chosen record has a cover id, the placeholder when it
  has no identifier at all.
\<close>

theorem end_to_end_single_item:
  assumes "calls w = []"
    and "ensure_seeded_curated_from [(shelf, [(''1984'', ''George Orwell'', ''Classics'')])] 1
           (new_session empty_tables, w) = (Inr (), (s', w'))"
  shows "calls w' = [''https://openlibrary.org/search.json?q=1984%20George%20Orwell&limit=20&page=1'']
       \<and> (\<exists>b. books (durable s') = [b] \<and> b_id b = 1 \<and> b_title b = ''1984''
              \<and> b_author b = ''George Orwell'' \<and> b_genre b = ''Classics'' \<and> b_cover b \<noteq> []
              \<and> (b_cover_i b \<noteq> [] \<longrightarrow> b_cover b = cover_by ''id'' (b_cover_i b))
              \<and> (b_cover_i b = [] \<and> b_isbn b = [] \<and> b_olid b = [] \<longrightarrow> b_cover b = PLACEHOLDER_COVER))"
proof -
  let ?s0 = "new_session empty_tables"
  have st: "strip ''1984'' = ''1984''" "strip ''George Orwell'' = ''George Orwell''"
    "strip ''Classics'' = ''Classics''"
    by (simp_all add: pystr_eval)
  have np: "\<not> present (''1984'', ''George Orwell'', ''Classics'') ?s0"
    by (simp add: present_def st find_book_def empty_tables_def)
  have url: "match_url ''1984'' ''George Orwell'' = demo_url"
    by (rule demo_match_url)
  obtain r1 w1 where m: "ol_best_match ''1984'' ''George Orwell'' w = (r1, w1)"
    by (metis surj_pair)
  from ol_best_match_calls[of "''1984''" "''George Orwell''" w] m assms(1)
  have c1: "calls w1 = [demo_url]" by (simp add: st url)
  from assms(2) np m obtain meta where r1: "r1 = Inr meta" and w': "w' = w1"
    and s': "s' = commit (snd (insert_book (seeded_book ''1984'' ''George Orwell'' ''Classics'' meta) ?s0))"
    by (auto simp: ensure_seeded_unfold all_items_def book_count_def empty_tables_def
        seed_item_new st split: sum.splits prod.splits)
  from m r1 have mc: "meta = None \<or> (\<exists>m. meta = Some m \<and> meta_ok m)"
    by (auto dest: ol_best_match_meta_cases)
  define b where "b = (seeded_book ''1984'' ''George Orwell'' ''Classics'' meta)\<lparr>b_id := 1\<rparr>"
  have books: "books (durable s') = [b]"
    unfolding s' b_def by (simp add: insert_book_def find_book_def empty_tables_def next_id_def Let_def)
  have cons: "cover_consistent b"
    using seeded_book_consistent[OF mc, of "''1984''" "''George Orwell''" "''Classics''"]
    by (simp add: b_def cover_consistent_def)
  have stripped: "strip (b_cover_i b) = b_cover_i b"
    using mc by (auto simp: b_def seeded_book_None seeded_book_Some meta_ok_def)
  have "b_cover b \<noteq> []"
    using cons by (auto simp: cover_consistent_def Let_def)
  moreover have "b_cover b = cover_by ''id'' (b_cover_i b)" if "b_cover_i b \<noteq> []"
    using cons that stripped by (simp add: cover_consistent_def Let_def ol_cover_url_def)
  moreover have "b_cover b = PLACEHOLDER_COVER" if "b_cover_i b = [] \<and> b_isbn b = [] \<and> b_olid b = []"
    using cons that by (simp add: cover_consistent_def Let_def ol_cover_url_def)
  moreover have "b_id b = 1" "b_title b = ''1984''" "b_author b = ''George Orwell''"
    "b_genre b = ''Classics''" by (simp_all add: b_def)
  ultimately show ?thesis using books c1 w' by (simp add: demo_url_def)
qed

theorem end_to_end_single_item_witness:
  "calls demo_world = []
   \<and> ensure_seeded_curated_from demo_shelves 1 (new_session empty_tables, demo_world) =
       (Inr (), (new_session (empty_tables\<lparr>books := [demo_book]\<rparr>), demo_world\<lparr>calls := [demo_url]\<rparr>))
   \<and> books (durable (new_session (empty_tables\<lparr>books := [demo_book]\<rparr>))) = [demo_book]
   \<and> b_cover demo_book = cover_by ''id'' (b_cover_i demo_book)"
proof -
  have h: "calls demo_world = []" by (simp add: demo_world_def)
  have run: "ensure_seeded_curated_from [(''Classics'', [(''1984'', ''George Orwell'', ''Classics'')])] 1
      (new_session empty_tables, demo_world) =
       (Inr (), (new_session (empty_tables\<lparr>books := [demo_book]\<rparr>), demo_world\<lparr>calls := [demo_url]\<rparr>))"
    by (simp add: seeder_eval demo_match demo_book_def)
  from end_to_end_single_item[OF h run] h run show ?thesis
    by (simp add: demo_shelves_def demo_book_def cover_by_def cover_base_def)
qed

section \<open>Seeded demo books\<close>

text \<open>
  \<open>all_books_ui\<close> puts the demo books in front of the rows of \<open>Book\<close> and
  removes nothing. Eight of the nine demo books are also curated items, so
  after the first start-up they are in \<open>Book\<close> as well.
\<close>

lemma seeded_item_row:
  assumes "ensure_seeded_curated_from shelves n (s, w) = (Inr (), (s', w'))"
    and "int (book_count s) < n"
    and "(t, a, g) \<in> set (all_items shelves)" and "strip t \<noteq> []" and "strip a \<noteq> []"
  obtains bk where "bk \<in> set (books (live s'))" "book_key bk = (strip t, strip a)"
proof -
  from assms(1,2,3) have "present (t, a, g) s'"
    by (cases rule: ensure_seeded_cases) (auto dest: run_seed_present_after)
  with assms(4,5) obtain bk where "find_book (strip t) (strip a) s' = Some bk"
    by (auto simp: present_def)
  then show thesis using that by (auto dest: find_book_Some simp: book_key_def)
qed

lemma shared_keys:
  "length (filter (\<lambda>d. demo_key d \<in> curated_keys (all_items CURATED_SHELVES)) BOOKS) = 8"
  by (simp add: BOOKS_def demo_key_def curated_keys_def all_items_def CURATED_SHELVES_def
      List.map_filter_def item_key_def bronte_def pystr_eval)

lemma startup_lists_1984_twice:
  assumes "ensure_seeded_curated 250 (s, w) = (Inr (), (s', w'))" and "int (book_count s) < 250"
    and "all_books_ui \<lparr>db = s', net = w2, demo_cache = c\<rparr> = (Inr rows, st')"
  shows "\<not> distinct (map row_key rows)"
proof -
  let ?d = "\<lparr>d_title = ''1984'', d_author = ''George Orwell'', d_genre = ''Dystopian'',
      d_rating = 460 / 100, d_cover = ''https://covers.openlibrary.org/b/id/7222246-L.jpg''\<rparr>"
  have item: "(''1984'', ''George Orwell'', ''Classics'') \<in> set (all_items CURATED_SHELVES)"
    by (simp add: all_items_def CURATED_SHELVES_def)
  have d: "?d \<in> set BOOKS" by (simp add: BOOKS_def)
  have st: "strip ''1984'' = ''1984''" "strip ''George Orwell'' = ''George Orwell''"
    by (simp_all add: pystr_eval)
  from assms(1,2) item st obtain bk where "bk \<in> set (books (live s'))"
    "book_key bk = (''1984'', ''George Orwell'')"
    unfolding ensure_seeded_curated_def by (auto elim: seeded_item_row)
  with all_books_ui_of_duplicate[OF assms(3)[unfolded all_books_ui_def] d, of bk] show ?thesis
    by (simp add: demo_key_def)
qed

lemma seeded_list:
  "all_books_ui_of two_demo
     \<lparr>db = new_session (empty_tables\<lparr>books := [demo_book]\<rparr>), net = demo_world,
      demo_cache = demo_cache warm_app\<rparr> =
   (Inr [orwell_row, db_row (new_session (empty_tables\<lparr>books := [demo_book]\<rparr>)) demo_book],
    \<lparr>db = new_session (empty_tables\<lparr>books := [demo_book]\<rparr>), net = demo_world,
      demo_cache = demo_cache warm_app\<rparr>)"
  by (simp add: all_books_ui_of_def demo_item_eq demo_best_cover_def two_demo_def warm_app_def
      orwell_row_def or_default_def bnd_def)

text \<open>
  C27 (cross-component). A demo book that is also a curated item is listed
  twice: after a seeding pass that ran the loops and returned, the list that
  \<open>all_books_ui\<close> builds from the seeded table, whatever the cache and the
  network, shows every demo book \<open>d\<close> that equals a stripped curated item at
  two places: at the place \<open>i\<close> of \<open>d\<close> among the demo books, with the title,
  author, genre and rating of \<open>d\<close>, and at a place \<open>j\<close> behind the demo books,
  as the row of \<open>Book\<close> with the same title and author that the seeder has
  stored. So the titles and authors of the list are not distinct.
\<close>

theorem seeded_demo_books_are_listed_twice:
  assumes "ensure_seeded_curated_from shelves n (s, w) = (Inr (), (s', w'))"
    and "int (book_count s) < n"
    and "(t, a, g) \<in> set (all_items shelves)" and "strip t \<noteq> []" and "strip a \<noteq> []"
    and "d \<in> set ds" and "demo_key d = (strip t, strip a)"
    and "all_books_ui_of ds \<lparr>db = s', net = w2, demo_cache = c\<rparr> = (Inr rows, st')"
  shows "(\<exists>i j bk. i < length ds \<and> ds ! i = d \<and> row_key (rows ! i) = demo_key d
            \<and> ub_genre (rows ! i) = d_genre d \<and> ub_rating (rows ! i) = d_rating d
            \<and> length ds \<le> j \<and> j < length rows
            \<and> bk \<in> set (books (live s')) \<and> rows ! j = db_row s' bk
            \<and> row_key (rows ! j) = demo_key d)
       \<and> \<not> distinct (map row_key rows)"
proof -
  from assms(1-5) obtain bk where bk: "bk \<in> set (books (live s'))"
    "book_key bk = (strip t, strip a)"
    by (rule seeded_item_row)
  with assms(7) all_books_ui_of_listed_twice[OF assms(8,6), of bk]
  obtain i j where "i < length ds" "ds ! i = d" "row_key (rows ! i) = demo_key d"
    "ub_genre (rows ! i) = d_genre d" "ub_rating (rows ! i) = d_rating d"
    "length ds \<le> j" "j < length rows" "rows ! j = db_row s' bk"
    by auto
  moreover from this(8) bk(2) assms(7) have "row_key (rows ! j) = demo_key d" by simp
  moreover from bk assms(6,7) all_books_ui_of_duplicate[OF assms(8), of d bk]
  have "\<not> distinct (map row_key rows)" by simp
  ultimately show ?thesis using bk(1) by blast
qed

theorem seeded_demo_books_are_listed_twice_witness:
  "row_key ([orwell_row, db_row (new_session (empty_tables\<lparr>books := [demo_book]\<rparr>)) demo_book] ! 0)
     = (''1984'', ''George Orwell'')
   \<and> row_key ([orwell_row, db_row (new_session (empty_tables\<lparr>books := [demo_book]\<rparr>)) demo_book] ! 1)
     = (''1984'', ''George Orwell'')
   \<and> \<not> distinct (map row_key
      [orwell_row, db_row (new_session (empty_tables\<lparr>books := [demo_book]\<rparr>)) demo_book])"
proof -
  have h: "int (book_count (new_session empty_tables)) < 250"
    by (simp add: book_count_def empty_tables_def)
  have item: "(''1984'', ''George Orwell'', ''Classics'') \<in> set (all_items demo_shelves)"
    by (simp add: all_items_def demo_shelves_def)
  have st: "strip ''1984'' \<noteq> []" "strip ''George Orwell'' \<noteq> []"
    "demo_key (hd two_demo) = (strip ''1984'', strip ''George Orwell'')" "hd two_demo \<in> set two_demo"
    by (simp_all add: pystr_eval two_demo_def demo_key_def)
  have k: "demo_key (hd two_demo) = (''1984'', ''George Orwell'')" "length two_demo = 1"
    by (simp_all add: two_demo_def demo_key_def)
  from seeded_demo_books_are_listed_twice[OF demo_seed h item st(1,2,4,3) seeded_list]
  show ?thesis unfolding k by (auto simp: less_Suc_eq)
qed

end
